(* ===== verification/Go_Prelude.thy ===== *)
theory Go_Prelude imports Main "HOL-Library.AList" "HOL-Library.Multiset" begin

text \<open>
  The prelude of the development: what the components share and what is not specific to any of
  them. It holds the model of the parts of Go's standard library that the source uses on strings
  (package \<open>strings\<close>), Go maps as association lists, and the lemmas about them.

  A Go string is a sequence of bytes; here it is a \<^typ>\<open>string\<close>, a list of 8-bit characters, so
  \<open>len(s)\<close> is \<^term>\<open>length s\<close> and \<open>s[i:]\<close> is \<^term>\<open>drop i s\<close>. The functions that look at letter
  case or at white space treat the ASCII range; the two code points outside ASCII that
  \<open>strings.EqualFold\<close> identifies with an ASCII letter (the long s and the Kelvin sign) are
  folded as well, so \<open>EqualFold\<close> below agrees with Go's whenever one argument is ASCII, as every
  header name and media type the source compares with is.

  A Go map is an association list with distinct keys. The order of the list stands for the order
  in which a \<open>range\<close> loop of one execution visits the map, which Go leaves open: a result that
  does not depend on it is proved to be the same for every permutation of the list.
\<close>

named_theorems go_defs \<open>the small definitions that a component's proofs unfold\<close>
named_theorems go_map \<open>lookup, insertion and deletion in Go maps\<close>

section \<open>Go maps\<close>

type_synonym ('k, 'v) gomap = "('k \<times> 'v) list"

definition map_get :: "('k, 'v) gomap \<Rightarrow> 'k \<Rightarrow> 'v option" where
  "map_get m k = map_of m k"

definition map_set :: "('k, 'v) gomap \<Rightarrow> 'k \<Rightarrow> 'v \<Rightarrow> ('k, 'v) gomap" where
  "map_set m k v = AList.update k v m"

definition map_del :: "('k, 'v) gomap \<Rightarrow> 'k \<Rightarrow> ('k, 'v) gomap" where
  "map_del m k = AList.delete k m"

definition gomap_ok :: "('k, 'v) gomap \<Rightarrow> bool" where
  "gomap_ok m \<longleftrightarrow> distinct (map fst m)"

lemma map_get_Nil [simp, go_map]: "map_get [] k = None"
  by (simp add: map_get_def)

lemma map_get_set [simp, go_map]: "map_get (map_set m k v) = (map_get m)(k \<mapsto> v)"
  by (rule ext) (simp add: map_get_def map_set_def update_conv')

lemma map_get_del [simp, go_map]: "map_get (map_del m k) = (map_get m)(k := None)"
  by (rule ext) (simp add: map_get_def map_del_def delete_conv')

lemma gomap_ok_Nil [simp, intro]: "gomap_ok []"
  by (simp add: gomap_ok_def)

lemma gomap_ok_set [simp, intro]: "gomap_ok m \<Longrightarrow> gomap_ok (map_set m k v)"
  by (simp add: gomap_ok_def map_set_def distinct_update)

lemma gomap_ok_del [simp, intro]: "gomap_ok m \<Longrightarrow> gomap_ok (map_del m k)"
  by (simp add: gomap_ok_def map_del_def distinct_delete)

lemma map_set_mem: "p \<in> set (map_set m k v) \<Longrightarrow> p = (k, v) \<or> p \<in> set m"
  unfolding map_set_def by (induction m) (auto split: if_splits)

lemma map_get_in: "gomap_ok m \<Longrightarrow> (k, v) \<in> set m \<Longrightarrow> map_get m k = Some v"
  by (simp add: gomap_ok_def map_get_def)

lemma map_get_SomeD: "map_get m k = Some v \<Longrightarrow> (k, v) \<in> set m"
  by (simp add: map_get_def map_of_SomeD)

lemma map_get_iff: "gomap_ok m \<Longrightarrow> map_get m k = Some v \<longleftrightarrow> (k, v) \<in> set m"
  by (auto intro: map_get_in dest: map_get_SomeD)

lemma map_get_None_iff: "map_get m k = None \<longleftrightarrow> k \<notin> fst ` set m"
  by (simp add: map_get_def map_of_eq_None_iff)

lemma foldl_map_set_fresh:
  "distinct (map fst (h @ fs)) \<Longrightarrow> foldl (\<lambda>h (k, vs). map_set h k vs) h fs = h @ fs"
proof (induction fs arbitrary: h)
  case (Cons p fs)
  obtain k vs where p: "p = (k, vs)" by (cases p)
  have "map_set h k vs = h @ [(k, vs)]"
    using Cons.prems p by (induction h) (auto simp: map_set_def)
  with Cons p show ?case by simp
qed simp

lemma gomap_ok_sort: "gomap_ok m \<Longrightarrow> gomap_ok (sort_key f m)"
  by (simp add: gomap_ok_def) (metis mset_map mset_sort mset_eq_imp_distinct_iff)

lemma map_get_perm:
  assumes "gomap_ok m" and "mset m = mset m'"
  shows "map_get m = map_get m'"
proof
  fix k
  have "distinct (map fst m')"
    using assms by (metis gomap_ok_def mset_eq_imp_distinct_iff mset_map)
  moreover have "set m = set m'"
    using assms(2) by (metis set_mset_mset)
  ultimately show "map_get m k = map_get m' k"
    using assms(1) by (simp add: gomap_ok_def map_get_def map_of_inject_set)
      (metis map_of_inject_set)
qed

lemma length_map_set:
  "gomap_ok m \<Longrightarrow> length (map_set m k v) = (if map_get m k = None then Suc (length m) else length m)"
  by (induction m) (auto simp: map_set_def map_get_def gomap_ok_def split: if_splits)

lemma length_map_del:
  "gomap_ok m \<Longrightarrow> length (map_del m k) = (if map_get m k = None then length m else length m - 1)"
proof (induction m)
  case Nil
  then show ?case by (simp add: map_del_def)
next
  case (Cons p m)
  obtain a b where p: "p = (a, b)" by (cases p)
  show ?case
  proof (cases "a = k")
    case True
    have "map_of m k = None"
      using Cons.prems True p by (simp add: gomap_ok_def map_of_eq_None_iff)
    then have "AList.delete k m = m"
      by (simp add: delete_idem map_of_eq_None_iff)
    with True p show ?thesis by (simp add: map_del_def map_get_def)
  next
    case False
    have "gomap_ok m" using Cons.prems by (simp add: gomap_ok_def)
    with Cons.IH have IH: "length (map_del m k) = (if map_get m k = None then length m else length m - 1)" .
    have "map_get m k \<noteq> None \<Longrightarrow> 0 < length m"
      by (cases m) (auto simp: map_get_def)
    with IH False p show ?thesis by (auto simp: map_del_def map_get_def)
  qed
qed

section \<open>Package strings\<close>

subsection \<open>Splitting\<close>

text \<open>\<open>strings.Split(s, sep)\<close> and \<open>strings.SplitSeq(s, sep)\<close> for a separator of one byte.\<close>

fun split_on :: "char \<Rightarrow> string \<Rightarrow> string list" where
  "split_on c [] = [[]]"
| "split_on c (x # xs) =
     (if x = c then [] # split_on c xs
      else (case split_on c xs of [] \<Rightarrow> [[x]] | y # ys \<Rightarrow> (x # y) # ys))"

lemma split_on_not_Nil [simp]: "split_on c s \<noteq> []"
  by (cases s) (auto split: list.splits)

lemma hd_split_on: "hd (split_on c s) = takeWhile (\<lambda>x. x \<noteq> c) s"
  by (induction s) (auto split: list.splits)

lemma split_on_pieces: "p \<in> set (split_on c s) \<Longrightarrow> c \<notin> set p"
  by (induction s arbitrary: p) (auto split: list.splits if_splits)

lemma split_on_no_sep: "c \<notin> set s \<Longrightarrow> split_on c s = [s]"
  by (induction s) auto

lemma split_on_append_sep:
  "c \<notin> set a \<Longrightarrow> split_on c (a @ c # b) = a # split_on c b"
  by (induction a) auto

text \<open>\<open>strings.Join(elems, sep)\<close>.\<close>

fun str_join :: "string \<Rightarrow> string list \<Rightarrow> string" where
  "str_join sep [] = []"
| "str_join sep [x] = x"
| "str_join sep (x # y # ys) = x @ sep @ str_join sep (y # ys)"

lemma str_join_Cons: "xs \<noteq> [] \<Longrightarrow> str_join sep (x # xs) = x @ sep @ str_join sep xs"
  by (cases xs) auto

lemma str_join_split_on: "str_join [c] (split_on c s) = s"
proof (induction s)
  case Nil
  then show ?case by simp
next
  case (Cons x xs)
  obtain y ys where yys: "split_on c xs = y # ys"
    by (metis list.exhaust split_on_not_Nil)
  show ?case using Cons.IH yys by (cases ys) auto
qed

lemma split_on_str_join:
  "xs \<noteq> [] \<Longrightarrow> (\<And>x. x \<in> set xs \<Longrightarrow> c \<notin> set x) \<Longrightarrow> split_on c (str_join [c] xs) = xs"
  by (induction "[c]" xs rule: str_join.induct)
    (auto simp: split_on_no_sep split_on_append_sep)

text \<open>\<open>strings.Cut(s, sep)\<close> for a separator of one byte: before, after, found.\<close>

definition str_cut :: "char \<Rightarrow> string \<Rightarrow> string \<times> string \<times> bool" where
  "str_cut c s =
     (if c \<in> set s
      then (takeWhile (\<lambda>x. x \<noteq> c) s, tl (dropWhile (\<lambda>x. x \<noteq> c) s), True)
      else (s, [], False))"

lemma str_cut_append: "c \<notin> set a \<Longrightarrow> str_cut c (a @ c # b) = (a, b, True)"
proof -
  assume "c \<notin> set a"
  then have "takeWhile (\<lambda>x. x \<noteq> c) (a @ c # b) = a" and "dropWhile (\<lambda>x. x \<noteq> c) (a @ c # b) = c # b"
    by (induction a) auto
  then show ?thesis by (simp add: str_cut_def)
qed

lemma fst_str_cut: "fst (str_cut c s) = takeWhile (\<lambda>x. x \<noteq> c) s"
  by (auto simp: str_cut_def intro: sym[OF takeWhile_eq_all_conv[THEN iffD2]])

subsection \<open>Prefixes, suffixes and trimming\<close>

definition has_prefix :: "string \<Rightarrow> string \<Rightarrow> bool" where
  "has_prefix s p \<longleftrightarrow> take (length p) s = p"

definition has_suffix :: "string \<Rightarrow> string \<Rightarrow> bool" where
  "has_suffix s p \<longleftrightarrow> length p \<le> length s \<and> drop (length s - length p) s = p"

definition trim_prefix :: "string \<Rightarrow> string \<Rightarrow> string" where
  "trim_prefix s p = (if has_prefix s p then drop (length p) s else s)"

definition trim_suffix :: "string \<Rightarrow> string \<Rightarrow> string" where
  "trim_suffix s p = (if has_suffix s p then take (length s - length p) s else s)"

lemma has_prefix_iff: "has_prefix s p \<longleftrightarrow> (\<exists>r. s = p @ r)"
  by (metis append_eq_conv_conj append_take_drop_id has_prefix_def)

lemma has_prefix_append [simp]: "has_prefix (p @ r) p"
  by (simp add: has_prefix_def)

lemma has_suffix_iff: "has_suffix s p \<longleftrightarrow> (\<exists>r. s = r @ p)"
proof
  assume "has_suffix s p"
  then have "s = take (length s - length p) s @ p"
    by (metis append_take_drop_id has_suffix_def)
  then show "\<exists>r. s = r @ p" ..
next
  assume "\<exists>r. s = r @ p"
  then show "has_suffix s p" by (auto simp: has_suffix_def)
qed

text \<open>The white space of \<open>unicode.IsSpace\<close> in the ASCII range.\<close>

definition is_space :: "char \<Rightarrow> bool" where
  "is_space c \<longleftrightarrow> c \<in> {CHR 0x09, CHR 0x0A, CHR 0x0B, CHR 0x0C, CHR 0x0D, CHR 0x20}"

definition trim_left_space :: "string \<Rightarrow> string" where
  "trim_left_space s = dropWhile is_space s"

text \<open>\<open>strings.TrimSpace\<close>.\<close>

definition trim_space :: "string \<Rightarrow> string" where
  "trim_space s = rev (trim_left_space (rev (trim_left_space s)))"

lemma trim_space_no_space: "(\<And>c. c \<in> set s \<Longrightarrow> \<not> is_space c) \<Longrightarrow> trim_space s = s"
proof -
  assume a: "\<And>c. c \<in> set s \<Longrightarrow> \<not> is_space c"
  then have "dropWhile is_space s = s" and "dropWhile is_space (rev s) = rev s"
    by (metis dropWhile_eq_self_iff hd_in_set) (metis a dropWhile_eq_self_iff hd_in_set set_rev)
  then show ?thesis by (simp add: trim_space_def trim_left_space_def)
qed

subsection \<open>Letter case\<close>

definition lower_char :: "char \<Rightarrow> char" where
  "lower_char c =
     (let n = of_char c :: nat in if 65 \<le> n \<and> n \<le> 90 then char_of (n + 32) else c)"

definition upper_char :: "char \<Rightarrow> char" where
  "upper_char c = (let n = of_char c :: nat in if 97 \<le> n \<and> n \<le> 122 then char_of (n - 32) else c)"

text \<open>Evaluation on the bits of a byte.\<close>

lemma lower_char_code [code]: "lower_char (Char b0 b1 b2 b3 b4 b5 b6 b7) =
  (if \<not> b7 \<and> b6 \<and> \<not> b5 \<and> (b0 \<or> b1 \<or> b2 \<or> b3 \<or> b4) \<and> \<not> (b4 \<and> b3 \<and> (b2 \<or> b1 \<and> b0))
   then Char b0 b1 b2 b3 b4 True b6 b7 else Char b0 b1 b2 b3 b4 b5 b6 b7)"
  by (cases b0; cases b1; cases b2; cases b3; cases b4; cases b5; cases b6; cases b7;
      simp add: lower_char_def Let_def char_of_def bit_0)

lemma upper_char_code [code]: "upper_char (Char b0 b1 b2 b3 b4 b5 b6 b7) =
  (if \<not> b7 \<and> b6 \<and> b5 \<and> (b0 \<or> b1 \<or> b2 \<or> b3 \<or> b4) \<and> \<not> (b4 \<and> b3 \<and> (b2 \<or> b1 \<and> b0))
   then Char b0 b1 b2 b3 b4 False b6 b7 else Char b0 b1 b2 b3 b4 b5 b6 b7)"
  by (cases b0; cases b1; cases b2; cases b3; cases b4; cases b5; cases b6; cases b7;
      simp add: upper_char_def Let_def char_of_def bit_0)

text \<open>\<open>strings.ToLower\<close> and \<open>strings.ToUpper\<close> on ASCII.\<close>

definition to_lower :: "string \<Rightarrow> string" where
  "to_lower s = map lower_char s"

definition to_upper :: "string \<Rightarrow> string" where
  "to_upper s = map upper_char s"

text \<open>
  \<open>strings.EqualFold\<close>: both sides are brought to one form, where the UTF-8 encodings of the long
  s (U+017F) and of the Kelvin sign (U+212A) become the ASCII letters they fold to.
\<close>

fun fold_ascii :: "string \<Rightarrow> string" where
  "fold_ascii (a # b # c # r) =
     (if a = CHR 0xE2 \<and> b = CHR 0x84 \<and> c = CHR 0xAA then CHR ''k'' # fold_ascii r
      else if a = CHR 0xC5 \<and> b = CHR 0xBF then CHR ''s'' # fold_ascii (c # r)
      else lower_char a # fold_ascii (b # c # r))"
| "fold_ascii [a, b] =
     (if a = CHR 0xC5 \<and> b = CHR 0xBF then ''s'' else [lower_char a, lower_char b])"
| "fold_ascii [a] = [lower_char a]"
| "fold_ascii [] = []"

definition equal_fold :: "string \<Rightarrow> string \<Rightarrow> bool" where
  "equal_fold s t \<longleftrightarrow> fold_ascii s = fold_ascii t"

lemma equal_fold_refl [simp]: "equal_fold s s"
  by (simp add: equal_fold_def)

lemma equal_fold_sym: "equal_fold s t \<Longrightarrow> equal_fold t s"
  by (simp add: equal_fold_def)

lemma equal_fold_trans: "equal_fold s t \<Longrightarrow> equal_fold t u \<Longrightarrow> equal_fold s u"
  by (simp add: equal_fold_def)

section \<open>Package strconv\<close>

definition digit_char :: "nat \<Rightarrow> char" where
  "digit_char n = ''0123456789'' ! n"

fun nat_text :: "nat \<Rightarrow> string" where
  "nat_text n = (if n < 10 then [digit_char n] else nat_text (n div 10) @ [digit_char (n mod 10)])"

declare nat_text.simps [simp del]

text \<open>\<open>strconv.Itoa\<close>.\<close>

definition itoa :: "int \<Rightarrow> string" where
  "itoa n = (if n < 0 then CHR ''-'' # nat_text (nat (- n)) else nat_text (nat n))"

lemma nat_text_not_Nil [simp]: "nat_text n \<noteq> []"
  by (subst nat_text.simps) simp

end
