(* ===== verification/Go_Path.thy ===== *)
theory Go_Path imports Go_Prelude begin

text \<open>
  Package \<open>path\<close> (and \<open>path/filepath\<close> on Unix, which computes the same results): \<open>Clean\<close>,
  \<open>Join\<close>, \<open>Base\<close> and \<open>Dir\<close>, on which the server's static files, uploads, skip lists and route
  groups and the client's request targets rely. \<open>Clean\<close> is the documented reading: the elements
  of the path are pushed on a stack, empty and \<open>.\<close> elements are dropped, \<open>..\<close> removes the element
  before it, or is dropped at the root of a rooted path, or is kept at the front of a relative one.

  The lemmas give the normal form of a cleaned path, that cleaning is idempotent, and that joining
  a path without \<open>..\<close> elements to a base stays below the base.
\<close>

section \<open>Definitions\<close>

abbreviation slash :: char where
  "slash \<equiv> CHR 0x2F"

definition dot :: string where
  "dot = ''.''"

definition dotdot :: string where
  "dotdot = ''..''"

definition clean_step :: "bool \<Rightarrow> string list \<Rightarrow> string \<Rightarrow> string list" where
  "clean_step rooted st seg =
     (if seg = [] \<or> seg = dot then st
      else if seg = dotdot
        then (case st of
                [] \<Rightarrow> if rooted then [] else [dotdot]
              | s # r \<Rightarrow> if s = dotdot then dotdot # st else r)
      else seg # st)"

definition clean_stack :: "bool \<Rightarrow> string list \<Rightarrow> string list \<Rightarrow> string list" where
  "clean_stack rooted st segs = foldl (clean_step rooted) st segs"

definition is_rooted :: "string \<Rightarrow> bool" where
  "is_rooted p = (case p of [] \<Rightarrow> False | c # _ \<Rightarrow> c = slash)"

definition clean_segs :: "string \<Rightarrow> string list" where
  "clean_segs p = rev (clean_stack (is_rooted p) [] (split_on slash p))"

text \<open>The cleaned path with the given elements.\<close>

definition path_of_segs :: "bool \<Rightarrow> string list \<Rightarrow> string" where
  "path_of_segs rooted segs =
     (if rooted then slash # str_join [slash] segs
      else if segs = [] then dot else str_join [slash] segs)"

definition path_clean :: "string \<Rightarrow> string" where
  "path_clean p = path_of_segs (is_rooted p) (clean_segs p)"

definition path_join :: "string list \<Rightarrow> string" where
  "path_join elems =
     (case dropWhile (\<lambda>e. e = []) elems of
        [] \<Rightarrow> []
      | es \<Rightarrow> path_clean (str_join [slash] es))"

text \<open>The text after the last slash, and the text up to and including it.\<close>

definition after_last_slash :: "string \<Rightarrow> string" where
  "after_last_slash p = rev (takeWhile (\<lambda>c. c \<noteq> slash) (rev p))"

definition up_to_last_slash :: "string \<Rightarrow> string" where
  "up_to_last_slash p = rev (dropWhile (\<lambda>c. c \<noteq> slash) (rev p))"

definition strip_trailing_slashes :: "string \<Rightarrow> string" where
  "strip_trailing_slashes p = rev (dropWhile (\<lambda>c. c = slash) (rev p))"

definition path_base :: "string \<Rightarrow> string" where
  "path_base p =
     (if p = [] then dot
      else let b = after_last_slash (strip_trailing_slashes p)
           in if b = [] then [slash] else b)"

definition path_dir :: "string \<Rightarrow> string" where
  "path_dir p = path_clean (up_to_last_slash p)"

section \<open>The normal form\<close>

definition name_seg :: "string \<Rightarrow> bool" where
  "name_seg s \<longleftrightarrow> s \<noteq> [] \<and> s \<noteq> dot \<and> s \<noteq> dotdot \<and> slash \<notin> set s"

text \<open>
  A stack (top first) of a cleaned path: names on top, and below them, in a relative path only,
  a block of \<open>..\<close> elements.
\<close>

definition stack_ok :: "bool \<Rightarrow> string list \<Rightarrow> bool" where
  "stack_ok rooted st \<longleftrightarrow>
     (\<exists>names n. st = names @ replicate n dotdot \<and> list_all name_seg names \<and> (rooted \<longrightarrow> n = 0))"

lemma dots_facts [simp]:
  "dot \<noteq> []" "dotdot \<noteq> []" "[] \<noteq> dot" "[] \<noteq> dotdot" "dotdot \<noteq> dot" "dot \<noteq> dotdot"
  "slash \<notin> set dot" "slash \<notin> set dotdot"
  by (auto simp: dot_def dotdot_def)

lemma name_seg_not_dotdot [simp]: "\<not> name_seg dotdot"
  by (simp add: name_seg_def)

lemma stack_ok_Nil [simp]: "stack_ok r []"
  by (simp add: stack_ok_def)

lemma stack_ok_push: "stack_ok r st \<Longrightarrow> name_seg s \<Longrightarrow> stack_ok r (s # st)"
  unfolding stack_ok_def by (metis append_Cons list.pred_inject(2))

lemma stack_ok_dotdot:
  assumes ok: "stack_ok r st"
  shows "stack_ok r (clean_step r st dotdot)"
proof -
  obtain names n where st: "st = names @ replicate n dotdot" "list_all name_seg names" "r \<longrightarrow> n = 0"
    using ok by (auto simp: stack_ok_def)
  show ?thesis
  proof (cases names)
    case Nil
    then have "clean_step r st dotdot = (if r then [] else replicate (Suc n) dotdot)"
      using st by (cases n) (auto simp: clean_step_def)
    moreover have "stack_ok r (if r then [] else replicate (Suc n) dotdot)"
      unfolding stack_ok_def by (rule exI [of _ "[]"], rule exI [of _ "if r then 0 else Suc n"]) simp
    ultimately show ?thesis by simp
  next
    case (Cons a names')
    then have "a \<noteq> dotdot" using st(2) by (auto simp: name_seg_def)
    then have "clean_step r st dotdot = names' @ replicate n dotdot"
      using st Cons by (simp add: clean_step_def)
    then show ?thesis using st Cons by (auto simp: stack_ok_def)
  qed
qed

lemma stack_ok_step:
  assumes "stack_ok r st" and "slash \<notin> set s"
  shows "stack_ok r (clean_step r st s)"
proof (cases "s = dotdot")
  case True
  then show ?thesis using stack_ok_dotdot [OF assms(1)] by simp
next
  case False
  then show ?thesis
    using assms stack_ok_push [of r st s]
    by (auto simp: clean_step_def name_seg_def)
qed

lemma stack_ok_clean_stack:
  "stack_ok r st \<Longrightarrow> (\<And>s. s \<in> set segs \<Longrightarrow> slash \<notin> set s) \<Longrightarrow> stack_ok r (clean_stack r st segs)"
  unfolding clean_stack_def
  by (induction segs arbitrary: st) (auto intro: stack_ok_step)

lemma stack_ok_path: "stack_ok r (clean_stack r [] (split_on slash p))"
  by (rule stack_ok_clean_stack) (auto dest: split_on_pieces)

lemma stack_ok_elem: "stack_ok r st \<Longrightarrow> s \<in> set st \<Longrightarrow> name_seg s \<or> s = dotdot \<and> \<not> r"
  unfolding stack_ok_def list_all_iff by fastforce

lemma stack_ok_no_slash: "stack_ok r st \<Longrightarrow> s \<in> set st \<Longrightarrow> slash \<notin> set s"
  using stack_ok_elem [of r st s] by (auto simp: name_seg_def)

lemma stack_ok_nonempty: "stack_ok r st \<Longrightarrow> s \<in> set st \<Longrightarrow> s \<noteq> []"
  using stack_ok_elem [of r st s] by (auto simp: name_seg_def)

lemma stack_ok_rooted: "stack_ok True st \<Longrightarrow> list_all name_seg st"
  using stack_ok_elem [of True st] by (simp add: list_all_iff)

text \<open>A stack in normal form is rebuilt from its own elements.\<close>

lemma clean_stack_names:
  "list_all name_seg names \<Longrightarrow> clean_stack r st names = rev names @ st"
  unfolding clean_stack_def
  by (induction names arbitrary: st) (auto simp: clean_step_def name_seg_def)

lemma clean_stack_dotdots:
  "clean_stack False (replicate k dotdot) (replicate n dotdot) = replicate (k + n) dotdot"
proof (induction n arbitrary: k)
  case 0
  then show ?case by (simp add: clean_stack_def)
next
  case (Suc n)
  have "clean_step False (replicate k dotdot) dotdot = replicate (Suc k) dotdot"
    by (cases k) (auto simp: clean_step_def)
  then show ?case using Suc.IH [of "Suc k"] by (simp add: clean_stack_def)
qed

lemma clean_stack_append: "clean_stack r st (xs @ ys) = clean_stack r (clean_stack r st xs) ys"
  by (simp add: clean_stack_def)

lemma clean_stack_rev:
  assumes "stack_ok r st"
  shows "clean_stack r [] (rev st) = st"
proof -
  obtain names n where st: "st = names @ replicate n dotdot" "list_all name_seg names" "r \<longrightarrow> n = 0"
    using assms by (auto simp: stack_ok_def)
  have "clean_stack r [] (replicate n dotdot) = replicate n dotdot"
    using st(3) clean_stack_dotdots [of 0 n] by (cases r) (auto simp: clean_stack_def)
  moreover have "list_all name_seg (rev names)" using st(2) by (simp add: list_all_iff)
  ultimately show ?thesis
    using st(1) by (simp add: clean_stack_append clean_stack_names)
qed

section \<open>Splitting a cleaned path gives its elements back\<close>

lemma clean_stack_skip_empty: "clean_stack r st ([] # segs) = clean_stack r st segs"
  by (simp add: clean_stack_def clean_step_def)

lemma is_rooted_path_of_segs:
  assumes "stack_ok r (rev segs)"
  shows "is_rooted (path_of_segs r segs) = r"
proof (cases r)
  case True
  then show ?thesis by (simp add: path_of_segs_def is_rooted_def)
next
  case False
  show ?thesis
  proof (cases segs)
    case Nil
    then show ?thesis using False by (simp add: path_of_segs_def is_rooted_def dot_def)
  next
    case (Cons a as)
    then have "a \<noteq> []" "slash \<notin> set a"
      using stack_ok_no_slash [OF assms, of a] stack_ok_nonempty [OF assms, of a] by auto
    then show ?thesis
      using False Cons by (cases as) (auto simp: path_of_segs_def is_rooted_def neq_Nil_conv)
  qed
qed

lemma clean_segs_path_of_segs:
  assumes "stack_ok r (rev segs)"
  shows "clean_segs (path_of_segs r segs) = segs"
proof -
  have no: "\<And>s. s \<in> set segs \<Longrightarrow> slash \<notin> set s"
    using stack_ok_no_slash [OF assms] by auto
  have fix_: "clean_stack r [] segs = rev segs"
    using clean_stack_rev [OF assms] by simp
  have "clean_stack r [] (split_on slash (path_of_segs r segs)) = rev segs"
  proof (cases "segs = []")
    case True
    then show ?thesis
      by (cases r) (simp_all add: path_of_segs_def dot_def clean_stack_def clean_step_def)
  next
    case False
    then have "split_on slash (str_join [slash] segs) = segs"
      using no by (rule split_on_str_join)
    then show ?thesis
      using False fix_ by (cases r) (simp_all add: path_of_segs_def clean_stack_skip_empty)
  qed
  then show ?thesis
    by (simp add: clean_segs_def is_rooted_path_of_segs [OF assms])
qed

lemma stack_ok_clean_segs: "stack_ok (is_rooted p) (rev (clean_segs p))"
  by (simp add: clean_segs_def stack_ok_path)

lemma is_rooted_clean [simp]: "is_rooted (path_clean p) = is_rooted p"
  by (simp add: path_clean_def is_rooted_path_of_segs stack_ok_clean_segs)

lemma clean_segs_clean [simp]: "clean_segs (path_clean p) = clean_segs p"
  by (simp add: path_clean_def clean_segs_path_of_segs stack_ok_clean_segs)

lemma path_clean_idem [simp]: "path_clean (path_clean p) = path_clean p"
  by (simp only: path_clean_def [of "path_clean p"] clean_segs_clean is_rooted_clean)
    (simp only: path_clean_def)

lemma path_clean_nonempty [simp]: "path_clean p \<noteq> []"
proof (cases "clean_segs p")
  case Nil
  then show ?thesis by (simp add: path_clean_def path_of_segs_def)
next
  case (Cons a as)
  then have "a \<noteq> []"
    using stack_ok_nonempty [OF stack_ok_clean_segs, of a p] by auto
  then show ?thesis
    using Cons by (cases as) (auto simp: path_clean_def path_of_segs_def)
qed

lemma clean_segs_rooted: "is_rooted p \<Longrightarrow> s \<in> set (clean_segs p) \<Longrightarrow> name_seg s"
  using stack_ok_clean_segs [of p] stack_ok_rooted [of "rev (clean_segs p)"]
  by (auto simp: list_all_iff)

section \<open>Containment\<close>

text \<open>A cleaned path is inside a cleaned directory: it is the directory or lies below it.\<close>

definition path_within :: "string \<Rightarrow> string \<Rightarrow> bool" where
  "path_within d p \<longleftrightarrow>
     is_rooted d = is_rooted p \<and> take (length (clean_segs d)) (clean_segs p) = clean_segs d"

lemma path_within_refl [simp]: "path_within d d"
  by (simp add: path_within_def)

lemma path_within_trans: "path_within a b \<Longrightarrow> path_within b c \<Longrightarrow> path_within a c"
  unfolding path_within_def by (metis min.absorb1 nat_le_linear take_all take_take)

text \<open>
  Elements other than \<open>..\<close> never shorten the stack, so what is joined behind a base stays in it.
\<close>

lemma clean_stack_extends:
  "dotdot \<notin> set segs \<Longrightarrow>
   clean_stack r st segs = rev (filter (\<lambda>s. s \<noteq> [] \<and> s \<noteq> dot) segs) @ st"
  unfolding clean_stack_def
  by (induction segs arbitrary: st) (auto simp: clean_step_def)

lemma split_on_append_sep2: "split_on c (a @ c # b) = split_on c a @ split_on c b"
  by (induction a) (auto split: list.splits)

lemma clean_segs_append:
  assumes "d \<noteq> []" and "dotdot \<notin> set (split_on slash p)"
  shows "clean_segs (d @ slash # p) =
           clean_segs d @ filter (\<lambda>s. s \<noteq> [] \<and> s \<noteq> dot) (split_on slash p)"
    and "is_rooted (d @ slash # p) = is_rooted d"
proof -
  show r: "is_rooted (d @ slash # p) = is_rooted d"
    using assms(1) by (auto simp: is_rooted_def neq_Nil_conv)
  have "clean_stack (is_rooted d) [] (split_on slash (d @ slash # p)) =
        clean_stack (is_rooted d) (clean_stack (is_rooted d) [] (split_on slash d)) (split_on slash p)"
    by (simp add: split_on_append_sep2 clean_stack_append)
  also have "\<dots> = rev (filter (\<lambda>s. s \<noteq> [] \<and> s \<noteq> dot) (split_on slash p))
                    @ clean_stack (is_rooted d) [] (split_on slash d)"
    by (rule clean_stack_extends [OF assms(2)])
  finally show "clean_segs (d @ slash # p) =
      clean_segs d @ filter (\<lambda>s. s \<noteq> [] \<and> s \<noteq> dot) (split_on slash p)"
    unfolding clean_segs_def r by (simp add: rev_map)
qed

lemma path_join_two:
  "d \<noteq> [] \<Longrightarrow> path_join [d, p] = path_clean (d @ slash # p)"
  by (simp add: path_join_def)

lemma path_join_within:
  assumes "d \<noteq> []" and "dotdot \<notin> set (split_on slash p)"
  shows "path_within d (path_join [d, p])"
  using clean_segs_append [OF assms] assms(1)
  by (simp add: path_within_def path_join_two)

text \<open>A cleaned relative path that does not start with \<open>..\<close> has no \<open>..\<close> element at all.\<close>

lemma split_on_path_of_segs:
  assumes "stack_ok r (rev segs)" and "segs \<noteq> []"
  shows "split_on slash (path_of_segs r segs) = (if r then [] # segs else segs)"
proof -
  have "split_on slash (str_join [slash] segs) = segs"
    using assms(2) stack_ok_no_slash [OF assms(1)] by (intro split_on_str_join) auto
  then show ?thesis using assms(2) by (simp add: path_of_segs_def)
qed

lemma dotdot_clean_first:
  assumes "dotdot \<in> set (clean_segs p)"
  shows "\<exists>rest. clean_segs p = dotdot # rest" and "\<not> is_rooted p"
proof -
  obtain names n where
    st: "rev (clean_segs p) = names @ replicate n dotdot" "list_all name_seg names"
        "is_rooted p \<longrightarrow> n = 0"
    using stack_ok_clean_segs [of p] by (auto simp: stack_ok_def)
  have "dotdot \<notin> set names" using st(2) by (auto simp: list_all_iff)
  moreover have "dotdot \<in> set (rev (clean_segs p))" using assms by simp
  ultimately have n: "n \<noteq> 0" using st(1) by (auto split: if_splits)
  then show "\<not> is_rooted p" using st(3) by simp
  have "clean_segs p = replicate n dotdot @ rev names"
    using st(1) by (metis rev_append rev_replicate rev_rev_ident)
  then show "\<exists>rest. clean_segs p = dotdot # rest" using n by (cases n) auto
qed

lemma clean_no_dotdot_prefix:
  assumes "\<not> has_prefix (path_clean p) dotdot"
  shows "dotdot \<notin> set (split_on slash (path_clean p))"
proof
  assume a: "dotdot \<in> set (split_on slash (path_clean p))"
  show False
  proof (cases "clean_segs p")
    case Nil
    with a show False
      by (auto simp: path_clean_def path_of_segs_def dot_def dotdot_def split: if_splits)
  next
    case (Cons s ss)
    then have "dotdot \<in> set (clean_segs p)"
      using a split_on_path_of_segs [OF stack_ok_clean_segs, of p]
      by (auto simp: path_clean_def split: if_splits)
    then obtain rest where r: "clean_segs p = dotdot # rest" and nr: "\<not> is_rooted p"
      using dotdot_clean_first by blast
    then have "has_prefix (path_clean p) dotdot"
      by (cases rest) (auto simp: path_clean_def path_of_segs_def has_prefix_def)
    with assms show False by contradiction
  qed
qed

end
