(* ===== verification/Go_Http.thy ===== *)
theory Go_Http imports Go_Prelude begin

text \<open>
  What the source uses of package \<open>net/http\<close>: header maps with canonical keys, requests,
  handlers and the response writer.

  A handler is a program of operations on its \<open>http.ResponseWriter\<close> (type \<open>prog\<close>): reading and
  changing the live header map, \<open>WriteHeader\<close>, \<open>Write\<close>, \<open>Flush\<close>, \<open>Hijack\<close>, a log line, and how it ends:
  it returns, it panics (a deferred \<open>recover\<close> further out can still catch the panic), or a
  goroutine without a \<open>recover\<close> of its own panics, which ends the process (\<open>Crash\<close>). A middleware
  that only adds operations is then a function on programs, and one that wraps the writer (logger,
  timeout, recovery) is a translation of programs, which sees every operation of the inner handler
  in order. The function \<open>exec\<close> gives the meaning of a program on the base writer of the server:
  the first final status wins, the headers are frozen when it is sent, an informational (1xx)
  status is not final, and a write without a status sends 200. A connection can be taken over
  (hijacked) once, on HTTP/1; from then on the writer sends nothing. Status codes outside 100 to 999
  and a flush of a hijacked connection, on which \<open>net/http\<close> panics, are outside the model, as is
  what the handler writes to the connection it took over.
\<close>

section \<open>Header maps\<close>

type_synonym header = "(string, string list) gomap"

text \<open>The bytes of a token: letters, digits and the marks RFC 7230 allows in a field name.\<close>

definition token_byte :: "char \<Rightarrow> bool" where
  "token_byte c =
     (let n = of_char c :: nat
      in n = 33 \<or> 35 \<le> n \<and> n \<le> 39 \<or> n = 42 \<or> n = 43 \<or> n = 45 \<or> n = 46
         \<or> 48 \<le> n \<and> n \<le> 57 \<or> 65 \<le> n \<and> n \<le> 90 \<or> 94 \<le> n \<and> n \<le> 122 \<or> n = 124 \<or> n = 126)"

lemma token_byte_code [code]: "token_byte (Char b0 b1 b2 b3 b4 b5 b6 b7) =
  (\<not> b7 \<and>
    (if b6
     then (if b4 then \<not> b3 \<or> \<not> b2 \<and> \<not> (b1 \<and> b0) \<or> b2 \<and> (if b5 then \<not> b0 else b1)
           else b5 \<or> b3 \<or> b2 \<or> b1 \<or> b0)
     else b5 \<and> (if b4 then \<not> b3 \<or> \<not> b2 \<and> \<not> b1
                else if b3 then (if b2 then b0 \<noteq> b1 else b1) else b2 \<or> b0)))"
  by (cases b0; cases b1; cases b2; cases b3; cases b4; cases b5; cases b6; cases b7;
      simp add: token_byte_def Let_def)

fun canon_from :: "bool \<Rightarrow> string \<Rightarrow> string" where
  "canon_from up [] = []"
| "canon_from up (c # cs) =
     (if up then upper_char c else lower_char c) # canon_from (c = CHR ''-'') cs"

definition CanonicalHeaderKey :: "string \<Rightarrow> string" where
  "CanonicalHeaderKey s = (if list_all token_byte s then canon_from True s else s)"

definition hdr_get :: "header \<Rightarrow> string \<Rightarrow> string" where
  "hdr_get h k =
     (case map_get h (CanonicalHeaderKey k) of
        Some (v # _) \<Rightarrow> v
      | _ \<Rightarrow> [])"

definition hdr_values :: "header \<Rightarrow> string \<Rightarrow> string list" where
  "hdr_values h k = (case map_get h (CanonicalHeaderKey k) of Some vs \<Rightarrow> vs | None \<Rightarrow> [])"

definition hdr_set :: "header \<Rightarrow> string \<Rightarrow> string \<Rightarrow> header" where
  "hdr_set h k v = map_set h (CanonicalHeaderKey k) [v]"

definition hdr_add :: "header \<Rightarrow> string \<Rightarrow> string \<Rightarrow> header" where
  "hdr_add h k v = map_set h (CanonicalHeaderKey k) (hdr_values h k @ [v])"

definition hdr_del :: "header \<Rightarrow> string \<Rightarrow> header" where
  "hdr_del h k = map_del h (CanonicalHeaderKey k)"

subsection \<open>Canonical keys\<close>

text \<open>Facts about single bytes are facts about their codes.\<close>

definition up_code :: "nat \<Rightarrow> nat" where
  "up_code n = (if 97 \<le> n \<and> n \<le> 122 then n - 32 else n)"

definition lo_code :: "nat \<Rightarrow> nat" where
  "lo_code n = (if 65 \<le> n \<and> n \<le> 90 then n + 32 else n)"

lemma code_upper: "of_char (upper_char c) = up_code (of_char c)"
proof (cases "97 \<le> (of_char c :: nat) \<and> (of_char c :: nat) \<le> 122")
  case True
  then have "(of_char c :: nat) - 32 < 256" by linarith
  then have "(of_char c - 32) mod 256 = (of_char c :: nat) - 32" by (rule mod_less)
  with True show ?thesis by (simp add: upper_char_def up_code_def Let_def)
next
  case False
  then show ?thesis by (simp only: upper_char_def up_code_def Let_def if_False)
qed

lemma code_lower: "of_char (lower_char c) = lo_code (of_char c)"
proof (cases "65 \<le> (of_char c :: nat) \<and> (of_char c :: nat) \<le> 90")
  case True
  then have "(of_char c :: nat) + 32 < 256" by linarith
  then have "(of_char c + 32) mod 256 = (of_char c :: nat) + 32" by (rule mod_less)
  with True show ?thesis by (simp add: lower_char_def lo_code_def Let_def)
next
  case False
  then show ?thesis by (simp only: lower_char_def lo_code_def Let_def if_False)
qed

lemma case_codes:
  "up_code (up_code n) = up_code n" "lo_code (lo_code n) = lo_code n"
  "up_code (lo_code n) = up_code n" "lo_code (up_code n) = lo_code n"
  "up_code n = 45 \<longleftrightarrow> n = 45" "lo_code n = 45 \<longleftrightarrow> n = 45"
  by (auto simp: up_code_def lo_code_def)

lemma char_eq_code: "(c = d) = (of_char c = (of_char d :: nat))"
  by (simp add: of_char_eq_iff)

lemma letter_case_idem [simp]:
  "upper_char (upper_char c) = upper_char c" "lower_char (lower_char c) = lower_char c"
  "upper_char (lower_char c) = upper_char c" "lower_char (upper_char c) = lower_char c"
  by (simp_all only: char_eq_code code_upper code_lower case_codes)

lemma code_dash: "of_char CHR ''-'' = (45 :: nat)"
  by simp

lemma letter_case_dash [simp]:
  "(upper_char c = CHR ''-'') = (c = CHR ''-'')" "(lower_char c = CHR ''-'') = (c = CHR ''-'')"
  by (simp_all only: char_eq_code code_upper code_lower code_dash case_codes)

lemma token_byte_case [simp]:
  "token_byte (upper_char c) = token_byte c" "token_byte (lower_char c) = token_byte c"
proof -
  show "token_byte (upper_char c) = token_byte c"
  proof (cases "97 \<le> (of_char c :: nat) \<and> (of_char c :: nat) \<le> 122")
    case True
    then have "up_code (of_char c) = of_char c - 32" by (simp add: up_code_def)
    moreover have "65 \<le> (of_char c :: nat) - 32" "(of_char c :: nat) - 32 \<le> 90" using True by linarith+
    ultimately show ?thesis using True by (simp add: token_byte_def code_upper Let_def)
  next
    case False
    then have "up_code (of_char c) = of_char c" by (simp only: up_code_def if_False)
    then show ?thesis by (simp add: token_byte_def code_upper)
  qed
  show "token_byte (lower_char c) = token_byte c"
  proof (cases "65 \<le> (of_char c :: nat) \<and> (of_char c :: nat) \<le> 90")
    case True
    then have "lo_code (of_char c) = of_char c + 32" by (simp add: lo_code_def)
    moreover have "97 \<le> (of_char c :: nat) + 32" "(of_char c :: nat) + 32 \<le> 122" using True by linarith+
    ultimately show ?thesis using True by (simp add: token_byte_def code_lower Let_def)
  next
    case False
    then have "lo_code (of_char c) = of_char c" by (simp only: lo_code_def if_False)
    then show ?thesis by (simp add: token_byte_def code_lower)
  qed
qed

lemma token_byte_ascii: "token_byte c \<Longrightarrow> c \<noteq> CHR 0xE2 \<and> c \<noteq> CHR 0xC5"
  by (auto simp: token_byte_def Let_def)

lemma canon_from_tokens: "list_all token_byte s \<Longrightarrow> list_all token_byte (canon_from up s)"
  by (induction s arbitrary: up) auto

lemma canon_from_idem:
  "list_all token_byte s \<Longrightarrow> canon_from up (canon_from up s) = canon_from up s"
  by (induction s arbitrary: up) auto

lemma canonical_idem [simp]: "CanonicalHeaderKey (CanonicalHeaderKey s) = CanonicalHeaderKey s"
  by (simp add: CanonicalHeaderKey_def canon_from_tokens canon_from_idem)

lemma fold_ascii_tokens: "list_all token_byte s \<Longrightarrow> fold_ascii s = map lower_char s"
  by (induction s rule: fold_ascii.induct) (auto dest: token_byte_ascii)

lemma map_lower_canon: "list_all token_byte s \<Longrightarrow> map lower_char (canon_from up s) = map lower_char s"
  by (induction s arbitrary: up) auto

lemma canon_from_lower: "list_all token_byte s \<Longrightarrow> canon_from up (map lower_char s) = canon_from up s"
  by (induction s arbitrary: up) auto

text \<open>For header names made of token bytes, equality up to case is equality of the canonical keys.\<close>

lemma equal_fold_canonical:
  assumes "list_all token_byte s" and "list_all token_byte t"
  shows "equal_fold s t \<longleftrightarrow> CanonicalHeaderKey s = CanonicalHeaderKey t"
proof
  assume "equal_fold s t"
  then have "map lower_char s = map lower_char t"
    using assms by (simp add: equal_fold_def fold_ascii_tokens)
  then show "CanonicalHeaderKey s = CanonicalHeaderKey t"
    using assms by (simp add: CanonicalHeaderKey_def) (metis canon_from_lower)
next
  assume "CanonicalHeaderKey s = CanonicalHeaderKey t"
  then have "map lower_char s = map lower_char t"
    using assms by (simp add: CanonicalHeaderKey_def) (metis map_lower_canon)
  then show "equal_fold s t"
    using assms by (simp add: equal_fold_def fold_ascii_tokens)
qed

lemma hdr_get_set: "hdr_get (hdr_set h k v) k' =
    (if CanonicalHeaderKey k' = CanonicalHeaderKey k then v else hdr_get h k')"
  by (simp add: hdr_get_def hdr_set_def)

lemma hdr_values_set: "hdr_values (hdr_set h k v) k' =
    (if CanonicalHeaderKey k' = CanonicalHeaderKey k then [v] else hdr_values h k')"
  by (simp add: hdr_values_def hdr_set_def)

lemma hdr_values_add: "hdr_values (hdr_add h k v) k' =
    (if CanonicalHeaderKey k' = CanonicalHeaderKey k then hdr_values h k @ [v] else hdr_values h k')"
  by (simp add: hdr_values_def hdr_add_def)

lemma hdr_values_del: "hdr_values (hdr_del h k) k' =
    (if CanonicalHeaderKey k' = CanonicalHeaderKey k then [] else hdr_values h k')"
  by (simp add: hdr_values_def hdr_del_def)

lemma hdr_values_empty [simp]: "hdr_values [] name = []"
  by (simp add: hdr_values_def)

lemma hdr_get_values: "hdr_get h k = (case hdr_values h k of [] \<Rightarrow> [] | v # _ \<Rightarrow> v)"
  by (simp add: hdr_get_def hdr_values_def split: option.splits list.splits)

section \<open>JSON values\<close>

text \<open>
  What \<open>encoding/json\<close> writes and reads is modelled as the tree of the JSON text; the rendering as
  text (indentation, escapes) is not part of the model.
\<close>

datatype json =
    JNull
  | JBool bool
  | JNum int
  | JStr string
  | JArr "json list"
  | JObj "(string \<times> json) list"

section \<open>Requests\<close>

text \<open>
  The fields of \<open>*http.Request\<close> the source reads. The context of the request carries the request
  id, the authenticated user and the attributes of the \<open>ctxscope\<close> package.
\<close>

record request =
  rq_Method :: string
  rq_Path :: string
  rq_RawQuery :: string
  rq_Host :: string
  rq_RemoteAddr :: string
  rq_TLS :: bool
  rq_Header :: header
  rq_RequestID :: "string option"
  rq_User :: "string option"
  rq_Scope :: "(string, string) gomap"

section \<open>Handlers\<close>

datatype chunk = Json json | Raw string

datatype attr = AStr string | AInt int

text \<open>A log line of \<open>log/slog\<close>: level, message and attributes.\<close>

datatype log_entry = LogEntry (log_level: int) (log_msg: string) (log_attrs: "(string \<times> attr) list")

datatype prog =
    Return
  | Panic string
  | Crash string
  | ModHeader "header \<Rightarrow> header" prog
  | GetHeader "header \<Rightarrow> prog"
  | WriteHeader int prog
  | Write chunk "bool \<Rightarrow> prog"
  | Flush prog
  | Hijack "bool \<Rightarrow> prog"
  | Log log_entry prog

type_synonym handler = "request \<Rightarrow> prog"

definition set_header :: "string \<Rightarrow> string \<Rightarrow> prog \<Rightarrow> prog" where
  "set_header k v p = ModHeader (\<lambda>h. hdr_set h k v) p"

datatype outcome = Returned | Panicked string | Crashed string

record writer =
  w_header :: header
  w_status :: "int option"
  w_sent :: header
  w_infos :: "int list"
  w_body :: "chunk list"
  w_flushed :: bool
  w_hijackable :: bool
  w_hijacked :: bool
  w_log :: "log_entry list"

definition new_writer :: writer where
  "new_writer = \<lparr>w_header = [], w_status = None, w_sent = [], w_infos = [], w_body = [],
     w_flushed = False, w_hijackable = True, w_hijacked = False, w_log = []\<rparr>"

text \<open>The writer of an HTTP/2 stream: it has no \<open>Hijack\<close>.\<close>

definition stream_writer :: writer where
  "stream_writer = new_writer\<lparr>w_hijackable := False\<rparr>"

definition informational :: "int \<Rightarrow> bool" where
  "informational c \<longleftrightarrow> 100 \<le> c \<and> c \<le> 199 \<and> c \<noteq> 101"

definition body_allowed :: "int \<Rightarrow> bool" where
  "body_allowed c \<longleftrightarrow> \<not> (100 \<le> c \<and> c \<le> 199) \<and> c \<noteq> 204 \<and> c \<noteq> 304"

definition do_write_header :: "int \<Rightarrow> writer \<Rightarrow> writer" where
  "do_write_header c w =
     (if w_status w \<noteq> None \<or> w_hijacked w then w
      else if informational c then w\<lparr>w_infos := w_infos w @ [c]\<rparr>
      else w\<lparr>w_status := Some c, w_sent := w_header w\<rparr>)"

definition implicit_ok :: "writer \<Rightarrow> writer" where
  "implicit_ok w = (if w_status w = None then do_write_header 200 w else w)"

definition do_write :: "chunk \<Rightarrow> writer \<Rightarrow> bool \<times> writer" where
  "do_write b w =
     (let w1 = implicit_ok w
      in if w_hijacked w then (False, w)
         else if body_allowed (the (w_status w1)) then (True, w1\<lparr>w_body := w_body w1 @ [b]\<rparr>)
         else (False, w1))"

primrec exec :: "prog \<Rightarrow> writer \<Rightarrow> writer \<times> outcome" where
  "exec Return w = (w, Returned)"
| "exec (Panic v) w = (w, Panicked v)"
| "exec (Crash v) w = (w, Crashed v)"
| "exec (ModHeader f p) w = exec p (w\<lparr>w_header := f (w_header w)\<rparr>)"
| "exec (GetHeader k) w = exec (k (w_header w)) w"
| "exec (WriteHeader c p) w = exec p (do_write_header c w)"
| "exec (Write b k) w = (let r = do_write b w in exec (k (fst r)) (snd r))"
| "exec (Flush p) w = exec p ((implicit_ok w)\<lparr>w_flushed := True\<rparr>)"
| "exec (Hijack k) w =
     (if w_hijackable w \<and> \<not> w_hijacked w then exec (k True) (w\<lparr>w_hijacked := True\<rparr>)
      else exec (k False) w)"
| "exec (Log e p) w = exec p (w\<lparr>w_log := w_log w @ [e]\<rparr>)"

text \<open>
  When the outermost handler returns without having sent a status, the server sends 200 with the
  headers as they are, unless the connection was taken over; after a panic it drops the connection.
\<close>

definition serve :: "prog \<Rightarrow> writer \<times> outcome" where
  "serve p =
     (case exec p new_writer of
        (w, Returned) \<Rightarrow> (implicit_ok w, Returned)
      | r \<Rightarrow> r)"

lemma set_header_exec [simp]:
  "exec (set_header k v p) w = exec p (w\<lparr>w_header := hdr_set (w_header w) k v\<rparr>)"
  by (simp add: set_header_def)

lemma status_stable_write_header: "w_status w = Some c \<Longrightarrow> do_write_header d w = w"
  by (simp add: do_write_header_def)

text \<open>A final status, once sent, is never replaced, and neither are the headers sent with it.\<close>

lemma exec_status_stable:
  "w_status w = Some c \<Longrightarrow>
   w_status (fst (exec p w)) = Some c \<and> w_sent (fst (exec p w)) = w_sent w"
  by (induction p arbitrary: w)
    (auto simp: do_write_header_def do_write_def implicit_ok_def Let_def)

text \<open>
  A response is committed once it has a status or its connection is taken over. Then no status can be
  sent any more, and of a hijacked connection nothing the writer holds for the client changes.
\<close>

definition w_committed :: "writer \<Rightarrow> bool" where
  "w_committed w \<longleftrightarrow> w_status w \<noteq> None \<or> w_hijacked w"

lemma not_committed: "\<not> w_committed w \<longleftrightarrow> w_status w = None \<and> \<not> w_hijacked w"
  by (simp add: w_committed_def)

lemma new_writer_open [simp]: "\<not> w_committed new_writer" "\<not> w_committed stream_writer"
  by (simp_all add: w_committed_def new_writer_def stream_writer_def)

lemma committed_update [simp]:
  "w_committed (w\<lparr>w_header := h\<rparr>) = w_committed w" "w_committed (w\<lparr>w_log := l\<rparr>) = w_committed w"
  by (simp_all add: w_committed_def)

lemma committed_write_header: "w_committed w \<Longrightarrow> do_write_header c w = w"
  by (auto simp: w_committed_def do_write_header_def)

lemma implicit_ok_committed: "w_committed w \<Longrightarrow> implicit_ok w = w"
  by (simp add: implicit_ok_def committed_write_header)

lemma exec_hijacked_stable:
  "w_hijacked w \<Longrightarrow> w_hijacked (fst (exec p w)) \<and> w_status (fst (exec p w)) = w_status w
    \<and> w_sent (fst (exec p w)) = w_sent w \<and> w_infos (fst (exec p w)) = w_infos w
    \<and> w_body (fst (exec p w)) = w_body w"
  by (induction p arbitrary: w) (simp_all add: do_write_header_def do_write_def implicit_ok_def)

lemma exec_committed: "w_committed w \<Longrightarrow> w_committed (fst (exec p w))"
  using exec_hijacked_stable [of w p] exec_status_stable [of w _ p] by (auto simp: w_committed_def)

lemma exec_hijackable: "w_hijackable (fst (exec p w)) = w_hijackable w"
  by (induction p arbitrary: w)
    (simp_all add: do_write_header_def do_write_def implicit_ok_def Let_def)

lemma exec_body_grows: "\<exists>bs. w_body (fst (exec p w)) = w_body w @ bs"
proof (induction p arbitrary: w)
  case (Write b k)
  obtain ok w' where r: "do_write b w = (ok, w')" by fastforce
  have "\<exists>bs. w_body w' = w_body w @ bs"
    using r by (auto simp: do_write_def implicit_ok_def do_write_header_def Let_def split: if_splits)
  moreover have "\<exists>bs. w_body (fst (exec (k ok) w')) = w_body w' @ bs"
    by (rule Write.IH) simp
  ultimately show ?case using r by (auto simp: Let_def)
next
  case (WriteHeader c p)
  have "w_body (do_write_header c w) = w_body w" by (simp add: do_write_header_def)
  then show ?case using WriteHeader.IH [of "do_write_header c w"] by simp
next
  case (Flush p)
  have "w_body (implicit_ok w) = w_body w"
    by (simp add: implicit_ok_def do_write_header_def)
  then show ?case using Flush.IH [of "(implicit_ok w)\<lparr>w_flushed := True\<rparr>"] by simp
next
  case (Hijack k)
  show ?case
    using Hijack.IH [of "k True" "w\<lparr>w_hijacked := True\<rparr>"] Hijack.IH [of "k False" w] by simp
next
  case (GetHeader k)
  show ?case using GetHeader.IH [of "k (w_header w)" w] by simp
next
  case (ModHeader f p)
  show ?case using ModHeader.IH [of "w\<lparr>w_header := f (w_header w)\<rparr>"] by simp
next
  case (Log e p)
  show ?case using Log.IH [of "w\<lparr>w_log := w_log w @ [e]\<rparr>"] by simp
qed simp_all

end
