(* ===== verification/Header_Names.thy ===== *)
theory Header_Names imports Go_Http begin

text \<open>
  The constants of \<open>headers.go\<close>, one definition each under the source's name, and the question which
  of them are canonical header keys. \<open>Header.Get\<close>, \<open>Set\<close> and \<open>Add\<close> canonicalise their argument, so
  the spelling of a constant does not matter to them; it matters wherever the source uses a constant
  as a key of a plain Go map next to header keys.
\<close>

named_theorems header_names \<open>the header name constants\<close>

definition HeaderNameAuthorization :: string where [header_names]:
  "HeaderNameAuthorization = ''Authorization''"

definition HeaderNameXAPIKey :: string where [header_names]:
  "HeaderNameXAPIKey = ''X-Api-Key''"

definition HeaderNameWWWAuthenticate :: string where [header_names]:
  "HeaderNameWWWAuthenticate = ''WWW-Authenticate''"

definition AuthSchemeBearer :: string where [header_names]:
  "AuthSchemeBearer = ''Bearer ''"

definition AuthSchemeBasic :: string where [header_names]:
  "AuthSchemeBasic = ''Basic ''"

definition HeaderNameCookie :: string where [header_names]:
  "HeaderNameCookie = ''Cookie''"

definition HeaderNameSetCookie :: string where [header_names]:
  "HeaderNameSetCookie = ''Set-Cookie''"

definition HeaderNameContentType :: string where [header_names]:
  "HeaderNameContentType = ''Content-Type''"

definition HeaderNameContentLength :: string where [header_names]:
  "HeaderNameContentLength = ''Content-Length''"

definition HeaderNameContentDisposition :: string where [header_names]:
  "HeaderNameContentDisposition = ''Content-Disposition''"

definition HeaderNameContentEncoding :: string where [header_names]:
  "HeaderNameContentEncoding = ''Content-Encoding''"

definition HeaderNameContentLanguage :: string where [header_names]:
  "HeaderNameContentLanguage = ''Content-Language''"

definition HeaderNameContentLocation :: string where [header_names]:
  "HeaderNameContentLocation = ''Content-Location''"

definition HeaderNameContentRange :: string where [header_names]:
  "HeaderNameContentRange = ''Content-Range''"

definition HeaderNameAccept :: string where [header_names]:
  "HeaderNameAccept = ''Accept''"

definition HeaderNameAcceptCharset :: string where [header_names]:
  "HeaderNameAcceptCharset = ''Accept-Charset''"

definition HeaderNameAcceptEncoding :: string where [header_names]:
  "HeaderNameAcceptEncoding = ''Accept-Encoding''"

definition HeaderNameAcceptLanguage :: string where [header_names]:
  "HeaderNameAcceptLanguage = ''Accept-Language''"

definition HeaderNameAcceptRanges :: string where [header_names]:
  "HeaderNameAcceptRanges = ''Accept-Ranges''"

definition HeaderNameXRequestID :: string where [header_names]:
  "HeaderNameXRequestID = ''X-Request-ID''"

definition HeaderNameXCorrelationID :: string where [header_names]:
  "HeaderNameXCorrelationID = ''X-Correlation-ID''"

definition HeaderNameUserAgent :: string where [header_names]:
  "HeaderNameUserAgent = ''User-Agent''"

definition HeaderNameXForwardedFor :: string where [header_names]:
  "HeaderNameXForwardedFor = ''X-Forwarded-For''"

definition HeaderNameXForwardedProto :: string where [header_names]:
  "HeaderNameXForwardedProto = ''X-Forwarded-Proto''"

definition HeaderNameXForwardedHost :: string where [header_names]:
  "HeaderNameXForwardedHost = ''X-Forwarded-Host''"

definition HeaderNameXRealIP :: string where [header_names]:
  "HeaderNameXRealIP = ''X-Real-IP''"

definition HeaderNameXClientID :: string where [header_names]:
  "HeaderNameXClientID = ''X-Client-ID''"

definition HeaderNameHost :: string where [header_names]:
  "HeaderNameHost = ''Host''"

definition HeaderNameReferer :: string where [header_names]:
  "HeaderNameReferer = ''Referer''"

definition HeaderNameOrigin :: string where [header_names]:
  "HeaderNameOrigin = ''Origin''"

definition HeaderNameAccessControlAllowOrigin :: string where [header_names]:
  "HeaderNameAccessControlAllowOrigin = ''Access-Control-Allow-Origin''"

definition HeaderNameAccessControlAllowMethods :: string where [header_names]:
  "HeaderNameAccessControlAllowMethods = ''Access-Control-Allow-Methods''"

definition HeaderNameAccessControlAllowHeaders :: string where [header_names]:
  "HeaderNameAccessControlAllowHeaders = ''Access-Control-Allow-Headers''"

definition HeaderNameAccessControlExposeHeaders :: string where [header_names]:
  "HeaderNameAccessControlExposeHeaders = ''Access-Control-Expose-Headers''"

definition HeaderNameAccessControlAllowCredentials :: string where [header_names]:
  "HeaderNameAccessControlAllowCredentials = ''Access-Control-Allow-Credentials''"

definition HeaderNameAccessControlMaxAge :: string where [header_names]:
  "HeaderNameAccessControlMaxAge = ''Access-Control-Max-Age''"

definition HeaderNameAccessControlRequestMethod :: string where [header_names]:
  "HeaderNameAccessControlRequestMethod = ''Access-Control-Request-Method''"

definition HeaderNameAccessControlRequestHeaders :: string where [header_names]:
  "HeaderNameAccessControlRequestHeaders = ''Access-Control-Request-Headers''"

definition HeaderNameVary :: string where [header_names]:
  "HeaderNameVary = ''Vary''"

definition HeaderNameCacheControl :: string where [header_names]:
  "HeaderNameCacheControl = ''Cache-Control''"

definition HeaderNamePragma :: string where [header_names]:
  "HeaderNamePragma = ''Pragma''"

definition HeaderNameExpires :: string where [header_names]:
  "HeaderNameExpires = ''Expires''"

definition HeaderNameETag :: string where [header_names]:
  "HeaderNameETag = ''ETag''"

definition HeaderNameIfNoneMatch :: string where [header_names]:
  "HeaderNameIfNoneMatch = ''If-None-Match''"

definition HeaderNameIfMatch :: string where [header_names]:
  "HeaderNameIfMatch = ''If-Match''"

definition HeaderNameIfModSince :: string where [header_names]:
  "HeaderNameIfModSince = ''If-Modified-Since''"

definition HeaderNameIfUnmodSince :: string where [header_names]:
  "HeaderNameIfUnmodSince = ''If-Unmodified-Since''"

definition HeaderNameLastModified :: string where [header_names]:
  "HeaderNameLastModified = ''Last-Modified''"

definition HeaderNameAge :: string where [header_names]:
  "HeaderNameAge = ''Age''"

definition HeaderNameXCacheStatus :: string where [header_names]:
  "HeaderNameXCacheStatus = ''X-Cache-Status''"

definition HeaderNameConnection :: string where [header_names]:
  "HeaderNameConnection = ''Connection''"

definition HeaderNameKeepAlive :: string where [header_names]:
  "HeaderNameKeepAlive = ''Keep-Alive''"

definition HeaderNameProxyAuthenticate :: string where [header_names]:
  "HeaderNameProxyAuthenticate = ''Proxy-Authenticate''"

definition HeaderNameProxyAuthorization :: string where [header_names]:
  "HeaderNameProxyAuthorization = ''Proxy-Authorization''"

definition HeaderNameTE :: string where [header_names]:
  "HeaderNameTE = ''Te''"

definition HeaderNameTrailer :: string where [header_names]:
  "HeaderNameTrailer = ''Trailer''"

definition HeaderNameTrailers :: string where [header_names]:
  "HeaderNameTrailers = ''Trailers''"

definition HeaderNameTransferEncoding :: string where [header_names]:
  "HeaderNameTransferEncoding = ''Transfer-Encoding''"

definition HeaderNameUpgrade :: string where [header_names]:
  "HeaderNameUpgrade = ''Upgrade''"

definition HeaderNameStrictTransportSecurity :: string where [header_names]:
  "HeaderNameStrictTransportSecurity = ''Strict-Transport-Security''"

definition HeaderNameXContentTypeOptions :: string where [header_names]:
  "HeaderNameXContentTypeOptions = ''X-Content-Type-Options''"

definition HeaderNameXFrameOptions :: string where [header_names]:
  "HeaderNameXFrameOptions = ''X-Frame-Options''"

definition HeaderNameXXSSProtection :: string where [header_names]:
  "HeaderNameXXSSProtection = ''X-XSS-Protection''"

definition HeaderNameReferrerPolicy :: string where [header_names]:
  "HeaderNameReferrerPolicy = ''Referrer-Policy''"

definition HeaderNameContentSecurityPolicy :: string where [header_names]:
  "HeaderNameContentSecurityPolicy = ''Content-Security-Policy''"

definition HeaderNamePermissionsPolicy :: string where [header_names]:
  "HeaderNamePermissionsPolicy = ''Permissions-Policy''"

definition HeaderNameCrossOriginOpenerPolicy :: string where [header_names]:
  "HeaderNameCrossOriginOpenerPolicy = ''Cross-Origin-Opener-Policy''"

definition HeaderNameCrossOriginEmbedPolicy :: string where [header_names]:
  "HeaderNameCrossOriginEmbedPolicy = ''Cross-Origin-Embedder-Policy''"

definition HeaderNameCrossOriginResourcePol :: string where [header_names]:
  "HeaderNameCrossOriginResourcePol = ''Cross-Origin-Resource-Policy''"

definition HeaderNameXDNSPrefetchControl :: string where [header_names]:
  "HeaderNameXDNSPrefetchControl = ''X-DNS-Prefetch-Control''"

definition HeaderNameXDownloadOptions :: string where [header_names]:
  "HeaderNameXDownloadOptions = ''X-Download-Options''"

definition HeaderNameXPermittedCrossDomain :: string where [header_names]:
  "HeaderNameXPermittedCrossDomain = ''X-Permitted-Cross-Domain-Policies''"

definition HeaderNameRetryAfter :: string where [header_names]:
  "HeaderNameRetryAfter = ''Retry-After''"

definition HeaderNameXRateLimitLimit :: string where [header_names]:
  "HeaderNameXRateLimitLimit = ''X-RateLimit-Limit''"

definition HeaderNameXRateLimitRemain :: string where [header_names]:
  "HeaderNameXRateLimitRemain = ''X-RateLimit-Remaining''"

definition HeaderNameXRateLimitReset :: string where [header_names]:
  "HeaderNameXRateLimitReset = ''X-RateLimit-Reset''"

definition HeaderNameLocation :: string where [header_names]:
  "HeaderNameLocation = ''Location''"

definition HeaderNameAllow :: string where [header_names]:
  "HeaderNameAllow = ''Allow''"

definition HeaderNameServer :: string where [header_names]:
  "HeaderNameServer = ''Server''"

definition HeaderNameDate :: string where [header_names]:
  "HeaderNameDate = ''Date''"

definition HeaderNameSecWebSocketKey :: string where [header_names]:
  "HeaderNameSecWebSocketKey = ''Sec-WebSocket-Key''"

definition HeaderNameSecWebSocketVersion :: string where [header_names]:
  "HeaderNameSecWebSocketVersion = ''Sec-WebSocket-Version''"

definition HeaderNameSecWebSocketProtocol :: string where [header_names]:
  "HeaderNameSecWebSocketProtocol = ''Sec-WebSocket-Protocol''"

definition HeaderNameSecWebSocketExtension :: string where [header_names]:
  "HeaderNameSecWebSocketExtension = ''Sec-WebSocket-Extensions''"

definition HeaderNameSecWebSocketAccept :: string where [header_names]:
  "HeaderNameSecWebSocketAccept = ''Sec-WebSocket-Accept''"

definition HeaderNameXPoweredBy :: string where [header_names]:
  "HeaderNameXPoweredBy = ''X-Powered-By''"

definition HeaderNameDNT :: string where [header_names]:
  "HeaderNameDNT = ''DNT''"

definition HeaderNameExpect :: string where [header_names]:
  "HeaderNameExpect = ''Expect''"

definition HeaderNameFrom :: string where [header_names]:
  "HeaderNameFrom = ''From''"

definition HeaderNameRange :: string where [header_names]:
  "HeaderNameRange = ''Range''"

definition HeaderNameWarning :: string where [header_names]:
  "HeaderNameWarning = ''Warning''"

definition CacheStatusHit :: string where [header_names]:
  "CacheStatusHit = ''HIT''"

definition CacheStatusMiss :: string where [header_names]:
  "CacheStatusMiss = ''MISS''"

text \<open>Every header name of the file, in the order of the source.\<close>

definition all_header_names :: "string list" where
  "all_header_names =
    [HeaderNameAuthorization,
     HeaderNameXAPIKey,
     HeaderNameWWWAuthenticate,
     HeaderNameCookie,
     HeaderNameSetCookie,
     HeaderNameContentType,
     HeaderNameContentLength,
     HeaderNameContentDisposition,
     HeaderNameContentEncoding,
     HeaderNameContentLanguage,
     HeaderNameContentLocation,
     HeaderNameContentRange,
     HeaderNameAccept,
     HeaderNameAcceptCharset,
     HeaderNameAcceptEncoding,
     HeaderNameAcceptLanguage,
     HeaderNameAcceptRanges,
     HeaderNameXRequestID,
     HeaderNameXCorrelationID,
     HeaderNameUserAgent,
     HeaderNameXForwardedFor,
     HeaderNameXForwardedProto,
     HeaderNameXForwardedHost,
     HeaderNameXRealIP,
     HeaderNameXClientID,
     HeaderNameHost,
     HeaderNameReferer,
     HeaderNameOrigin,
     HeaderNameAccessControlAllowOrigin,
     HeaderNameAccessControlAllowMethods,
     HeaderNameAccessControlAllowHeaders,
     HeaderNameAccessControlExposeHeaders,
     HeaderNameAccessControlAllowCredentials,
     HeaderNameAccessControlMaxAge,
     HeaderNameAccessControlRequestMethod,
     HeaderNameAccessControlRequestHeaders,
     HeaderNameVary,
     HeaderNameCacheControl,
     HeaderNamePragma,
     HeaderNameExpires,
     HeaderNameETag,
     HeaderNameIfNoneMatch,
     HeaderNameIfMatch,
     HeaderNameIfModSince,
     HeaderNameIfUnmodSince,
     HeaderNameLastModified,
     HeaderNameAge,
     HeaderNameXCacheStatus,
     HeaderNameConnection,
     HeaderNameKeepAlive,
     HeaderNameProxyAuthenticate,
     HeaderNameProxyAuthorization,
     HeaderNameTE,
     HeaderNameTrailer,
     HeaderNameTrailers,
     HeaderNameTransferEncoding,
     HeaderNameUpgrade,
     HeaderNameStrictTransportSecurity,
     HeaderNameXContentTypeOptions,
     HeaderNameXFrameOptions,
     HeaderNameXXSSProtection,
     HeaderNameReferrerPolicy,
     HeaderNameContentSecurityPolicy,
     HeaderNamePermissionsPolicy,
     HeaderNameCrossOriginOpenerPolicy,
     HeaderNameCrossOriginEmbedPolicy,
     HeaderNameCrossOriginResourcePol,
     HeaderNameXDNSPrefetchControl,
     HeaderNameXDownloadOptions,
     HeaderNameXPermittedCrossDomain,
     HeaderNameRetryAfter,
     HeaderNameXRateLimitLimit,
     HeaderNameXRateLimitRemain,
     HeaderNameXRateLimitReset,
     HeaderNameLocation,
     HeaderNameAllow,
     HeaderNameServer,
     HeaderNameDate,
     HeaderNameSecWebSocketKey,
     HeaderNameSecWebSocketVersion,
     HeaderNameSecWebSocketProtocol,
     HeaderNameSecWebSocketExtension,
     HeaderNameSecWebSocketAccept,
     HeaderNameXPoweredBy,
     HeaderNameDNT,
     HeaderNameExpect,
     HeaderNameFrom,
     HeaderNameRange,
     HeaderNameWarning]"

definition canonical_name :: "string \<Rightarrow> bool" where
  "canonical_name n \<longleftrightarrow> CanonicalHeaderKey n = n"

lemma header_names_tokens: "list_all (list_all token_byte) all_header_names"
  by code_simp

text \<open>The names that are not canonical as they are spelled in the source.\<close>

lemma non_canonical_names:
  "filter (\<lambda>n. \<not> canonical_name n) all_header_names =
     [HeaderNameWWWAuthenticate,
      HeaderNameXRequestID,
      HeaderNameXCorrelationID,
      HeaderNameXRealIP,
      HeaderNameXClientID,
      HeaderNameETag,
      HeaderNameXXSSProtection,
      HeaderNameXDNSPrefetchControl,
      HeaderNameXRateLimitLimit,
      HeaderNameXRateLimitRemain,
      HeaderNameXRateLimitReset,
      HeaderNameSecWebSocketKey,
      HeaderNameSecWebSocketVersion,
      HeaderNameSecWebSocketProtocol,
      HeaderNameSecWebSocketExtension,
      HeaderNameSecWebSocketAccept,
      HeaderNameDNT]"
  by code_simp

end
