(* ===== verification/Error_Codes.thy ===== *)
theory Error_Codes imports Header_Names begin

text \<open>
  \<open>error_codes.go\<close>, \<open>error_responses.go\<close> and \<open>response_utils.go\<close>: the error codes, the map from
  HTTP status to error code, the envelope of an error response and \<open>WriteJSON\<close>, which every component
  answers with. A JSON body is the tree the encoder renders.
\<close>

named_theorems error_codes \<open>the error codes and the prepared error responses\<close>

section \<open>Error codes\<close>

definition ErrorCodeBadRequest :: string where [error_codes]:
  "ErrorCodeBadRequest = ''BAD_REQUEST''"

definition ErrorCodeUnauthorized :: string where [error_codes]:
  "ErrorCodeUnauthorized = ''UNAUTHORIZED''"

definition ErrorCodeForbidden :: string where [error_codes]:
  "ErrorCodeForbidden = ''FORBIDDEN''"

definition ErrorCodeNotFound :: string where [error_codes]:
  "ErrorCodeNotFound = ''NOT_FOUND''"

definition ErrorCodeMethodNotAllowed :: string where [error_codes]:
  "ErrorCodeMethodNotAllowed = ''METHOD_NOT_ALLOWED''"

definition ErrorCodeConflict :: string where [error_codes]:
  "ErrorCodeConflict = ''CONFLICT''"

definition ErrorCodeGone :: string where [error_codes]:
  "ErrorCodeGone = ''GONE''"

definition ErrorCodePayloadTooLarge :: string where [error_codes]:
  "ErrorCodePayloadTooLarge = ''PAYLOAD_TOO_LARGE''"

definition ErrorCodeUnprocessableEntity :: string where [error_codes]:
  "ErrorCodeUnprocessableEntity = ''UNPROCESSABLE_ENTITY''"

definition ErrorCodeTooManyRequests :: string where [error_codes]:
  "ErrorCodeTooManyRequests = ''TOO_MANY_REQUESTS''"

definition ErrorCodeInternalServerError :: string where [error_codes]:
  "ErrorCodeInternalServerError = ''INTERNAL_SERVER_ERROR''"

definition ErrorCodeNotImplemented :: string where [error_codes]:
  "ErrorCodeNotImplemented = ''NOT_IMPLEMENTED''"

definition ErrorCodeBadGateway :: string where [error_codes]:
  "ErrorCodeBadGateway = ''BAD_GATEWAY''"

definition ErrorCodeServiceUnavailable :: string where [error_codes]:
  "ErrorCodeServiceUnavailable = ''SERVICE_UNAVAILABLE''"

definition ErrorCodeGatewayTimeout :: string where [error_codes]:
  "ErrorCodeGatewayTimeout = ''GATEWAY_TIMEOUT''"

definition ErrorCodeValidationFailed :: string where [error_codes]:
  "ErrorCodeValidationFailed = ''VALIDATION_FAILED''"

definition ErrorCodeRateLimited :: string where [error_codes]:
  "ErrorCodeRateLimited = ''RATE_LIMITED''"

definition ErrorCodeEndpointNotFound :: string where [error_codes]:
  "ErrorCodeEndpointNotFound = ''ENDPOINT_NOT_FOUND''"

definition ErrorCodeFileNotFound :: string where [error_codes]:
  "ErrorCodeFileNotFound = ''FILE_NOT_FOUND''"

definition ErrorCodeDirectoryListingNotSupported :: string where [error_codes]:
  "ErrorCodeDirectoryListingNotSupported = ''DIRECTORY_LISTING_NOT_SUPPORTED''"

definition ErrorCodePathTraversalDenied :: string where [error_codes]:
  "ErrorCodePathTraversalDenied = ''PATH_TRAVERSAL_DENIED''"

definition ErrorCodeMissingUserID :: string where [error_codes]:
  "ErrorCodeMissingUserID = ''MISSING_USER_ID''"

definition ErrorCodeInvalidUserID :: string where [error_codes]:
  "ErrorCodeInvalidUserID = ''INVALID_USER_ID''"

definition ErrorCodeMissingContentType :: string where [error_codes]:
  "ErrorCodeMissingContentType = ''MISSING_CONTENT_TYPE''"

definition ErrorCodeUnsupportedContentType :: string where [error_codes]:
  "ErrorCodeUnsupportedContentType = ''UNSUPPORTED_CONTENT_TYPE''"

definition ErrorCodeInvalidMultipartForm :: string where [error_codes]:
  "ErrorCodeInvalidMultipartForm = ''INVALID_MULTIPART_FORM''"

definition ErrorCodeNoFileProvided :: string where [error_codes]:
  "ErrorCodeNoFileProvided = ''NO_FILE_PROVIDED''"

definition ErrorCodeFileSaveFailed :: string where [error_codes]:
  "ErrorCodeFileSaveFailed = ''FILE_SAVE_FAILED''"

definition all_error_codes :: "string list" where
  "all_error_codes =
    [ErrorCodeBadRequest,
     ErrorCodeUnauthorized,
     ErrorCodeForbidden,
     ErrorCodeNotFound,
     ErrorCodeMethodNotAllowed,
     ErrorCodeConflict,
     ErrorCodeGone,
     ErrorCodePayloadTooLarge,
     ErrorCodeUnprocessableEntity,
     ErrorCodeTooManyRequests,
     ErrorCodeInternalServerError,
     ErrorCodeNotImplemented,
     ErrorCodeBadGateway,
     ErrorCodeServiceUnavailable,
     ErrorCodeGatewayTimeout,
     ErrorCodeValidationFailed,
     ErrorCodeRateLimited,
     ErrorCodeEndpointNotFound,
     ErrorCodeFileNotFound,
     ErrorCodeDirectoryListingNotSupported,
     ErrorCodePathTraversalDenied,
     ErrorCodeMissingUserID,
     ErrorCodeInvalidUserID,
     ErrorCodeMissingContentType,
     ErrorCodeUnsupportedContentType,
     ErrorCodeInvalidMultipartForm,
     ErrorCodeNoFileProvided,
     ErrorCodeFileSaveFailed]"

definition httpStatusToErrorCode :: "(int, string) gomap" where
  "httpStatusToErrorCode =
    [(400, ErrorCodeBadRequest),
     (401, ErrorCodeUnauthorized),
     (403, ErrorCodeForbidden),
     (404, ErrorCodeNotFound),
     (405, ErrorCodeMethodNotAllowed),
     (409, ErrorCodeConflict),
     (410, ErrorCodeGone),
     (413, ErrorCodePayloadTooLarge),
     (422, ErrorCodeUnprocessableEntity),
     (429, ErrorCodeTooManyRequests),
     (500, ErrorCodeInternalServerError),
     (501, ErrorCodeNotImplemented),
     (502, ErrorCodeBadGateway),
     (503, ErrorCodeServiceUnavailable),
     (504, ErrorCodeGatewayTimeout)]"

definition ErrorCodeFromHTTPStatus :: "int \<Rightarrow> string" where
  "ErrorCodeFromHTTPStatus status =
     (case map_get httpStatusToErrorCode status of
        None \<Rightarrow> ErrorCodeInternalServerError
      | Some code \<Rightarrow> code)"

section \<open>Error responses\<close>

record error_response =
  er_Code :: string
  er_Message :: string
  er_Details :: "json option"

definition ErrorResponseFileNotFound :: error_response where [error_codes]:
  "ErrorResponseFileNotFound = \<lparr>er_Code = ErrorCodeFileNotFound, er_Message = ''File not found'', er_Details = None\<rparr>"

definition ErrorResponseDirectoryListingNotSupported :: error_response where [error_codes]:
  "ErrorResponseDirectoryListingNotSupported = \<lparr>er_Code = ErrorCodeDirectoryListingNotSupported, er_Message = ''Directory listing is not supported'', er_Details = None\<rparr>"

definition ErrorResponsePathTraversalDenied :: error_response where [error_codes]:
  "ErrorResponsePathTraversalDenied = \<lparr>er_Code = ErrorCodePathTraversalDenied, er_Message = ''Path traversal denied'', er_Details = None\<rparr>"

definition ErrorResponseNotFound :: error_response where [error_codes]:
  "ErrorResponseNotFound = \<lparr>er_Code = ErrorCodeNotFound, er_Message = ''Not found'', er_Details = None\<rparr>"

definition ErrorResponseEndpointNotFound :: error_response where [error_codes]:
  "ErrorResponseEndpointNotFound = \<lparr>er_Code = ErrorCodeEndpointNotFound, er_Message = ''Endpoint not found'', er_Details = None\<rparr>"

definition ErrorResponseMethodNotAllowed :: error_response where [error_codes]:
  "ErrorResponseMethodNotAllowed = \<lparr>er_Code = ErrorCodeMethodNotAllowed, er_Message = ''Method not allowed'', er_Details = None\<rparr>"

definition ErrorResponseConflict :: error_response where [error_codes]:
  "ErrorResponseConflict = \<lparr>er_Code = ErrorCodeConflict, er_Message = ''Conflict'', er_Details = None\<rparr>"

definition ErrorResponseGone :: error_response where [error_codes]:
  "ErrorResponseGone = \<lparr>er_Code = ErrorCodeGone, er_Message = ''Gone'', er_Details = None\<rparr>"

definition ErrorResponsePayloadTooLarge :: error_response where [error_codes]:
  "ErrorResponsePayloadTooLarge = \<lparr>er_Code = ErrorCodePayloadTooLarge, er_Message = ''Payload too large'', er_Details = None\<rparr>"

definition ErrorResponseUnprocessableEntity :: error_response where [error_codes]:
  "ErrorResponseUnprocessableEntity = \<lparr>er_Code = ErrorCodeUnprocessableEntity, er_Message = ''Unprocessable entity'', er_Details = None\<rparr>"

definition ErrorResponseTooManyRequests :: error_response where [error_codes]:
  "ErrorResponseTooManyRequests = \<lparr>er_Code = ErrorCodeTooManyRequests, er_Message = ''Too many requests'', er_Details = None\<rparr>"

definition ErrorResponseNotImplemented :: error_response where [error_codes]:
  "ErrorResponseNotImplemented = \<lparr>er_Code = ErrorCodeNotImplemented, er_Message = ''Not implemented'', er_Details = None\<rparr>"

definition ErrorResponseBadGateway :: error_response where [error_codes]:
  "ErrorResponseBadGateway = \<lparr>er_Code = ErrorCodeBadGateway, er_Message = ''Bad gateway'', er_Details = None\<rparr>"

definition ErrorResponseServiceUnavailable :: error_response where [error_codes]:
  "ErrorResponseServiceUnavailable = \<lparr>er_Code = ErrorCodeServiceUnavailable, er_Message = ''Service unavailable'', er_Details = None\<rparr>"

definition ErrorResponseGatewayTimeout :: error_response where [error_codes]:
  "ErrorResponseGatewayTimeout = \<lparr>er_Code = ErrorCodeGatewayTimeout, er_Message = ''Gateway timeout'', er_Details = None\<rparr>"

definition ErrorResponseMissingUserID :: error_response where [error_codes]:
  "ErrorResponseMissingUserID = \<lparr>er_Code = ErrorCodeMissingUserID, er_Message = ''User ID is required'', er_Details = None\<rparr>"

definition ErrorResponseInvalidUserID :: error_response where [error_codes]:
  "ErrorResponseInvalidUserID = \<lparr>er_Code = ErrorCodeInvalidUserID, er_Message = ''Invalid user ID format'', er_Details = None\<rparr>"

definition ErrorResponseValidationFailed :: error_response where [error_codes]:
  "ErrorResponseValidationFailed = \<lparr>er_Code = ErrorCodeValidationFailed, er_Message = ''Validation failed'', er_Details = None\<rparr>"

definition ErrorResponseBadRequest :: error_response where [error_codes]:
  "ErrorResponseBadRequest = \<lparr>er_Code = ErrorCodeBadRequest, er_Message = ''Bad request'', er_Details = None\<rparr>"

definition ErrorResponseUnauthorized :: error_response where [error_codes]:
  "ErrorResponseUnauthorized = \<lparr>er_Code = ErrorCodeUnauthorized, er_Message = ''Unauthorized'', er_Details = None\<rparr>"

definition ErrorResponseForbidden :: error_response where [error_codes]:
  "ErrorResponseForbidden = \<lparr>er_Code = ErrorCodeForbidden, er_Message = ''Access forbidden'', er_Details = None\<rparr>"

definition ErrorResponseInternalServerError :: error_response where [error_codes]:
  "ErrorResponseInternalServerError = \<lparr>er_Code = ErrorCodeInternalServerError, er_Message = ''Internal server error'', er_Details = None\<rparr>"

definition ErrorResponseMissingContentType :: error_response where [error_codes]:
  "ErrorResponseMissingContentType = \<lparr>er_Code = ErrorCodeMissingContentType, er_Message = ''Content-Type header is required'', er_Details = None\<rparr>"

definition ErrorResponseUnsupportedContentType :: error_response where [error_codes]:
  "ErrorResponseUnsupportedContentType = \<lparr>er_Code = ErrorCodeUnsupportedContentType, er_Message = ''Unsupported content type'', er_Details = None\<rparr>"

definition ErrorResponseInvalidMultipartForm :: error_response where [error_codes]:
  "ErrorResponseInvalidMultipartForm = \<lparr>er_Code = ErrorCodeInvalidMultipartForm, er_Message = ''Invalid multipart form'', er_Details = None\<rparr>"

definition ErrorResponseNoFileProvided :: error_response where [error_codes]:
  "ErrorResponseNoFileProvided = \<lparr>er_Code = ErrorCodeNoFileProvided, er_Message = ''No file provided'', er_Details = None\<rparr>"

definition ErrorResponseFileSaveFailed :: error_response where [error_codes]:
  "ErrorResponseFileSaveFailed = \<lparr>er_Code = ErrorCodeFileSaveFailed, er_Message = ''Failed to save file'', er_Details = None\<rparr>"

text \<open>
  The JSON of an error response: all three fields have \<open>omitempty\<close>. A detail that is present is a
  map, which is not empty where the source sets it.
\<close>

definition error_response_json :: "error_response \<Rightarrow> json" where
  "error_response_json e = JObj
     ((if er_Code e = [] then [] else [(''code'', JStr (er_Code e))])
      @ (if er_Message e = [] then [] else [(''message'', JStr (er_Message e))])
      @ (case er_Details e of None \<Rightarrow> [] | Some d \<Rightarrow> [(''details'', d)]))"

section \<open>WriteJSON\<close>

definition ContentTypeJSON :: string where
  "ContentTypeJSON = ''application/json''"

text \<open>
  \<open>WriteJSON\<close> sets the content type, sends the status and writes the encoded value; an encoding or
  write error is only logged. The continuation is what the handler does afterwards.
\<close>

definition WriteJSON :: "int \<Rightarrow> json \<Rightarrow> prog \<Rightarrow> prog" where
  "WriteJSON status data k =
     set_header HeaderNameContentType ContentTypeJSON
       (WriteHeader status
         (Write (Json data)
           (\<lambda>ok. if ok then k else Log (LogEntry 8 ''failed to encode JSON response'' []) k)))"

definition write_error :: "int \<Rightarrow> error_response \<Rightarrow> prog" where
  "write_error status e = WriteJSON status (error_response_json e) Return"

text \<open>
  \<open>errors.go\<close>: the sentinel errors by name, with their texts. \<open>errors.New\<close> makes each a value of its own, so
  \<open>errors.Is\<close> tells them apart; that their texts differ too is a lemma below.
\<close>

definition sentinel_errors :: "(string \<times> string) list" where
  "sentinel_errors =
     [(''ErrBadRequest'', ''bad request''),
      (''ErrUnauthorized'', ''unauthorized''),
      (''ErrNotAuthenticated'', ''not authenticated''),
      (''ErrForbidden'', ''forbidden''),
      (''ErrNotFound'', ''not found''),
      (''ErrMethodNotAllowed'', ''method not allowed''),
      (''ErrConflict'', ''conflict''),
      (''ErrGone'', ''gone''),
      (''ErrUnprocessableEntity'', ''unprocessable entity''),
      (''ErrTooManyRequests'', ''too many requests''),
      (''ErrInternalServer'', ''internal server error''),
      (''ErrBadGateway'', ''bad gateway''),
      (''ErrServiceUnavailable'', ''service unavailable''),
      (''ErrGatewayTimeout'', ''gateway timeout''),
      (''ErrInvalidResponse'', ''invalid response''),
      (''ErrEmptyResponse'', ''empty response''),
      (''ErrUnexpectedResponseStatus'', ''unexpected response status''),
      (''ErrBotDetected'', ''bot detected''),
      (''ErrChallengeBlocked'', ''challenge blocked''),
      (''ErrCaptchaRequired'', ''captcha required''),
      (''ErrAPIError'', ''API error''),
      (''ErrAPIKeyNotSet'', ''api key is not set''),
      (''ErrNilRequestBody'', ''request body is nil''),
      (''ErrTLSCertFileNotSpecified'', ''TLS cert file not specified''),
      (''ErrTLSKeyFileNotSpecified'', ''TLS key file not specified'')]"

section \<open>Lemmas\<close>

lemma sentinel_errors_distinct: "distinct (map fst sentinel_errors)" "distinct (map snd sentinel_errors)"
  by code_simp+

lemma error_codes_distinct: "distinct all_error_codes"
  by code_simp

lemma status_map_ok: "gomap_ok httpStatusToErrorCode"
  by (simp add: gomap_ok_def httpStatusToErrorCode_def)

lemma exec_WriteJSON_fresh:
  assumes "\<not> w_committed w" and "body_allowed status" and "\<not> informational status"
  shows "exec (WriteJSON status data Return) w =
    (w\<lparr>w_header := hdr_set (w_header w) HeaderNameContentType ContentTypeJSON,
       w_status := Some status,
       w_sent := hdr_set (w_header w) HeaderNameContentType ContentTypeJSON,
       w_body := w_body w @ [Json data]\<rparr>, Returned)"
  using assms
  by (simp add: WriteJSON_def do_write_header_def do_write_def implicit_ok_def not_committed Let_def)

lemma exec_WriteJSON_returns: "snd (exec (WriteJSON status data Return) w) = Returned"
  by (simp add: WriteJSON_def Let_def)

end
