(* ===== verification/Go_Url.thy ===== *)
theory Go_Url imports Go_Prelude begin

text \<open>
  Package \<open>net/url\<close>: the URL record and \<open>url.Parse\<close>, as far as the source uses them (the origin
  check of the WebSocket upgrade, the validation of the proxy's upstream and of the client's base
  URL and targets). Percent-decoding, the scheme, the authority with user information and port, the
  query, the fragment and the path follow the library's code; the address inside the brackets of an
  IP literal is taken as it stands (the library validates it). An error is \<open>None\<close>.
\<close>

record url =
  u_Scheme :: string
  u_Opaque :: string
  u_User :: "string option"
  u_Host :: string
  u_Path :: string
  u_RawPath :: string
  u_RawQuery :: string
  u_Fragment :: string

definition empty_url :: url where
  "empty_url = \<lparr>u_Scheme = [], u_Opaque = [], u_User = None, u_Host = [], u_Path = [],
     u_RawPath = [], u_RawQuery = [], u_Fragment = []\<rparr>"

section \<open>Percent encoding\<close>

definition code :: "char \<Rightarrow> nat" where
  "code c = of_char c"

definition is_digit :: "char \<Rightarrow> bool" where
  "is_digit c \<longleftrightarrow> 48 \<le> code c \<and> code c \<le> 57"

definition is_letter :: "char \<Rightarrow> bool" where
  "is_letter c \<longleftrightarrow> 65 \<le> code c \<and> code c \<le> 90 \<or> 97 \<le> code c \<and> code c \<le> 122"

definition unhex :: "char \<Rightarrow> nat option" where
  "unhex c =
     (if is_digit c then Some (code c - 48)
      else if 97 \<le> code c \<and> code c \<le> 102 then Some (code c - 87)
      else if 65 \<le> code c \<and> code c \<le> 70 then Some (code c - 55)
      else None)"

datatype enc_mode = EncPath | EncHost | EncUser | EncFragment

definition host_byte :: "char \<Rightarrow> bool" where
  "host_byte c \<longleftrightarrow> code c \<ge> 128 \<or> is_letter c \<or> is_digit c
     \<or> c \<in> set ''-_.~!$&()*+,;=:[]<>'' \<or> c = CHR 0x27 \<or> c = CHR 0x22"

fun unescape :: "enc_mode \<Rightarrow> string \<Rightarrow> string option" where
  "unescape m [] = Some []"
| "unescape m (c # r) =
     (if c = CHR 0x25
      then (case r of
              h # l # r' \<Rightarrow>
                (case (unhex h, unhex l) of
                   (Some a, Some b) \<Rightarrow>
                     (if m = EncHost \<and> a < 8 \<and> \<not> (h = CHR ''2'' \<and> l = CHR ''5'') then None
                      else map_option (\<lambda>t. char_of (16 * a + b) # t) (unescape m r'))
                 | _ \<Rightarrow> None)
            | _ \<Rightarrow> None)
      else if m = EncHost \<and> \<not> host_byte c then None
      else map_option (\<lambda>t. c # t) (unescape m r))"

definition PathUnescape :: "string \<Rightarrow> string option" where
  "PathUnescape s = unescape EncPath s"

definition hex_digit :: "nat \<Rightarrow> char" where
  "hex_digit n = char_of (if n < 10 then n + 48 else n + 55)"

text \<open>The bytes a path may carry without being escaped.\<close>

definition path_byte :: "char \<Rightarrow> bool" where
  "path_byte c \<longleftrightarrow> is_letter c \<or> is_digit c \<or> c \<in> set ''-_.~$&+,/:;=@''"

fun escape_path :: "string \<Rightarrow> string" where
  "escape_path [] = []"
| "escape_path (c # r) =
     (if path_byte c then c # escape_path r
      else CHR 0x25 # hex_digit (code c div 16) # hex_digit (code c mod 16) # escape_path r)"

section \<open>Parsing\<close>

definition has_ctl :: "string \<Rightarrow> bool" where
  "has_ctl s \<longleftrightarrow> list_ex (\<lambda>c. code c < 32 \<or> code c = 127) s"

text \<open>
  \<open>getScheme\<close>: the bytes before the first colon, when they can be a scheme. \<open>None\<close> is the error
  "missing protocol scheme".
\<close>

definition scheme_byte :: "char \<Rightarrow> bool" where
  "scheme_byte c \<longleftrightarrow> is_letter c \<or> is_digit c \<or> c \<in> set ''+-.''"

definition get_scheme :: "string \<Rightarrow> (string \<times> string) option" where
  "get_scheme s =
     (let pre = takeWhile scheme_byte s; rest = dropWhile scheme_byte s
      in if s \<noteq> [] \<and> hd s = CHR '':'' then None
         else if pre \<noteq> [] \<and> is_letter (hd pre) \<and> rest \<noteq> [] \<and> hd rest = CHR '':''
           then Some (pre, tl rest)
         else Some ([], s))"

definition valid_optional_port :: "string \<Rightarrow> bool" where
  "valid_optional_port p \<longleftrightarrow> p = [] \<or> hd p = CHR '':'' \<and> list_all is_digit (tl p)"

text \<open>The text from the last occurrence of a byte on, including it, and the text before it.\<close>

definition from_last :: "char \<Rightarrow> string \<Rightarrow> string" where
  "from_last c s = (if c \<in> set s then c # rev (takeWhile (\<lambda>x. x \<noteq> c) (rev s)) else [])"

definition before_last :: "char \<Rightarrow> string \<Rightarrow> string" where
  "before_last c s = (if c \<in> set s then rev (tl (dropWhile (\<lambda>x. x \<noteq> c) (rev s))) else s)"

definition parse_host :: "string \<Rightarrow> string option" where
  "parse_host h =
     (if h \<noteq> [] \<and> hd h = CHR ''[''
      then (if CHR '']'' \<in> set h \<and> valid_optional_port (tl (from_last CHR '']'' h))
            then unescape EncHost h else None)
      else if valid_optional_port (from_last CHR '':'' h) then unescape EncHost h
      else None)"

definition userinfo_byte :: "char \<Rightarrow> bool" where
  "userinfo_byte c \<longleftrightarrow> is_letter c \<or> is_digit c \<or> c \<in> set ''-._:~!$&()*+,;=%@'' \<or> c = CHR 0x27"

definition parse_authority :: "string \<Rightarrow> (string option \<times> string) option" where
  "parse_authority a =
     (if CHR ''@'' \<in> set a
      then (case parse_host (tl (from_last CHR ''@'' a)) of
              None \<Rightarrow> None
            | Some h \<Rightarrow>
                (let ui = before_last CHR ''@'' a
                 in if list_all userinfo_byte ui
                    then map_option (\<lambda>u. (Some u, h)) (unescape EncUser ui) else None))
      else map_option (\<lambda>h. (None, h)) (parse_host a))"

definition set_path :: "string \<Rightarrow> url \<Rightarrow> url option" where
  "set_path p u =
     (case unescape EncPath p of
        None \<Rightarrow> None
      | Some q \<Rightarrow> Some (u\<lparr>u_Path := q, u_RawPath := (if escape_path q = p then [] else p)\<rparr>))"

definition split_query :: "string \<Rightarrow> string \<times> string" where
  "split_query rest = (case str_cut CHR ''?'' rest of (a, b, _) \<Rightarrow> (a, b))"

definition parse_no_frag :: "string \<Rightarrow> url option" where
  "parse_no_frag s =
     (if has_ctl s then None
      else if s = ''*'' then Some (empty_url\<lparr>u_Path := ''*''\<rparr>)
      else (case get_scheme s of
        None \<Rightarrow> None
      | Some (sch0, rest0) \<Rightarrow>
          (let sch = to_lower sch0;
               rest = fst (split_query rest0);
               u = empty_url\<lparr>u_Scheme := sch, u_RawQuery := snd (split_query rest0)\<rparr>
           in if \<not> has_prefix rest ''/'' \<and> sch \<noteq> [] then Some (u\<lparr>u_Opaque := rest\<rparr>)
              else if \<not> has_prefix rest ''/'' \<and> CHR '':'' \<in> set (takeWhile (\<lambda>c. c \<noteq> CHR ''/'') rest)
                then None
              else if (sch \<noteq> [] \<or> \<not> has_prefix rest ''///'') \<and> has_prefix rest ''//''
                then (let auth = takeWhile (\<lambda>c. c \<noteq> CHR ''/'') (drop 2 rest);
                          path = dropWhile (\<lambda>c. c \<noteq> CHR ''/'') (drop 2 rest)
                      in case parse_authority auth of
                           None \<Rightarrow> None
                         | Some (usr, host) \<Rightarrow> set_path path (u\<lparr>u_User := usr, u_Host := host\<rparr>))
              else set_path rest u)))"

definition url_parse :: "string \<Rightarrow> url option" where
  "url_parse s =
     (case str_cut CHR ''#'' s of
        (u, frag, _) \<Rightarrow>
          (case parse_no_frag u of
             None \<Rightarrow> None
           | Some r \<Rightarrow>
               (if frag = [] then Some r
                else (case unescape EncFragment frag of
                        None \<Rightarrow> None
                      | Some f \<Rightarrow> Some (r\<lparr>u_Fragment := f\<rparr>)))))"

definition IsAbs :: "url \<Rightarrow> bool" where
  "IsAbs u \<longleftrightarrow> u_Scheme u \<noteq> []"

section \<open>Lemmas\<close>

lemma code_bound: "code c < 256"
  by (simp add: code_def)

lemma unhex_hex_digit: "n < 16 \<Longrightarrow> unhex (hex_digit n) = Some n"
proof -
  assume n: "n < 16"
  then have c: "code (hex_digit n) = (if n < 10 then n + 48 else n + 55)"
    by (simp add: code_def hex_digit_def)
  show ?thesis using n by (simp add: unhex_def is_digit_def c)
qed

lemma path_byte_not_percent: "path_byte c \<Longrightarrow> c \<noteq> CHR 0x25"
  by (auto simp: path_byte_def is_letter_def is_digit_def code_def)

text \<open>Decoding undoes encoding.\<close>

lemma unescape_escape: "unescape EncPath (escape_path s) = Some s"
proof (induction s)
  case Nil
  then show ?case by simp
next
  case (Cons c r)
  have hi: "code c div 16 < 16" and lo: "code c mod 16 < 16"
    using code_bound [of c] by auto
  have "char_of (16 * (code c div 16) + code c mod 16) = c"
    by (simp add: code_def)
  then show ?case
    using Cons.IH by (simp add: unhex_hex_digit [OF hi] unhex_hex_digit [OF lo] path_byte_not_percent)
qed

lemma to_lower_empty [simp]: "to_lower s = [] \<longleftrightarrow> s = []"
  by (simp add: to_lower_def)

end
