(* ===== verification/Request_Utils.thy ===== *)
theory Request_Utils imports Error_Codes Go_Url begin

text \<open>
  \<open>request_utils.go\<close>, \<open>serbewr/middleware/utils.go\<close> and the security switch of \<open>defaults.go\<close>: the
  client address of a request (two copies of the same function, proved equal), content-type tests,
  the request id carried by the context, and the development-mode flag with the origin check of the
  WebSocket upgrade that depends on it.
\<close>

section \<open>The client address\<close>

text \<open>
  \<open>net.SplitHostPort\<close>: the host and the port, \<open>None\<close> for an error. The host of a bracketed address
  is the text between the brackets.
\<close>

definition split_host_port :: "string \<Rightarrow> (string \<times> string) option" where
  "split_host_port s =
     (if CHR '':'' \<notin> set s then None
      else
        let port = tl (from_last CHR '':'' s); i = length s - length port - 1
        in if hd s = CHR ''[''
           then (if CHR '']'' \<notin> set s then None
                 else
                   let e = length (takeWhile (\<lambda>c. c \<noteq> CHR '']'') s)
                   in if Suc e = i \<and> CHR ''['' \<notin> set (tl s) \<and> CHR '']'' \<notin> set (drop (Suc e) s)
                      then Some (take (e - 1) (tl s), port) else None)
           else (if CHR '':'' \<in> set (take i s) \<or> CHR ''['' \<in> set s \<or> CHR '']'' \<in> set s then None
                 else Some (take i s, port)))"

definition remote_ip :: "request \<Rightarrow> string" where
  "remote_ip r =
     (case split_host_port (rq_RemoteAddr r) of
        None \<Rightarrow> rq_RemoteAddr r
      | Some (ip, _) \<Rightarrow> ip)"

text \<open>The library's \<open>GetClientIP\<close>: the first element of \<open>X-Forwarded-For\<close>, by \<open>strings.Split\<close>.\<close>

definition GetClientIP :: "request \<Rightarrow> string" where
  "GetClientIP r =
     (let xff = hdr_get (rq_Header r) HeaderNameXForwardedFor;
          xri = hdr_get (rq_Header r) HeaderNameXRealIP
      in if xff \<noteq> [] then trim_space (hd (split_on CHR '','' xff))
         else if xri \<noteq> [] then trim_space xri
         else remote_ip r)"

text \<open>The middleware package's own \<open>GetClientIP\<close>, by \<open>strings.Cut\<close>.\<close>

definition middleware_GetClientIP :: "request \<Rightarrow> string" where
  "middleware_GetClientIP r =
     (let xff = hdr_get (rq_Header r) HeaderNameXForwardedFor;
          xri = hdr_get (rq_Header r) HeaderNameXRealIP
      in if xff \<noteq> []
         then (case str_cut CHR '','' xff of
                 (before, _, ok) \<Rightarrow> if ok then trim_space before else trim_space xff)
         else if xri \<noteq> [] then trim_space xri
         else remote_ip r)"

text \<open>
  \<open>context_keys.go\<close>: the two keys under which the middlewares keep values in the context of a request. The record
  \<open>request\<close> has a field for each; \<open>context_value\<close> is \<open>Context().Value(key)\<close> and \<open>with_value\<close> is \<open>context.WithValue\<close> of them.
\<close>

definition ContextKeyRequestID :: string where
  "ContextKeyRequestID = ''requestId''"

definition ContextKeyUser :: string where
  "ContextKeyUser = ''user''"

definition context_value :: "string \<Rightarrow> request \<Rightarrow> string option" where
  "context_value key r =
     (if key = ContextKeyRequestID then rq_RequestID r
      else if key = ContextKeyUser then rq_User r else None)"

definition with_value :: "string \<Rightarrow> string \<Rightarrow> request \<Rightarrow> request" where
  "with_value key v r =
     (if key = ContextKeyRequestID then r\<lparr>rq_RequestID := Some v\<rparr>
      else if key = ContextKeyUser then r\<lparr>rq_User := Some v\<rparr> else r)"

lemma context_keys_apart: "ContextKeyRequestID \<noteq> ContextKeyUser"
  by (simp add: ContextKeyRequestID_def ContextKeyUser_def)

lemma context_value_with:
  assumes "key \<in> {ContextKeyRequestID, ContextKeyUser}"
  shows "context_value key' (with_value key v r) = (if key' = key then Some v else context_value key' r)"
  using assms context_keys_apart by (auto simp: context_value_def with_value_def)

definition GetRequestID :: "request \<Rightarrow> string" where
  "GetRequestID r = (case rq_RequestID r of Some i \<Rightarrow> i | None \<Rightarrow> [])"

lemma GetRequestID_value: "GetRequestID r = (case context_value ContextKeyRequestID r of Some i \<Rightarrow> i | None \<Rightarrow> [])"
  by (simp add: GetRequestID_def context_value_def)

lemma split_first_is_cut: "hd (split_on c s) = fst (str_cut c s)"
  by (simp add: hd_split_on fst_str_cut)

section \<open>Content types\<close>

definition ContentTypeXML :: string where
  "ContentTypeXML = ''application/xml''"

definition ContentTypeMultipartFormData :: string where
  "ContentTypeMultipartFormData = ''multipart/form-data''"

definition ContentTypeApplicationFormURLEncoded :: string where
  "ContentTypeApplicationFormURLEncoded = ''application/x-www-form-urlencoded''"

text \<open>The media type of a content type: the text before the parameters, trimmed.\<close>

definition media_type :: "string \<Rightarrow> string" where
  "media_type ct = trim_space (hd (split_on CHR '';'' ct))"

definition IsRequestContentType :: "request \<Rightarrow> string \<Rightarrow> bool" where
  "IsRequestContentType r expected =
     (let ct = hdr_get (rq_Header r) HeaderNameContentType
      in if ct = [] then False else equal_fold (media_type ct) expected)"

definition IsRequestContentTypeJSON :: "request \<Rightarrow> bool" where
  "IsRequestContentTypeJSON r = IsRequestContentType r ContentTypeJSON"

definition IsRequestContentTypeXML :: "request \<Rightarrow> bool" where
  "IsRequestContentTypeXML r = IsRequestContentType r ContentTypeXML"

definition IsRequestContentTypeApplicationFormURLEncoded :: "request \<Rightarrow> bool" where
  "IsRequestContentTypeApplicationFormURLEncoded r =
     IsRequestContentType r ContentTypeApplicationFormURLEncoded"

definition IsRequestContentTypeMultipartFormData :: "request \<Rightarrow> bool" where
  "IsRequestContentTypeMultipartFormData r = IsRequestContentType r ContentTypeMultipartFormData"

section \<open>Development mode and the WebSocket origin check\<close>

text \<open>
  The flag \<open>devMode\<close> is process state, an atomic boolean; the three functions that touch it are
  functions on it.
\<close>

definition FuckSecurity :: "bool \<Rightarrow> bool" where
  "FuckSecurity devMode = True"

definition UnfuckSecurity :: "bool \<Rightarrow> bool" where
  "UnfuckSecurity devMode = False"

definition IsDevMode :: "bool \<Rightarrow> bool" where
  "IsDevMode devMode = devMode"

definition GetDefaultCORSAllowAllOrigins :: "bool \<Rightarrow> bool" where
  "GetDefaultCORSAllowAllOrigins devMode = devMode"

definition GetDefaultWebSocketCheckOrigin :: "bool \<Rightarrow> request \<Rightarrow> bool" where
  "GetDefaultWebSocketCheckOrigin devMode r =
     (if devMode then True
      else
        let origin = hdr_get (rq_Header r) HeaderNameOrigin
        in if origin = [] then True
           else (case url_parse origin of
                   None \<Rightarrow> False
                 | Some u \<Rightarrow> equal_fold (u_Host u) (rq_Host r)))"

definition GetPermissiveWebSocketCheckOrigin :: "request \<Rightarrow> bool" where
  "GetPermissiveWebSocketCheckOrigin r = True"

definition GetDefaultCORSAllowMethods :: string where
  "GetDefaultCORSAllowMethods =
     str_join '', '' [''GET'', ''POST'', ''PUT'', ''PATCH'', ''DELETE'', ''OPTIONS'']"

definition GetDefaultCORSAllowHeaders :: string where
  "GetDefaultCORSAllowHeaders =
     str_join '', '' [HeaderNameAuthorization, HeaderNameContentType, HeaderNameXRequestID]"

text \<open>Without development mode, a browser origin passes the check only if it names the host.\<close>

lemma check_origin_secure:
  assumes "GetDefaultWebSocketCheckOrigin False r" and "hdr_get (rq_Header r) HeaderNameOrigin \<noteq> []"
  obtains u where "url_parse (hdr_get (rq_Header r) HeaderNameOrigin) = Some u"
    and "equal_fold (u_Host u) (rq_Host r)"
  using assms by (auto simp: GetDefaultWebSocketCheckOrigin_def Let_def split: option.splits)

end
