(* ===== verification/Proxy_Request.thy ===== *)
theory Proxy_Request
  imports Header_Names "HOL-Library.Char_ord" "HOL-Library.List_Lexorder"
begin

text \<open>
  \<open>serbewr/prawxxey/request.go\<close>: the request payload of the proxy and its fingerprint, the default
  cache key. SHA-256 is an argument \<open>sha\<close> of the model, a function from byte strings to byte strings:
  nothing below depends on how it computes. What the code feeds to it is \<open>hash_preimage\<close>; two payloads
  with one pre-image have one key whatever the hash function is, and where the hash has no collision
  on two pre-images the keys differ exactly when the pre-images do.
\<close>

section \<open>Definitions\<close>

record request_payload =
  p_Method :: string
  p_URL :: string
  p_Headers :: header
  p_Body :: string
  p_ClientIP :: string
  p_Proto :: string

definition newline :: string where
  "newline = [CHR 0x0A]"

definition header_values :: "header \<Rightarrow> string \<Rightarrow> string list" where
  "header_values h k = (case map_get h k of Some vs \<Rightarrow> vs | None \<Rightarrow> [])"

text \<open>The bytes written for one header: its name and every value, each on a line of its own.\<close>

definition header_lines :: "header \<Rightarrow> string \<Rightarrow> string" where
  "header_lines h k = newline @ k @ concat (map (\<lambda>v. newline @ v) (header_values h k))"

definition hashed_keys :: "string list \<Rightarrow> header \<Rightarrow> string list" where
  "hashed_keys excl h = sort (filter (\<lambda>k. k \<notin> set excl) (map fst h))"

definition hash_preimage :: "string list \<Rightarrow> request_payload \<Rightarrow> string" where
  "hash_preimage excl p =
     p_Method p @ newline @ p_URL p
     @ (if p_Headers p \<noteq> []
        then concat (map (header_lines (p_Headers p)) (hashed_keys excl (p_Headers p))) else [])
     @ (if p_Body p \<noteq> [] then newline @ p_Body p else [])"

text \<open>\<open>hex.EncodeToString\<close>.\<close>

definition hex_nibble :: "nat \<Rightarrow> char" where
  "hex_nibble n = ''0123456789abcdef'' ! n"

definition hex_encode :: "string \<Rightarrow> string" where
  "hex_encode s = concat (map (\<lambda>c. [hex_nibble (of_char c div 16), hex_nibble (of_char c mod 16)]) s)"

definition HashExcluding :: "(string \<Rightarrow> string) \<Rightarrow> string list \<Rightarrow> request_payload \<Rightarrow> string" where
  "HashExcluding sha excl p = hex_encode (sha (hash_preimage excl p))"

definition Hash :: "(string \<Rightarrow> string) \<Rightarrow> request_payload \<Rightarrow> string" where
  "Hash sha p = HashExcluding sha [] p"

section \<open>The order of the header map does not matter\<close>

lemma header_values_perm: "gomap_ok h \<Longrightarrow> mset h = mset h' \<Longrightarrow> header_values h = header_values h'"
  by (rule ext) (simp add: header_values_def map_get_perm)

lemma hashed_keys_perm:
  assumes "mset h = mset h'"
  shows "hashed_keys excl h = hashed_keys excl h'"
proof -
  have "mset (filter (\<lambda>k. k \<notin> set excl) (map fst h)) = mset (filter (\<lambda>k. k \<notin> set excl) (map fst h'))"
    by (simp only: mset_filter mset_map assms)
  then show ?thesis
    unfolding hashed_keys_def by (intro properties_for_sort) simp_all
qed

lemma hash_preimage_perm:
  assumes "gomap_ok (p_Headers p)" and "mset (p_Headers p) = mset h"
  shows "hash_preimage excl (p\<lparr>p_Headers := h\<rparr>) = hash_preimage excl p"
proof -
  have "header_lines h = header_lines (p_Headers p)"
    by (rule ext) (simp add: header_lines_def header_values_perm [OF assms])
  moreover have "h = [] \<longleftrightarrow> p_Headers p = []" using assms(2) by (metis mset_zero_iff)
  ultimately show ?thesis
    by (simp add: hash_preimage_def hashed_keys_perm [OF assms(2)])
qed

section \<open>What the pre-image determines\<close>

lemma hash_preimage_shape:
  "\<exists>rest. hash_preimage excl p = p_Method p @ newline @ p_URL p @ rest
      \<and> (rest = [] \<or> hd rest = CHR 0x0A)"
proof -
  let ?hs = "if p_Headers p \<noteq> []
        then concat (map (header_lines (p_Headers p)) (hashed_keys excl (p_Headers p))) else []"
  have "?hs = [] \<or> hd ?hs = CHR 0x0A"
    by (cases "hashed_keys excl (p_Headers p)") (auto simp: header_lines_def newline_def)
  then show ?thesis
    by (intro exI [of _ "?hs @ (if p_Body p \<noteq> [] then newline @ p_Body p else [])"])
      (auto simp: hash_preimage_def newline_def hd_append)
qed

lemma append_sep_inject:
  "c \<notin> set a \<Longrightarrow> c \<notin> set b \<Longrightarrow> a @ c # r = b @ c # s \<Longrightarrow> a = b \<and> r = s"
proof (induction a arbitrary: b)
  case Nil
  then show ?case by (cases b) auto
next
  case (Cons x a)
  then show ?case by (cases b) auto
qed

lemma first_line_inject:
  assumes "c \<notin> set a" and "c \<notin> set b"
    and "r = [] \<or> hd r = c" and "s = [] \<or> hd s = c" and "a @ r = b @ s"
  shows "a = b \<and> r = s"
proof -
  have tw: "takeWhile (\<lambda>x. x \<noteq> c) (t @ u) = t" if "c \<notin> set t" "u = [] \<or> hd u = c" for t u
  proof -
    have "takeWhile (\<lambda>x. x \<noteq> c) (t @ u) = t @ takeWhile (\<lambda>x. x \<noteq> c) u"
      using that(1) by (intro takeWhile_append2) auto
    then show ?thesis using that(2) by (cases u) auto
  qed
  from tw [OF assms(1,3)] tw [OF assms(2,4)] have "a = b" using assms(5) by metis
  then show ?thesis using assms(5) by simp
qed

text \<open>A URL and a method are single lines, so the pre-image determines both.\<close>

lemma hash_preimage_method_url:
  assumes "hash_preimage excl p = hash_preimage excl' q"
    and "CHR 0x0A \<notin> set (p_Method p)" and "CHR 0x0A \<notin> set (p_Method q)"
    and "CHR 0x0A \<notin> set (p_URL p)" and "CHR 0x0A \<notin> set (p_URL q)"
  shows "p_Method p = p_Method q \<and> p_URL p = p_URL q"
proof -
  obtain r s where r: "hash_preimage excl p = p_Method p @ newline @ p_URL p @ r" "r = [] \<or> hd r = CHR 0x0A"
    and s: "hash_preimage excl' q = p_Method q @ newline @ p_URL q @ s" "s = [] \<or> hd s = CHR 0x0A"
    using hash_preimage_shape by meson
  then have "p_Method p @ CHR 0x0A # (p_URL p @ r) = p_Method q @ CHR 0x0A # (p_URL q @ s)"
    using assms(1) by (simp add: newline_def)
  from append_sep_inject [OF assms(2,3) this]
  have m: "p_Method p = p_Method q" and u: "p_URL p @ r = p_URL q @ s" by simp_all
  from first_line_inject [OF assms(4,5) r(2) s(2) u] m show ?thesis by simp
qed

text \<open>Headers whose key is excluded are not written.\<close>

lemma hash_preimage_excluded:
  assumes "filter (\<lambda>(k, _). k \<notin> set excl) h = filter (\<lambda>(k, _). k \<notin> set excl) (p_Headers p)"
    and "gomap_ok h" and "gomap_ok (p_Headers p)"
  shows "hash_preimage excl (p\<lparr>p_Headers := h\<rparr>) = hash_preimage excl p"
proof -
  have k: "filter (\<lambda>k. k \<notin> set excl) (map fst g) = map fst (filter (\<lambda>(k, _). k \<notin> set excl) g)"
    for g :: header
    by (induction g) auto
  then have keys: "hashed_keys excl h = hashed_keys excl (p_Headers p)"
    using assms(1) by (simp add: hashed_keys_def)
  have "header_lines h k = header_lines (p_Headers p) k" if "k \<in> set (hashed_keys excl h)" for k
  proof -
    have nk: "k \<notin> set excl" using that by (simp add: hashed_keys_def)
    have "map_get g k = map_of (filter (\<lambda>(k, _). k \<notin> set excl) g) k" for g :: header
      using nk by (induction g) (auto simp: map_get_def)
    then show ?thesis using assms(1) by (simp add: header_lines_def header_values_def)
  qed
  then have "map (header_lines h) (hashed_keys excl h)
      = map (header_lines (p_Headers p)) (hashed_keys excl (p_Headers p))"
    unfolding keys [symmetric] by simp
  moreover have "hashed_keys excl g = [] \<Longrightarrow> concat (map (header_lines g) (hashed_keys excl g)) = []" for g
    by simp
  moreover have "h = [] \<Longrightarrow> hashed_keys excl (p_Headers p) = []"
    unfolding keys [symmetric] by (simp add: hashed_keys_def)
  moreover have "p_Headers p = [] \<Longrightarrow> hashed_keys excl h = []"
    unfolding keys by (simp add: hashed_keys_def)
  ultimately show ?thesis by (auto simp: hash_preimage_def)
qed

end
