(* ===== verification/Go_Net.thy ===== *)
theory Go_Net imports Go_Http begin

text \<open>
  What the proxy and the HTTP client both use of the standard library on the client side of HTTP: error values, the
  body of a response and how much of it is read. Both strip the errors of the library of the URLs they carry; the
  locale \<open>url_stripper\<close> says what such a loop does, and each of the two is an instance of it.
\<close>

section \<open>Errors\<close>

text \<open>
  Error values as the code inspects them: an error with a text, an error wrapping another, and a
  \<open>*url.Error\<close>, whose text names the URL and whose field \<open>Err\<close> may be nil.
\<close>

datatype go_error =
    PlainError string
  | WrapError string go_error
  | UrlError string "go_error option"

text \<open>\<open>errors.As(err, &urlError)\<close>: the first \<open>*url.Error\<close> of the chain, given as its field \<open>Err\<close>.\<close>

fun as_url_error :: "go_error \<Rightarrow> go_error option option" where
  "as_url_error (PlainError _) = None"
| "as_url_error (WrapError _ e) = as_url_error e"
| "as_url_error (UrlError _ inner) = Some inner"

lemma as_url_error_size: "as_url_error e = Some (Some e') \<Longrightarrow> size e' < size e"
  by (induction e rule: as_url_error.induct) auto

text \<open>The URLs an error's text names: those of its \<open>*url.Error\<close> links; and the error at its bottom.\<close>

fun error_urls :: "go_error \<Rightarrow> string list" where
  "error_urls (PlainError _) = []"
| "error_urls (WrapError _ e) = error_urls e"
| "error_urls (UrlError u None) = [u]"
| "error_urls (UrlError u (Some e)) = u # error_urls e"

fun bottom :: "go_error \<Rightarrow> go_error" where
  "bottom (PlainError text) = PlainError text"
| "bottom (WrapError _ e) = bottom e"
| "bottom (UrlError u None) = UrlError u None"
| "bottom (UrlError u (Some e)) = bottom e"

definition nil_url_error :: "go_error \<Rightarrow> bool" where
  "nil_url_error e \<longleftrightarrow> (case bottom e of UrlError _ _ \<Rightarrow> True | _ \<Rightarrow> False)"

lemma no_url_error: "as_url_error e = None \<Longrightarrow> error_urls e = []"
  by (induction e rule: as_url_error.induct) auto

lemma as_url_error_nil: "as_url_error e = Some None \<Longrightarrow> nil_url_error e"
  unfolding nil_url_error_def by (induction e rule: as_url_error.induct) auto

lemma as_url_error_bottom: "as_url_error e = Some (Some e') \<Longrightarrow> bottom e' = bottom e"
  by (induction e rule: as_url_error.induct) auto

section \<open>Errors without URLs\<close>

locale url_stripper =
  fixes strip :: "go_error \<Rightarrow> go_error"
  assumes strip_unfold: "strip e = (case as_url_error e of Some (Some inner) \<Rightarrow> strip inner | _ \<Rightarrow> e)"
begin

lemma strip_ends: "as_url_error (strip e) \<in> {None, Some None} \<and> bottom (strip e) = bottom e"
proof (induction "size e" arbitrary: e rule: less_induct)
  case less
  show ?case
  proof (cases "\<exists>inner. as_url_error e = Some (Some inner)")
    case True
    then obtain inner where i: "as_url_error e = Some (Some inner)" by blast
    with less as_url_error_size as_url_error_bottom [OF i] show ?thesis by (simp add: strip_unfold [of e])
  next
    case False
    then show ?thesis by (cases "as_url_error e") (auto simp: strip_unfold [of e])
  qed
qed

lemma strip_bottom: "bottom (strip e) = bottom e"
  using strip_ends by blast

lemma strip_urls: "\<not> nil_url_error e \<Longrightarrow> error_urls (strip e) = []"
  using strip_ends [of e] as_url_error_nil [of "strip e"] no_url_error [of "strip e"] by (auto simp: nil_url_error_def)

end

section \<open>Responses\<close>

text \<open>A response body: the bytes it delivers, and whether reading then fails instead of ending.\<close>

record http_response =
  hr_StatusCode :: int
  hr_Header :: header
  hr_Data :: string
  hr_Fails :: bool

text \<open>
  \<open>io.ReadAll(io.LimitReader(body, n))\<close>: at most \<open>n\<close> bytes, nothing when \<open>n\<close> is not positive, and the
  error of the body only if it comes before the limit is reached.
\<close>

definition read_limited :: "int \<Rightarrow> http_response \<Rightarrow> string option" where
  "read_limited n resp =
     (if n \<le> 0 then Some []
      else if hr_Fails resp \<and> int (length (hr_Data resp)) < n then None
      else Some (take (nat n) (hr_Data resp)))"

end
