(* ===== verification/Go_Json.thy ===== *)
theory Go_Json imports Go_Http begin

text \<open>
  What the source uses of \<open>encoding/base64\<close> (the standard alphabet with padding) and the part of
  \<open>encoding/json\<close> that is visible in the tree of the JSON text: a string is written as valid UTF-8,
  every byte that is not part of a valid encoding becoming the replacement character; a byte slice
  is written in base64. The lemma \<open>b64_roundtrip\<close> is that decoding undoes encoding.
\<close>

section \<open>Base64\<close>

text \<open>Six bits, the most significant first.\<close>

datatype sextet = Sx bool bool bool bool bool bool

definition b64_alphabet :: string where
  "b64_alphabet = ''ABCDEFGHIJKLMNOPQRSTUVWXYZabcdefghijklmnopqrstuvwxyz0123456789+/''"

definition all_sextets :: "sextet list" where
  "all_sextets =
     [Sx a b c d e f. a \<leftarrow> [False, True], b \<leftarrow> [False, True], c \<leftarrow> [False, True],
        d \<leftarrow> [False, True], e \<leftarrow> [False, True], f \<leftarrow> [False, True]]"

definition b64_table :: "(sextet \<times> char) list" where
  "b64_table = zip all_sextets b64_alphabet"

definition b64_char :: "sextet \<Rightarrow> char" where
  "b64_char s = (case map_of b64_table s of Some c \<Rightarrow> c | None \<Rightarrow> CHR ''='')"

definition b64_val :: "char \<Rightarrow> sextet option" where
  "b64_val c = map_of (map (\<lambda>(s, c). (c, s)) b64_table) c"

text \<open>Three bytes as four sextets, and back. A byte is \<open>Char b0 ... b7\<close>, the lowest bit first.\<close>

fun sextets3 :: "char \<Rightarrow> char \<Rightarrow> char \<Rightarrow> sextet \<times> sextet \<times> sextet \<times> sextet" where
  "sextets3 (Char a0 a1 a2 a3 a4 a5 a6 a7) (Char b0 b1 b2 b3 b4 b5 b6 b7) (Char c0 c1 c2 c3 c4 c5 c6 c7) =
     (Sx a7 a6 a5 a4 a3 a2, Sx a1 a0 b7 b6 b5 b4, Sx b3 b2 b1 b0 c7 c6, Sx c5 c4 c3 c2 c1 c0)"

fun bytes3 :: "sextet \<Rightarrow> sextet \<Rightarrow> sextet \<Rightarrow> sextet \<Rightarrow> char \<times> char \<times> char" where
  "bytes3 (Sx a7 a6 a5 a4 a3 a2) (Sx a1 a0 b7 b6 b5 b4) (Sx b3 b2 b1 b0 c7 c6) (Sx c5 c4 c3 c2 c1 c0) =
     (Char a0 a1 a2 a3 a4 a5 a6 a7, Char b0 b1 b2 b3 b4 b5 b6 b7, Char c0 c1 c2 c3 c4 c5 c6 c7)"

definition zero_byte :: char where
  "zero_byte = Char False False False False False False False False"

fun b64_encode :: "string \<Rightarrow> string" where
  "b64_encode (a # b # c # r) =
     (case sextets3 a b c of (w, x, y, z) \<Rightarrow>
        b64_char w # b64_char x # b64_char y # b64_char z # b64_encode r)"
| "b64_encode [a, b] =
     (case sextets3 a b zero_byte of (w, x, y, z) \<Rightarrow> [b64_char w, b64_char x, b64_char y, CHR ''=''])"
| "b64_encode [a] =
     (case sextets3 a zero_byte zero_byte of (w, x, y, z) \<Rightarrow> [b64_char w, b64_char x, CHR ''='', CHR ''=''])"
| "b64_encode [] = []"

definition zero_sextet :: sextet where
  "zero_sextet = Sx False False False False False False"

fun b64_groups :: "string \<Rightarrow> string option" where
  "b64_groups [] = Some []"
| "b64_groups (a # b # c # d # r) =
     (case (b64_val a, b64_val b) of
        (Some w, Some x) \<Rightarrow>
          (if d = CHR ''=''
           then (if r \<noteq> [] then None
                 else if c = CHR ''=''
                   then (case bytes3 w x zero_sextet zero_sextet of (p, _, _) \<Rightarrow> Some [p])
                 else (case b64_val c of
                         None \<Rightarrow> None
                       | Some y \<Rightarrow> (case bytes3 w x y zero_sextet of (p, q, _) \<Rightarrow> Some [p, q])))
           else (case (b64_val c, b64_val d) of
                   (Some y, Some z) \<Rightarrow>
                     (case bytes3 w x y z of
                        (p, q, s) \<Rightarrow> map_option (\<lambda>t. p # q # s # t) (b64_groups r))
                 | _ \<Rightarrow> None))
      | _ \<Rightarrow> None)"
| "b64_groups _ = None"

text \<open>\<open>StdEncoding.DecodeString\<close>: line breaks are ignored.\<close>

definition b64_decode :: "string \<Rightarrow> string option" where
  "b64_decode s = b64_groups (filter (\<lambda>c. c \<noteq> CHR 0x0A \<and> c \<noteq> CHR 0x0D) s)"

lemma all_sextets_complete: "s \<in> set all_sextets"
proof (cases s)
  case (Sx a b c d e f)
  then show ?thesis by (cases a; cases b; cases c; cases d; cases e; cases f) (simp_all add: all_sextets_def)
qed

lemma b64_val_table: "list_all (\<lambda>s. b64_val (b64_char s) = Some s \<and> b64_char s \<noteq> CHR ''=''
    \<and> b64_char s \<noteq> CHR 0x0A \<and> b64_char s \<noteq> CHR 0x0D) all_sextets"
  by code_simp

lemma b64_val_char [simp]:
  "b64_val (b64_char s) = Some s" "b64_char s \<noteq> CHR ''=''" "CHR ''='' \<noteq> b64_char s"
  "b64_char s \<noteq> CHR 0x0A" "b64_char s \<noteq> CHR 0x0D"
  using b64_val_table all_sextets_complete [of s] by (auto simp: list_all_iff)

lemma b64_encode_no_breaks: "list_all (\<lambda>c. c \<noteq> CHR 0x0A \<and> c \<noteq> CHR 0x0D) (b64_encode s)"
  by (induction s rule: b64_encode.induct) (simp_all split: prod.split)

lemma b64_groups_encode: "b64_groups (b64_encode s) = Some s"
proof (induction s rule: b64_encode.induct)
  case (1 a b c r)
  then show ?case by (cases a; cases b; cases c) simp
next
  case (2 a b)
  then show ?case by (cases a; cases b) (simp add: zero_byte_def zero_sextet_def)
next
  case (3 a)
  then show ?case by (cases a) (simp add: zero_byte_def zero_sextet_def)
next
  case 4
  then show ?case by simp
qed

lemma b64_roundtrip: "b64_decode (b64_encode s) = Some s"
proof -
  have "filter (\<lambda>c. c \<noteq> CHR 0x0A \<and> c \<noteq> CHR 0x0D) (b64_encode s) = b64_encode s"
    using b64_encode_no_breaks [of s] by (intro filter_True) (simp add: list_all_iff)
  then show ?thesis by (simp add: b64_decode_def b64_groups_encode)
qed

section \<open>Strings in JSON\<close>

definition byte_in :: "nat \<Rightarrow> nat \<Rightarrow> char \<Rightarrow> bool" where
  "byte_in lo hi c \<longleftrightarrow> lo \<le> of_char c \<and> of_char c \<le> hi"

definition is_cont :: "char \<Rightarrow> bool" where
  "is_cont c \<longleftrightarrow> byte_in 0x80 0xBF c"

text \<open>The length of the valid UTF-8 encoding at the start of the text, 0 if there is none.\<close>

fun utf8_len :: "string \<Rightarrow> nat" where
  "utf8_len [] = 0"
| "utf8_len (a # r) =
     (if byte_in 0 0x7F a then 1
      else case r of
        b # s \<Rightarrow>
          if byte_in 0xC2 0xDF a \<and> is_cont b then 2
          else (case s of
            c # t \<Rightarrow>
              if is_cont c \<and>
                 (a = CHR 0xE0 \<and> byte_in 0xA0 0xBF b \<or> byte_in 0xE1 0xEC a \<and> is_cont b
                  \<or> a = CHR 0xED \<and> byte_in 0x80 0x9F b \<or> byte_in 0xEE 0xEF a \<and> is_cont b) then 3
              else (case t of
                d # _ \<Rightarrow>
                  if is_cont c \<and> is_cont d \<and>
                     (a = CHR 0xF0 \<and> byte_in 0x90 0xBF b \<or> byte_in 0xF1 0xF3 a \<and> is_cont b
                      \<or> a = CHR 0xF4 \<and> byte_in 0x80 0x8F b) then 4 else 0
              | [] \<Rightarrow> 0)
          | [] \<Rightarrow> 0)
      | [] \<Rightarrow> 0)"

definition replacement_char :: string where
  "replacement_char = [CHR 0xEF, CHR 0xBF, CHR 0xBD]"

function to_valid_utf8 :: "string \<Rightarrow> string" where
  "to_valid_utf8 s =
     (if s = [] then []
      else if utf8_len s = 0 then replacement_char @ to_valid_utf8 (tl s)
      else take (utf8_len s) s @ to_valid_utf8 (drop (utf8_len s) s))"
  by pat_completeness auto
termination
  by (relation "measure length") auto

declare to_valid_utf8.simps [simp del]

definition valid_utf8 :: "string \<Rightarrow> bool" where
  "valid_utf8 s \<longleftrightarrow> to_valid_utf8 s = s"

definition ascii :: "string \<Rightarrow> bool" where
  "ascii s \<longleftrightarrow> list_all (byte_in 0 0x7F) s"

lemma valid_utf8_ascii: "ascii s \<Longrightarrow> valid_utf8 s"
proof (induction s)
  case Nil
  then show ?case by (simp add: valid_utf8_def to_valid_utf8.simps)
next
  case (Cons a s)
  then have "utf8_len (a # s) = 1" and "valid_utf8 s" by (simp_all add: ascii_def)
  then show ?case by (simp add: valid_utf8_def to_valid_utf8.simps [of "a # s"])
qed

text \<open>A string as the JSON encoder writes it.\<close>

definition json_string :: "string \<Rightarrow> json" where
  "json_string s = JStr (to_valid_utf8 s)"

text \<open>
  The bytes a cache or a peer stores: the tree of a JSON text, or a text that is not JSON.
\<close>

datatype json_text = JsonText json | NotJson

text \<open>The value of a field of an object; the decoder lets the last of several fields with one name win.\<close>

definition json_field :: "(string \<times> json) list \<Rightarrow> string \<Rightarrow> json option" where
  "json_field fs k = map_of (rev fs) k"

end
