(* ===== verification/Cache_Interface.thy ===== *)
theory Cache_Interface imports Go_Json begin

text \<open>
  The interface \<open>cache.Cache\<close> of \<open>common-go\<close> as the proxy uses it: \<open>Get\<close> and \<open>Set\<close> on a state of any
  type, and the locale \<open>cache_store\<close>, the contract a provider promises. What a client may observe
  of a store is its \<open>view\<close>: the value a \<open>Get\<close> would return now, per key. A store may forget (evict or
  expire) any key, but it never returns a value that was not set under that key.
\<close>

datatype cache_error = CacheMiss | CacheFailure

record 's cache_ops =
  c_Get :: "'s \<Rightarrow> string \<Rightarrow> 's \<times> (cache_error + json_text)"
  c_Set :: "'s \<Rightarrow> string \<Rightarrow> json_text \<Rightarrow> int \<Rightarrow> 's \<times> cache_error option"

locale cache_store =
  fixes ops :: "'s cache_ops"
    and view :: "'s \<Rightarrow> string \<Rightarrow> json_text option"
    and inv :: "'s \<Rightarrow> bool"
  assumes get_inv: "inv s \<Longrightarrow> inv (fst (c_Get ops s k))"
    and get_view: "inv s \<Longrightarrow> view (fst (c_Get ops s k)) = view s"
    and get_hit: "inv s \<Longrightarrow> view s k = Some v \<Longrightarrow> snd (c_Get ops s k) = Inr v"
    and get_miss: "inv s \<Longrightarrow> view s k = None \<Longrightarrow> snd (c_Get ops s k) = Inl CacheMiss"
    and set_inv: "inv s \<Longrightarrow> inv (fst (c_Set ops s k v ttl))"
    and set_same: "inv s \<Longrightarrow> 0 \<le> ttl \<Longrightarrow> view (fst (c_Set ops s k v ttl)) k = Some v"
    and set_view: "inv s \<Longrightarrow> view (fst (c_Set ops s k v ttl)) k' = Some w
        \<Longrightarrow> (k' = k \<and> w = v) \<or> view s k' = Some w"
begin

text \<open>What holds of every value in view is kept by both operations.\<close>

definition all_view :: "(string \<Rightarrow> json_text \<Rightarrow> bool) \<Rightarrow> 's \<Rightarrow> bool" where
  "all_view P s \<longleftrightarrow> (\<forall>k v. view s k = Some v \<longrightarrow> P k v)"

lemma all_view_get: "inv s \<Longrightarrow> all_view P s \<Longrightarrow> all_view P (fst (c_Get ops s k))"
  by (simp add: all_view_def get_view)

lemma all_view_set: "inv s \<Longrightarrow> all_view P s \<Longrightarrow> P k v \<Longrightarrow> all_view P (fst (c_Set ops s k v ttl))"
  unfolding all_view_def using set_view by blast

lemma get_result: "inv s \<Longrightarrow> snd (c_Get ops s k) =
    (case view s k of Some v \<Rightarrow> Inr v | None \<Rightarrow> Inl CacheMiss)"
  by (simp add: get_hit get_miss split: option.splits)

end

end
