(* ===== verification/Proxy_Forward.thy ===== *)
theory Proxy_Forward imports Proxy_Request Error_Codes Go_Url Go_Net Cache_Interface begin

text \<open>
  \<open>serbewr/prawxxey/forward.go\<close>: forwarding a request to an upstream server, with an optional
  response cache. The upstream server is the function \<open>hc_Do\<close> of the HTTP client, from the request
  built to a response or an error; the cache is a pair of operations on a state of any type, as the
  Go interface \<open>cache.Cache\<close> is; SHA-256 is the argument \<open>sha\<close>. \<open>int64\<close> values are integers with the
  wrap-around of the one addition the code makes written out. Log lines are not modelled here.
\<close>

section \<open>Limits and errors\<close>

definition max_int64 :: int where
  "max_int64 = 2 ^ 63 - 1"

definition wrap64 :: "int \<Rightarrow> int" where
  "wrap64 x = (x + 2 ^ 63) mod 2 ^ 64 - 2 ^ 63"

definition defaultMaxResponseBodySize :: int where
  "defaultMaxResponseBodySize = 104857600"

text \<open>Durations are in nanoseconds.\<close>

definition defaultCacheTTL :: int where
  "defaultCacheTTL = 300000000000"

datatype proxy_error =
    ErrNilContext
  | ErrNilHTTPClient
  | ErrNilRequestPayload
  | ErrInvalidUpstreamURL
  | ErrInvalidResponseLimit
  | ErrResponseBodyTooLarge
  | ErrCreateRequest
  | ErrReadBody
  | ErrUpstream go_error

function sanitizeUpstreamError :: "go_error \<Rightarrow> go_error" where
  "sanitizeUpstreamError err =
     (case as_url_error err of
        Some (Some inner) \<Rightarrow> sanitizeUpstreamError inner
      | _ \<Rightarrow> err)"
  by pat_completeness auto
termination
  by (relation "measure size") (auto dest: as_url_error_size)

declare sanitizeUpstreamError.simps [simp del]

interpretation upstream_errors: url_stripper sanitizeUpstreamError
  by unfold_locales (rule sanitizeUpstreamError.simps)

section \<open>The client, the request sent and the configuration\<close>

record upstream_request =
  ur_Method :: string
  ur_URL :: url
  ur_Header :: header
  ur_Body :: string
  ur_ContentLength :: int

record http_client =
  hc_Jar :: bool
  hc_Do :: "upstream_request \<Rightarrow> go_error + http_response"

record response_result =
  rr_StatusCode :: int
  rr_Headers :: header
  rr_Body :: string

record 's forward_config =
  fc_HTTPClient :: "http_client option"
  fc_Cache :: "'s cache_ops option"
  fc_CacheTTL :: int
  fc_CacheKeyFn :: "(request_payload \<Rightarrow> string) option"
  fc_CacheKeyExcludeHeaders :: "string list"
  fc_MaxResponseBodySize :: int

definition responseBodyLimit :: "'s forward_config \<Rightarrow> int" where
  "responseBodyLimit cfg =
     (if fc_MaxResponseBodySize cfg > 0 then fc_MaxResponseBodySize cfg
      else defaultMaxResponseBodySize)"

section \<open>Building the upstream request\<close>

definition hopByHopHeaders :: "string list" where
  "hopByHopHeaders =
     [HeaderNameConnection, HeaderNameKeepAlive, HeaderNameProxyAuthenticate,
      HeaderNameProxyAuthorization, HeaderNameTE, HeaderNameTrailer, HeaderNameTrailers,
      HeaderNameTransferEncoding, HeaderNameUpgrade]"

definition connectionHeaderNames :: "header \<Rightarrow> string list" where
  "connectionHeaderNames headers =
     [name. (key, vals) \<leftarrow> headers, equal_fold key HeaderNameConnection,
            value \<leftarrow> vals, token \<leftarrow> split_on CHR '','' value,
            name \<leftarrow> [CanonicalHeaderKey (trim_space token)], name \<noteq> []]"

definition add_values :: "string \<Rightarrow> string list \<Rightarrow> header \<Rightarrow> header" where
  "add_values key vals h = foldl (\<lambda>g v. hdr_add g key v) h vals"

fun copy_headers :: "string list \<Rightarrow> header \<Rightarrow> header \<Rightarrow> header" where
  "copy_headers conn [] h = h"
| "copy_headers conn ((key, vals) # rest) h =
     (if CanonicalHeaderKey key \<in> set hopByHopHeaders then copy_headers conn rest h
      else if CanonicalHeaderKey key \<in> set conn then copy_headers conn rest h
      else copy_headers conn rest (add_values key vals h))"

definition setUpstreamHeaders :: "header \<Rightarrow> request_payload \<Rightarrow> header" where
  "setUpstreamHeaders h payload =
     (let h1 = copy_headers (connectionHeaderNames (p_Headers payload)) (p_Headers payload) h;
          h2 = (if p_ClientIP payload \<noteq> []
                then hdr_set (hdr_set h1 HeaderNameXForwardedFor (p_ClientIP payload))
                       HeaderNameXRealIP (p_ClientIP payload)
                else h1)
      in if p_Proto payload \<noteq> [] then hdr_set h2 HeaderNameXForwardedProto (p_Proto payload) else h2)"

definition SchemeHTTP :: string where
  "SchemeHTTP = ''http''"

definition SchemeHTTPS :: string where
  "SchemeHTTPS = ''https''"

definition validateUpstreamDestination :: "string \<Rightarrow> proxy_error + url" where
  "validateUpstreamDestination rawURL =
     (case url_parse rawURL of
        None \<Rightarrow> Inl ErrInvalidUpstreamURL
      | Some u \<Rightarrow>
          (if (u_Scheme u \<noteq> SchemeHTTP \<and> u_Scheme u \<noteq> SchemeHTTPS) \<or> u_Host u = [] \<or> u_User u \<noteq> None
           then Inl ErrInvalidUpstreamURL else Inr u))"

text \<open>
  \<open>http.NewRequestWithContext\<close> takes an empty method for GET and refuses one that is not a token;
  the URL it is given is the validated one, printed.
\<close>

definition buildUpstreamReq :: "request_payload \<Rightarrow> proxy_error + upstream_request" where
  "buildUpstreamReq payload =
     (case validateUpstreamDestination (p_URL payload) of
        Inl e \<Rightarrow> Inl e
      | Inr u \<Rightarrow>
          (if \<not> list_all token_byte (p_Method payload) then Inl ErrCreateRequest
           else Inr \<lparr>ur_Method = (if p_Method payload = [] then ''GET'' else p_Method payload),
                     ur_URL = u,
                     ur_Header = setUpstreamHeaders [] payload,
                     ur_Body = p_Body payload,
                     ur_ContentLength = int (length (p_Body payload))\<rparr>))"

section \<open>Sending it and reading the response\<close>

definition executeUpstreamRequest :: "http_client \<Rightarrow> upstream_request \<Rightarrow> proxy_error + http_response" where
  "executeUpstreamRequest client req =
     (case hc_Do client req of
        Inl err \<Rightarrow> Inl (ErrUpstream (sanitizeUpstreamError err))
      | Inr resp \<Rightarrow> Inr resp)"

definition doUpstreamRequest ::
    "http_client option \<Rightarrow> request_payload \<Rightarrow> int \<Rightarrow> proxy_error + response_result" where
  "doUpstreamRequest client payload maxResponseBodySize =
     (case client of
        None \<Rightarrow> Inl ErrNilHTTPClient
      | Some c \<Rightarrow>
          (case buildUpstreamReq payload of
             Inl e \<Rightarrow> Inl e
           | Inr req \<Rightarrow>
               (case executeUpstreamRequest c req of
                  Inl e \<Rightarrow> Inl e
                | Inr resp \<Rightarrow>
                    (case read_limited (wrap64 (maxResponseBodySize + 1)) resp of
                       None \<Rightarrow> Inl ErrReadBody
                     | Some body \<Rightarrow>
                         (if int (length body) > maxResponseBodySize then Inl ErrResponseBodyTooLarge
                          else Inr \<lparr>rr_StatusCode = hr_StatusCode resp, rr_Headers = hr_Header resp,
                                    rr_Body = body\<rparr>)))))"

section \<open>What may be cached\<close>

definition hasCacheDirective :: "string list \<Rightarrow> string list \<Rightarrow> bool" where
  "hasCacheDirective vals blocked =
     list_ex (\<lambda>value. list_ex (\<lambda>directive.
         list_ex (\<lambda>b. equal_fold (trim_space (fst (str_cut CHR ''='' directive))) b) blocked)
       (split_on CHR '','' value)) vals"

definition headerBypassesCache :: "string \<Rightarrow> string list \<Rightarrow> bool" where
  "headerBypassesCache name vals =
     (if equal_fold name HeaderNameAuthorization \<or> equal_fold name HeaderNameCookie then True
      else if equal_fold name HeaderNameCacheControl
        then hasCacheDirective vals [''no-cache'', ''no-store'']
      else if equal_fold name HeaderNamePragma then hasCacheDirective vals [''no-cache'']
      else False)"

definition isCacheableRequest :: "'s forward_config \<Rightarrow> request_payload \<Rightarrow> bool" where
  "isCacheableRequest cfg payload =
     (if p_Method payload \<noteq> ''GET'' \<and> p_Method payload \<noteq> ''HEAD'' then False
      else if (case fc_HTTPClient cfg of Some c \<Rightarrow> hc_Jar c | None \<Rightarrow> False) then False
      else list_all (\<lambda>(name, vals). \<not> headerBypassesCache name vals) (p_Headers payload))"

definition response_header_blocks :: "string \<Rightarrow> string list \<Rightarrow> bool" where
  "response_header_blocks name vals =
     (if equal_fold name HeaderNameSetCookie \<or> equal_fold name HeaderNameVary then True
      else if \<not> equal_fold name HeaderNameCacheControl then False
      else hasCacheDirective vals [''no-cache'', ''no-store'', ''private''])"

definition isCacheableResponse :: "response_result \<Rightarrow> bool" where
  "isCacheableResponse result =
     (if rr_StatusCode result < 200 \<or> 300 \<le> rr_StatusCode result then False
      else list_all (\<lambda>(name, vals). \<not> response_header_blocks name vals) (rr_Headers result))"

section \<open>The stored form of a response\<close>

definition marshal_headers :: "header \<Rightarrow> json" where
  "marshal_headers h =
     JObj (map (\<lambda>(k, vs). (to_valid_utf8 k, JArr (map json_string vs))) (sort_key fst h))"

definition marshal_result :: "response_result \<Rightarrow> json_text" where
  "marshal_result r = JsonText (JObj
     ([(''statusCode'', JNum (rr_StatusCode r))]
      @ (if rr_Headers r = [] then [] else [(''headers'', marshal_headers (rr_Headers r))])
      @ (if rr_Body r = [] then [] else [(''body'', JStr (b64_encode (rr_Body r)))])))"

definition unmarshal_strings :: "json \<Rightarrow> string list option" where
  "unmarshal_strings j =
     (case j of
        JNull \<Rightarrow> Some []
      | JArr js \<Rightarrow>
          those (map (\<lambda>x. case x of JStr s \<Rightarrow> Some s | JNull \<Rightarrow> Some [] | _ \<Rightarrow> None) js)
      | _ \<Rightarrow> None)"

definition unmarshal_headers :: "json \<Rightarrow> header option" where
  "unmarshal_headers j =
     (case j of
        JNull \<Rightarrow> Some []
      | JObj fs \<Rightarrow>
          map_option (foldl (\<lambda>h (k, vs). map_set h k vs) [])
            (those (map (\<lambda>(k, v). map_option (Pair k) (unmarshal_strings v)) fs))
      | _ \<Rightarrow> None)"

definition unmarshal_result :: "json_text \<Rightarrow> response_result option" where
  "unmarshal_result t =
     (case t of
        JsonText (JObj fs) \<Rightarrow>
          (case (case json_field fs ''statusCode'' of
                   None \<Rightarrow> Some 0 | Some (JNum n) \<Rightarrow> Some n | Some JNull \<Rightarrow> Some 0 | _ \<Rightarrow> None,
                 case json_field fs ''headers'' of
                   None \<Rightarrow> Some [] | Some j \<Rightarrow> unmarshal_headers j,
                 case json_field fs ''body'' of
                   None \<Rightarrow> Some [] | Some JNull \<Rightarrow> Some [] | Some (JStr s) \<Rightarrow> b64_decode s | _ \<Rightarrow> None)
           of (Some sc, Some hs, Some b) \<Rightarrow>
                Some \<lparr>rr_StatusCode = sc, rr_Headers = hs, rr_Body = b\<rparr>
            | _ \<Rightarrow> None)
      | JsonText JNull \<Rightarrow> Some \<lparr>rr_StatusCode = 0, rr_Headers = [], rr_Body = []\<rparr>
      | _ \<Rightarrow> None)"

section \<open>Forwarding\<close>

definition setCacheStatus :: "response_result \<Rightarrow> string \<Rightarrow> response_result" where
  "setCacheStatus result status =
     result\<lparr>rr_Headers := map_set (rr_Headers result) HeaderNameXCacheStatus [status]\<rparr>"

definition cacheKey :: "(string \<Rightarrow> string) \<Rightarrow> 's forward_config \<Rightarrow> request_payload \<Rightarrow> string" where
  "cacheKey sha cfg payload =
     (case fc_CacheKeyFn cfg of
        Some f \<Rightarrow> f payload
      | None \<Rightarrow> HashExcluding sha (fc_CacheKeyExcludeHeaders cfg) payload)"

definition tryCache ::
    "'s cache_ops \<Rightarrow> 's forward_config \<Rightarrow> string \<Rightarrow> 's \<Rightarrow> response_result option \<times> 's" where
  "tryCache ops cfg key s =
     (case c_Get ops s key of
        (s', Inl _) \<Rightarrow> (None, s')
      | (s', Inr data) \<Rightarrow>
          (case unmarshal_result data of
             None \<Rightarrow> (None, s')
           | Some result \<Rightarrow>
               (if int (length (rr_Body result)) > responseBodyLimit cfg \<or> \<not> isCacheableResponse result
                then (None, s')
                else (Some (setCacheStatus result CacheStatusHit), s'))))"

definition storeInCache ::
    "'s cache_ops \<Rightarrow> 's forward_config \<Rightarrow> string \<Rightarrow> response_result \<Rightarrow> 's \<Rightarrow> 's" where
  "storeInCache ops cfg key result s =
     (if \<not> isCacheableResponse result then s
      else
        let ttl = (if fc_CacheTTL cfg = 0 then defaultCacheTTL else fc_CacheTTL cfg)
        in fst (c_Set ops s key (marshal_result result) ttl))"

definition forwardWithCache ::
    "(string \<Rightarrow> string) \<Rightarrow> 's cache_ops \<Rightarrow> 's forward_config \<Rightarrow> request_payload \<Rightarrow> 's
      \<Rightarrow> (proxy_error + response_result) \<times> 's" where
  "forwardWithCache sha ops cfg payload s =
     (if \<not> isCacheableRequest cfg payload
      then (doUpstreamRequest (fc_HTTPClient cfg) payload (responseBodyLimit cfg), s)
      else
        let key = cacheKey sha cfg payload
        in case tryCache ops cfg key s of
             (Some result, s') \<Rightarrow> (Inr result, s')
           | (None, s') \<Rightarrow>
               (case doUpstreamRequest (fc_HTTPClient cfg) payload (responseBodyLimit cfg) of
                  Inl e \<Rightarrow> (Inl e, s')
                | Inr result \<Rightarrow>
                    (Inr (setCacheStatus result CacheStatusMiss), storeInCache ops cfg key result s')))"

text \<open>\<open>ctx\<close> and \<open>payload\<close> are pointers that may be nil; the state is that of the cache.\<close>

definition ForwardRequest ::
    "(string \<Rightarrow> string) \<Rightarrow> unit option \<Rightarrow> 's forward_config \<Rightarrow> request_payload option \<Rightarrow> 's
      \<Rightarrow> (proxy_error + response_result) \<times> 's" where
  "ForwardRequest sha ctx cfg payload s =
     (case (ctx, payload) of
        (None, _) \<Rightarrow> (Inl ErrNilContext, s)
      | (Some _, None) \<Rightarrow> (Inl ErrNilRequestPayload, s)
      | (Some _, Some p) \<Rightarrow>
          (if fc_MaxResponseBodySize cfg < 0 \<or> fc_MaxResponseBodySize cfg = max_int64
           then (Inl ErrInvalidResponseLimit, s)
           else (case fc_Cache cfg of
                   Some ops \<Rightarrow> forwardWithCache sha ops cfg p s
                 | None \<Rightarrow> (doUpstreamRequest (fc_HTTPClient cfg) p (responseBodyLimit cfg), s))))"

section \<open>The request's scheme and the error answer\<close>

definition RequestScheme :: "request \<Rightarrow> string" where
  "RequestScheme r =
     (if rq_TLS r then SchemeHTTPS
      else
        let proto = hdr_get (rq_Header r) HeaderNameXForwardedProto
        in if proto \<noteq> [] then proto else SchemeHTTP)"

text \<open>\<open>http.StatusText\<close> is the argument \<open>status_text\<close>.\<close>

definition WriteError :: "(int \<Rightarrow> string) \<Rightarrow> int \<Rightarrow> prog" where
  "WriteError status_text status =
     WriteJSON status
       (error_response_json
          \<lparr>er_Code = ErrorCodeFromHTTPStatus status, er_Message = status_text status, er_Details = None\<rparr>)
       Return"

end
