(* ===== verification/Proxy_Headers.thy ===== *)
theory Proxy_Headers imports Proxy_Forward begin

text \<open>
  What the proxy sends upstream and how it reads the answer (\<open>forward.go\<close>): the headers of the
  upstream request, key by key; the destination check; the size limit of a response body; the
  errors that leave the package.
\<close>

section \<open>The headers sent upstream\<close>

text \<open>The reference: the values a header map holds for a name, whatever the case of its keys.\<close>

definition values_named :: "string \<Rightarrow> header \<Rightarrow> string list" where
  "values_named name h =
     concat (map (\<lambda>(key, vals). if CanonicalHeaderKey key = CanonicalHeaderKey name then vals else []) h)"

definition dropped_names :: "request_payload \<Rightarrow> string list" where
  "dropped_names payload = hopByHopHeaders @ connectionHeaderNames (p_Headers payload)"

lemma values_named_Nil [simp]: "values_named name [] = []"
  by (simp add: values_named_def)

lemma values_named_Cons:
  "values_named name ((key, vals) # h) =
     (if CanonicalHeaderKey key = CanonicalHeaderKey name then vals else []) @ values_named name h"
  by (simp add: values_named_def)

lemma hdr_values_add_values:
  "hdr_values (add_values key vals h) name =
     hdr_values h name @ (if CanonicalHeaderKey key = CanonicalHeaderKey name then vals else [])"
  unfolding add_values_def
proof (induction vals arbitrary: h)
  case (Cons v vals)
  then show ?case by (auto simp: hdr_values_add) (simp_all add: hdr_values_def)
qed simp

lemma hdr_values_copy:
  "hdr_values (copy_headers conn hs h) name =
     hdr_values h name @
       (if CanonicalHeaderKey name \<in> set hopByHopHeaders \<union> set conn then [] else values_named name hs)"
  by (induction conn hs h rule: copy_headers.induct)
    (auto simp: hdr_values_add_values values_named_Cons)

text \<open>The canonical forms of the forwarding headers, which differ.\<close>

lemma forwarding_names:
  "CanonicalHeaderKey HeaderNameXForwardedFor = ''X-Forwarded-For''"
  "CanonicalHeaderKey HeaderNameXRealIP = ''X-Real-Ip''"
  "CanonicalHeaderKey HeaderNameXForwardedProto = ''X-Forwarded-Proto''"
  by code_simp+

definition upstream_values :: "request_payload \<Rightarrow> string \<Rightarrow> string list" where
  "upstream_values payload name =
     (let canon = CanonicalHeaderKey name
      in if canon = ''X-Forwarded-Proto'' \<and> p_Proto payload \<noteq> [] then [p_Proto payload]
         else if (canon = ''X-Forwarded-For'' \<or> canon = ''X-Real-Ip'') \<and> p_ClientIP payload \<noteq> []
           then [p_ClientIP payload]
         else if canon \<in> set (dropped_names payload) then []
         else values_named name (p_Headers payload))"

text \<open>
  C29: for every header name, the values the upstream request carries are: the protocol or the client
  address for the three forwarding headers the proxy sets (the client's own values are replaced),
  nothing for a hop-by-hop header or one named in the client's \<open>Connection\<close> header, and otherwise
  all the client's values, in order.
\<close>

theorem upstream_headers_spec:
  "hdr_values (setUpstreamHeaders [] payload) name = upstream_values payload name"
  by (simp add: setUpstreamHeaders_def upstream_values_def dropped_names_def Let_def hdr_values_set
      hdr_values_copy forwarding_names)

section \<open>The destination\<close>

lemma validate_destination:
  "validateUpstreamDestination raw = Inr u \<longleftrightarrow>
     url_parse raw = Some u \<and> u_Scheme u \<in> {''http'', ''https''} \<and> u_Host u \<noteq> [] \<and> u_User u = None"
  by (auto simp: validateUpstreamDestination_def SchemeHTTP_def SchemeHTTPS_def
      split: option.splits if_splits)

lemma build_Inr:
  "buildUpstreamReq p = Inr req \<Longrightarrow> \<exists>u. validateUpstreamDestination (p_URL p) = Inr u \<and> ur_URL req = u
     \<and> list_all token_byte (p_Method p) \<and> ur_Body req = p_Body p
     \<and> ur_ContentLength req = int (length (p_Body p)) \<and> ur_Header req = setUpstreamHeaders [] p"
  by (auto simp: buildUpstreamReq_def split: sum.splits if_splits)

section \<open>The size limit\<close>

text \<open>The configurations \<open>ForwardRequest\<close> admits.\<close>

definition limit_admitted :: "'s forward_config \<Rightarrow> bool" where
  "limit_admitted cfg \<longleftrightarrow> 0 \<le> fc_MaxResponseBodySize cfg \<and> fc_MaxResponseBodySize cfg < max_int64"

lemma limit_bounds:
  "limit_admitted cfg \<Longrightarrow> 0 < responseBodyLimit cfg \<and> responseBodyLimit cfg < max_int64"
  by (auto simp: limit_admitted_def responseBodyLimit_def defaultMaxResponseBodySize_def max_int64_def)

lemma wrap64_id: "0 \<le> x \<Longrightarrow> x \<le> max_int64 \<Longrightarrow> wrap64 x = x"
  by (simp add: wrap64_def max_int64_def)

lemma wrap64_limit: "limit_admitted cfg \<Longrightarrow> wrap64 (responseBodyLimit cfg + 1) = responseBodyLimit cfg + 1"
  using limit_bounds [of cfg] by (intro wrap64_id) auto

text \<open>What the answer must be, with no reader and no overflow.\<close>

definition upstream_answer :: "int \<Rightarrow> http_response \<Rightarrow> proxy_error + response_result" where
  "upstream_answer limit resp =
     (if int (length (hr_Data resp)) > limit then Inl ErrResponseBodyTooLarge
      else if hr_Fails resp then Inl ErrReadBody
      else Inr \<lparr>rr_StatusCode = hr_StatusCode resp, rr_Headers = hr_Header resp, rr_Body = hr_Data resp\<rparr>)"

text \<open>
  Under every limit the configuration check admits, reading one byte past the limit decides
  exactly: a longer body is refused, a body that fails within the limit is a read error, and any
  other is returned whole. The addition \<open>limit + 1\<close> does not wrap.
\<close>

theorem upstream_body_decided:
  assumes "limit_admitted cfg" and "buildUpstreamReq payload = Inr req" and "hc_Do client req = Inr resp"
  shows "doUpstreamRequest (Some client) payload (responseBodyLimit cfg)
      = upstream_answer (responseBodyLimit cfg) resp"
proof -
  have pos: "0 < responseBodyLimit cfg" using limit_bounds [OF assms(1)] by simp
  show ?thesis
    using pos assms(2,3)
    by (auto simp: doUpstreamRequest_def executeUpstreamRequest_def upstream_answer_def
        read_limited_def wrap64_limit [OF assms(1)])
qed

definition example_config :: "'s forward_config" where
  "example_config = \<lparr>fc_HTTPClient = None, fc_Cache = None, fc_CacheTTL = 0, fc_CacheKeyFn = None,
     fc_CacheKeyExcludeHeaders = [], fc_MaxResponseBodySize = 3\<rparr>"

definition example_payload :: request_payload where
  "example_payload = \<lparr>p_Method = ''GET'', p_URL = ''http://up/x'', p_Headers = [], p_Body = [],
     p_ClientIP = [], p_Proto = []\<rparr>"

definition example_client :: "string \<Rightarrow> http_client" where
  "example_client data = \<lparr>hc_Jar = False,
     hc_Do = (\<lambda>_. Inr \<lparr>hr_StatusCode = 200, hr_Header = [], hr_Data = data, hr_Fails = False\<rparr>)\<rparr>"

definition example_upstream_request :: upstream_request where
  "example_upstream_request =
     (case buildUpstreamReq example_payload of Inr r \<Rightarrow> r
      | Inl _ \<Rightarrow> \<lparr>ur_Method = [], ur_URL = empty_url, ur_Header = [], ur_Body = [], ur_ContentLength = 0\<rparr>)"

lemma example_builds: "buildUpstreamReq example_payload = Inr example_upstream_request"
  by code_simp

lemma upstream_body_decided_witness:
  "doUpstreamRequest (Some (example_client ''abcd'')) example_payload
     (responseBodyLimit (example_config :: unit forward_config)) = Inl ErrResponseBodyTooLarge"
proof -
  let ?resp = "\<lparr>hr_StatusCode = 200, hr_Header = [], hr_Data = ''abcd'', hr_Fails = False\<rparr> :: http_response"
  have "limit_admitted (example_config :: unit forward_config)" by code_simp
  moreover have "hc_Do (example_client ''abcd'') example_upstream_request = Inr ?resp"
    by (simp add: example_client_def)
  ultimately show ?thesis
    by (subst upstream_body_decided [OF _ example_builds, of _ _ ?resp])
      (simp_all add: upstream_answer_def responseBodyLimit_def example_config_def)
qed

lemma doUpstream_bounded:
  "doUpstreamRequest c p n = Inr r \<Longrightarrow> int (length (rr_Body r)) \<le> n"
  by (auto simp: doUpstreamRequest_def split: option.splits sum.splits if_splits)

section \<open>Errors\<close>

text \<open>
  An error of the HTTP client reaches the caller without the URL it was raised for, through any
  nesting of \<open>url.Error\<close> values, unless the innermost of them carries no cause.
\<close>

theorem upstream_error_hides_url:
  assumes "buildUpstreamReq payload = Inr req" and "hc_Do client req = Inl err" and "\<not> nil_url_error err"
  shows "\<exists>e. doUpstreamRequest (Some client) payload n = Inl (ErrUpstream e) \<and> error_urls e = []"
  using assms by (simp add: doUpstreamRequest_def executeUpstreamRequest_def upstream_errors.strip_urls)

definition failing_client :: http_client where
  "failing_client = \<lparr>hc_Jar = False,
     hc_Do = (\<lambda>_. Inl (UrlError ''http://up/x?key=s'' (Some (WrapError ''dial''
        (UrlError ''http://up/x?key=s'' (Some (PlainError ''refused'')))))))\<rparr>"

lemma upstream_error_hides_url_witness:
  "\<exists>e. doUpstreamRequest (Some failing_client) example_payload 10 = Inl (ErrUpstream e) \<and> error_urls e = []"
  by (rule upstream_error_hides_url [OF example_builds, of _
        "UrlError ''http://up/x?key=s'' (Some (WrapError ''dial''
          (UrlError ''http://up/x?key=s'' (Some (PlainError ''refused'')))))"])
    (simp_all add: failing_client_def nil_url_error_def)

end
