(* ===== verification/Memory_Cache.thy ===== *)
theory Memory_Cache imports Cache_Interface begin

text \<open>
  The in-memory cache of the vendored \<open>common-go\<close> (\<open>cache/memory.go\<close>), the cache the proxy's
  documentation uses. The map \<open>items\<close> and the eviction list hold the same entries, so one list, most
  recently used first, stands for both; the clock is part of the state, advanced by \<open>mem_tick\<close>.
  The eviction loop of \<open>Set\<close> is written as a partial function: with a bound that is not positive
  it removes entries from an empty list for ever, with the lock held.
\<close>

record 'v memory_entry =
  me_key :: string
  me_value :: 'v
  me_expiresAt :: int

record 'v memory =
  m_list :: "'v memory_entry list"
  m_maxSize :: int
  m_now :: int

definition NewMemory :: "int \<Rightarrow> int \<Rightarrow> 'v memory" where
  "NewMemory maxEntries now = \<lparr>m_list = [], m_maxSize = maxEntries, m_now = now\<rparr>"

definition find_entry :: "string \<Rightarrow> 'v memory_entry list \<Rightarrow> 'v memory_entry option" where
  "find_entry k es = find (\<lambda>e. me_key e = k) es"

definition removeElement :: "string \<Rightarrow> 'v memory_entry list \<Rightarrow> 'v memory_entry list" where
  "removeElement k es = filter (\<lambda>e. me_key e \<noteq> k) es"

definition evictOldest :: "'v memory_entry list \<Rightarrow> 'v memory_entry list" where
  "evictOldest es = butlast es"

partial_function (option) evict_loop :: "int \<Rightarrow> 'v memory_entry list \<Rightarrow> 'v memory_entry list option" where
  "evict_loop maxSize es =
     (if maxSize \<le> int (length es) then evict_loop maxSize (evictOldest es) else Some es)"

declare evict_loop.simps [code]

text \<open>An entry is live until its expiry time has passed: \<open>time.Now().After(expiresAt)\<close> is strict.\<close>

definition expired :: "int \<Rightarrow> 'v memory_entry \<Rightarrow> bool" where
  "expired now e \<longleftrightarrow> now > me_expiresAt e"

definition mem_Get :: "'v memory \<Rightarrow> string \<Rightarrow> 'v memory \<times> (cache_error + 'v)" where
  "mem_Get m key =
     (case find_entry key (m_list m) of
        None \<Rightarrow> (m, Inl CacheMiss)
      | Some e \<Rightarrow>
          (if expired (m_now m) e then (m, Inl CacheMiss)
           else (m\<lparr>m_list := e # removeElement key (m_list m)\<rparr>, Inr (me_value e))))"

definition mem_Set :: "'v memory \<Rightarrow> string \<Rightarrow> 'v \<Rightarrow> int \<Rightarrow> 'v memory option" where
  "mem_Set m key val ttl =
     (let entry = \<lparr>me_key = key, me_value = val, me_expiresAt = m_now m + ttl\<rparr>
      in case find_entry key (m_list m) of
           Some _ \<Rightarrow> Some (m\<lparr>m_list := entry # removeElement key (m_list m)\<rparr>)
         | None \<Rightarrow>
             map_option (\<lambda>es. m\<lparr>m_list := entry # es\<rparr>) (evict_loop (m_maxSize m) (m_list m)))"

definition mem_Delete :: "'v memory \<Rightarrow> string \<Rightarrow> 'v memory" where
  "mem_Delete m key = m\<lparr>m_list := removeElement key (m_list m)\<rparr>"

definition removeExpired :: "'v memory \<Rightarrow> 'v memory" where
  "removeExpired m = m\<lparr>m_list := filter (\<lambda>e. \<not> expired (m_now m) e) (m_list m)\<rparr>"

definition mem_tick :: "nat \<Rightarrow> 'v memory \<Rightarrow> 'v memory" where
  "mem_tick d m = m\<lparr>m_now := m_now m + int d\<rparr>"

text \<open>
  The interface's operations. A call of \<open>Set\<close> that does not return has no result; the failure given
  for it here is never reached under \<open>memory_ok\<close>.
\<close>

definition memory_ops :: "json_text memory cache_ops" where
  "memory_ops =
     \<lparr>c_Get = mem_Get,
      c_Set = (\<lambda>m k v ttl. case mem_Set m k v ttl of Some m' \<Rightarrow> (m', None) | None \<Rightarrow> (m, Some CacheFailure))\<rparr>"

section \<open>The invariant and what a client sees\<close>

definition memory_ok :: "'v memory \<Rightarrow> bool" where
  "memory_ok m \<longleftrightarrow> 0 < m_maxSize m \<and> int (length (m_list m)) \<le> m_maxSize m
     \<and> distinct (map me_key (m_list m))"

definition mem_view :: "'v memory \<Rightarrow> string \<Rightarrow> 'v option" where
  "mem_view m k =
     (case find_entry k (m_list m) of
        Some e \<Rightarrow> (if expired (m_now m) e then None else Some (me_value e))
      | None \<Rightarrow> None)"

lemma evict_loop_diverges:
  assumes "maxSize \<le> 0"
  shows "evict_loop maxSize es = None"
proof -
  have "evict_loop m es = Some r \<Longrightarrow> 0 < m" for m r and es :: "'a memory_entry list"
    by (erule evict_loop.raw_induct [where P = "\<lambda>m _ _. 0 < m", rotated])
      (simp split: if_splits)
  then show ?thesis using assms by (metis linorder_not_less not_None_eq)
qed

lemma evict_loop_returns:
  "0 < maxSize \<Longrightarrow> evict_loop maxSize es = Some (take (nat (maxSize - 1)) es)"
proof (induction "length es" arbitrary: es)
  case 0
  then show ?case by (simp add: evict_loop.simps)
next
  case (Suc n)
  show ?case
  proof (cases "maxSize \<le> int (length es)")
    case True
    have "n = length (butlast es)" using Suc.hyps(2) by simp
    then have "evict_loop maxSize (butlast es) = Some (take (nat (maxSize - 1)) (butlast es))"
      using Suc.hyps(1) Suc.prems by blast
    moreover have "take (nat (maxSize - 1)) (butlast es) = take (nat (maxSize - 1)) es"
      using True Suc.prems by (intro take_butlast) linarith
    ultimately show ?thesis using True by (subst evict_loop.simps) (simp add: evictOldest_def)
  next
    case False
    then have "take (nat (maxSize - 1)) es = es" by simp
    with False show ?thesis by (subst evict_loop.simps) simp
  qed
qed

lemma find_entry_Nil [simp]: "find_entry k [] = None"
  by (simp add: find_entry_def)

lemma find_entry_Cons [simp]:
  "find_entry k (e # es) = (if me_key e = k then Some e else find_entry k es)"
  by (simp add: find_entry_def)

lemma find_entry_remove [simp]:
  "find_entry k' (removeElement k es) = (if k' = k then None else find_entry k' es)"
  by (induction es) (auto simp: removeElement_def)

lemma find_entry_in: "find_entry k es = Some e \<Longrightarrow> e \<in> set es \<and> me_key e = k"
  by (induction es) (auto split: if_splits)

lemma find_entry_take: "find_entry k (take n es) = Some e \<Longrightarrow> find_entry k es = Some e"
  by (induction es arbitrary: n) (auto simp: take_Cons split: nat.splits if_splits)

lemma remove_keys [simp]: "k \<notin> me_key ` set (removeElement k es)"
  by (auto simp: removeElement_def)

lemma remove_distinct: "distinct (map me_key es) \<Longrightarrow> distinct (map me_key (removeElement k es))"
  by (simp add: removeElement_def distinct_map_filter)

lemma remove_length:
  "find_entry k es = Some e \<Longrightarrow> length (removeElement k es) < length es"
  by (induction es) (auto simp: removeElement_def less_Suc_eq_le split: if_splits)

lemma mem_Get_list:
  "m_list (fst (mem_Get m k)) =
    (case find_entry k (m_list m) of
       Some e \<Rightarrow> if expired (m_now m) e then m_list m else e # removeElement k (m_list m)
     | None \<Rightarrow> m_list m)"
  by (auto simp: mem_Get_def split: option.splits)

lemma mem_Get_params [simp]:
  "m_maxSize (fst (mem_Get m k)) = m_maxSize m" "m_now (fst (mem_Get m k)) = m_now m"
  by (auto simp: mem_Get_def split: option.splits)

lemma mem_Get_ok:
  assumes "memory_ok m"
  shows "memory_ok (fst (mem_Get m k))"
proof (cases "find_entry k (m_list m)")
  case None
  with assms show ?thesis by (simp add: mem_Get_def)
next
  case (Some e)
  with remove_length [OF this] find_entry_in [OF this] assms show ?thesis
    by (auto simp: memory_ok_def mem_Get_list remove_distinct)
qed

lemma mem_Get_view: "mem_view (fst (mem_Get m k)) = mem_view m"
proof
  fix k'
  show "mem_view (fst (mem_Get m k)) k' = mem_view m k'"
    by (cases "find_entry k (m_list m)")
      (auto simp: mem_view_def mem_Get_list dest: find_entry_in split: option.splits)
qed

lemma mem_Get_result:
  "snd (mem_Get m k) = (case mem_view m k of Some v \<Rightarrow> Inr v | None \<Rightarrow> Inl CacheMiss)"
  by (simp add: mem_Get_def mem_view_def split: option.splits)

text \<open>With a positive bound \<open>Set\<close> returns, and its list is the new entry before what is kept.\<close>

lemma mem_Set_returns:
  assumes "memory_ok m"
  obtains es where "mem_Set m k v ttl =
      Some (m\<lparr>m_list := \<lparr>me_key = k, me_value = v, me_expiresAt = m_now m + ttl\<rparr> # es\<rparr>)"
    and "distinct (map me_key es)" and "k \<notin> me_key ` set es"
    and "int (length es) < m_maxSize m"
    and "\<And>k' e. find_entry k' es = Some e \<Longrightarrow> find_entry k' (m_list m) = Some e"
proof (cases "find_entry k (m_list m)")
  case (Some e)
  with assms remove_length [OF Some] show ?thesis
    by (intro that [of "removeElement k (m_list m)"])
      (auto simp: mem_Set_def memory_ok_def remove_distinct split: if_splits)
next
  case None
  have nk: "k \<notin> me_key ` set (m_list m)"
    using None by (auto simp: find_entry_def find_None_iff)
  have pos: "0 < m_maxSize m" using assms by (simp add: memory_ok_def)
  show ?thesis
  proof (rule that [of "take (nat (m_maxSize m - 1)) (m_list m)"])
    show "mem_Set m k v ttl = Some (m\<lparr>m_list := \<lparr>me_key = k, me_value = v, me_expiresAt = m_now m + ttl\<rparr>
        # take (nat (m_maxSize m - 1)) (m_list m)\<rparr>)"
      using None by (simp add: mem_Set_def evict_loop_returns [OF pos])
    show "distinct (map me_key (take (nat (m_maxSize m - 1)) (m_list m)))"
      using assms by (simp add: memory_ok_def take_map [symmetric] distinct_take)
    show "k \<notin> me_key ` set (take (nat (m_maxSize m - 1)) (m_list m))"
      using nk by (auto dest: in_set_takeD)
    show "int (length (take (nat (m_maxSize m - 1)) (m_list m))) < m_maxSize m"
      using pos by simp
  qed (rule find_entry_take)
qed

lemma mem_Set_ok: "memory_ok m \<Longrightarrow> mem_Set m k v ttl = Some m' \<Longrightarrow> memory_ok m'"
  by (erule mem_Set_returns [of m k v ttl]) (auto simp: memory_ok_def)

lemma mem_Set_same:
  "memory_ok m \<Longrightarrow> 0 \<le> ttl \<Longrightarrow> mem_Set m k v ttl = Some m' \<Longrightarrow> mem_view m' k = Some v"
  by (erule mem_Set_returns [of m k v ttl]) (auto simp: mem_view_def expired_def)

lemma mem_Set_view:
  "memory_ok m \<Longrightarrow> mem_Set m k v ttl = Some m' \<Longrightarrow> mem_view m' k' = Some w
   \<Longrightarrow> (k' = k \<and> w = v) \<or> mem_view m k' = Some w"
  by (erule mem_Set_returns [of m k v ttl])
    (fastforce simp: mem_view_def split: option.splits if_splits)

lemma mem_Set_Some: "memory_ok m \<Longrightarrow> \<exists>m'. mem_Set m k v ttl = Some m'"
  by (erule mem_Set_returns [of m k v ttl]) blast

interpretation mem: cache_store memory_ops mem_view memory_ok
proof unfold_locales
  fix s :: "json_text memory" and k k' v w ttl
  assume ok: "memory_ok s"
  obtain s' where s': "mem_Set s k v ttl = Some s'" using mem_Set_Some [OF ok] by blast
  show "memory_ok (fst (c_Get memory_ops s k))" using mem_Get_ok [OF ok] by (simp add: memory_ops_def)
  show "mem_view (fst (c_Get memory_ops s k)) = mem_view s" by (simp add: memory_ops_def mem_Get_view)
  show "mem_view s k = Some v \<Longrightarrow> snd (c_Get memory_ops s k) = Inr v"
    by (simp add: memory_ops_def mem_Get_result)
  show "mem_view s k = None \<Longrightarrow> snd (c_Get memory_ops s k) = Inl CacheMiss"
    by (simp add: memory_ops_def mem_Get_result)
  show "memory_ok (fst (c_Set memory_ops s k v ttl))"
    using s' mem_Set_ok [OF ok s'] by (simp add: memory_ops_def)
  show "0 \<le> ttl \<Longrightarrow> mem_view (fst (c_Set memory_ops s k v ttl)) k = Some v"
    using s' mem_Set_same [OF ok _ s'] by (simp add: memory_ops_def)
  show "mem_view (fst (c_Set memory_ops s k v ttl)) k' = Some w
      \<Longrightarrow> k' = k \<and> w = v \<or> mem_view s k' = Some w"
    using s' mem_Set_view [OF ok s'] by (simp add: memory_ops_def)
qed

section \<open>Expiry\<close>

lemma removeExpired_ok: "memory_ok m \<Longrightarrow> memory_ok (removeExpired m)"
  by (auto simp: memory_ok_def removeExpired_def distinct_map_filter
      intro: order_trans [OF of_nat_mono [OF length_filter_le]])

text \<open>The background sweep changes nothing a client can see.\<close>

lemma find_entry_filter:
  "distinct (map me_key es) \<Longrightarrow> find_entry k (filter P es) =
     (case find_entry k es of Some e \<Rightarrow> if P e then Some e else None | None \<Rightarrow> None)"
proof (induction es)
  case (Cons a es)
  have "me_key a = k \<Longrightarrow> find_entry k es = None"
    using Cons.prems by (auto simp: find_entry_def find_None_iff image_iff)
  with Cons show ?case by (auto split: option.splits)
qed simp

lemma removeExpired_view: "memory_ok m \<Longrightarrow> mem_view (removeExpired m) = mem_view m"
  by (rule ext)
    (auto simp: mem_view_def removeExpired_def memory_ok_def find_entry_filter split: option.splits)

lemma mem_tick_view: "mem_view (mem_tick d m) k = Some v \<Longrightarrow> mem_view m k = Some v"
  by (auto simp: mem_view_def mem_tick_def expired_def split: option.splits if_splits)

end
