(* ===== verification/Proxy_Cache.thy ===== *)
theory Proxy_Cache imports Proxy_Headers Memory_Cache begin

text \<open>
  The cache of the proxy (\<open>forward.go\<close>, \<open>request.go\<close>): the stored form round-trips; for every store
  that keeps the contract \<open>cache_store\<close>, the cached proxy answers as the uncached one does, a second
  request is served without the upstream, and only responses fit for caching are ever written. The
  facts are proved inside the locale and used through its interpretation on the in-memory cache.
\<close>

section \<open>The stored form\<close>

definition utf8_headers :: "header \<Rightarrow> bool" where
  "utf8_headers h \<longleftrightarrow> list_all (\<lambda>(k, vs). valid_utf8 k \<and> list_all valid_utf8 vs) h"

lemma those_map_Some: "(\<And>x. x \<in> set xs \<Longrightarrow> f x = Some (g x)) \<Longrightarrow> those (map f xs) = Some (map g xs)"
  by (induction xs) auto

lemma unmarshal_valid_strings:
  "list_all valid_utf8 vs \<Longrightarrow> unmarshal_strings (JArr (map json_string vs)) = Some vs"
proof -
  assume "list_all valid_utf8 vs"
  then have "map json_string vs = map JStr vs"
    by (simp add: json_string_def valid_utf8_def list_all_iff)
  then show ?thesis by (simp add: unmarshal_strings_def comp_def those_map_Some [of _ _ id])
qed

lemma unmarshal_marshal_headers:
  assumes "utf8_headers h" and "gomap_ok h"
  shows "unmarshal_headers (marshal_headers h) = Some (sort_key fst h)"
proof -
  let ?s = "sort_key fst h"
  have ok: "(case p of (k, vs) \<Rightarrow> to_valid_utf8 k = k \<and> list_all valid_utf8 vs)" if "p \<in> set ?s" for p
    using that assms(1) by (auto simp: utf8_headers_def list_all_iff valid_utf8_def)
  have "those (map (\<lambda>(k, v). map_option (Pair k) (unmarshal_strings v))
        (map (\<lambda>(k, vs). (to_valid_utf8 k, JArr (map json_string vs))) ?s)) = Some (map id ?s)"
    unfolding map_map comp_def
    by (rule those_map_Some) (use ok in \<open>force simp: unmarshal_valid_strings split: prod.splits\<close>)
  moreover have "distinct (map fst ?s)" using gomap_ok_sort [OF assms(2)] by (simp add: gomap_ok_def)
  ultimately show ?thesis
    using foldl_map_set_fresh [of "[]" ?s] by (simp add: unmarshal_headers_def marshal_headers_def)
qed

text \<open>
  The response a hit is built from: the header map of the stored form has its keys in sorted order,
  which no reader of a map can tell.
\<close>

definition restored :: "response_result \<Rightarrow> response_result" where
  "restored r = r\<lparr>rr_Headers := sort_key fst (rr_Headers r)\<rparr>"

lemma unmarshal_marshal:
  assumes "utf8_headers (rr_Headers r)" and "gomap_ok (rr_Headers r)"
  shows "unmarshal_result (marshal_result r) = Some (restored r)"
  using unmarshal_marshal_headers [OF assms]
  by (auto simp: unmarshal_result_def marshal_result_def json_field_def b64_roundtrip restored_def)

lemma restored_get: "gomap_ok (rr_Headers r) \<Longrightarrow> map_get (rr_Headers (restored r)) = map_get (rr_Headers r)"
  using map_get_perm [of "rr_Headers r" "sort_key fst (rr_Headers r)"] by (simp add: restored_def)

lemma restored_cacheable: "isCacheableResponse (restored r) = isCacheableResponse r"
  by (simp add: isCacheableResponse_def restored_def list_all_iff)

text \<open>
  Decoding the stored form of a response gives it back: the status, the body byte for byte and
  the values of every header, for header texts that are valid UTF-8.
\<close>

theorem cached_form_roundtrip:
  assumes "utf8_headers (rr_Headers r)" and "gomap_ok (rr_Headers r)"
  shows "\<exists>r'. unmarshal_result (marshal_result r) = Some r' \<and> rr_StatusCode r' = rr_StatusCode r
    \<and> rr_Body r' = rr_Body r \<and> map_get (rr_Headers r') = map_get (rr_Headers r)"
  using unmarshal_marshal [OF assms] restored_get [OF assms(2)] by (simp add: restored_def)

definition example_result :: response_result where
  "example_result = \<lparr>rr_StatusCode = 200, rr_Headers = [(''X-B'', [''2'', ''3'']), (''X-A'', [''1''])],
     rr_Body = [CHR 0xFF, CHR 0x00, CHR ''a'']\<rparr>"

lemma cached_form_roundtrip_witness:
  "\<exists>r'. unmarshal_result (marshal_result example_result) = Some r'
    \<and> rr_StatusCode r' = rr_StatusCode example_result \<and> rr_Body r' = rr_Body example_result
    \<and> map_get (rr_Headers r') = map_get (rr_Headers example_result)"
  by (rule cached_form_roundtrip) code_simp+

text \<open>Without that the header of a hit differs from the one the upstream sent.\<close>

lemma cached_form_invalid_utf8:
  "map_option rr_Headers (unmarshal_result (marshal_result
     \<lparr>rr_StatusCode = 200, rr_Headers = [(''X-A'', [[CHR 0xE9]])], rr_Body = []\<rparr>))
   = Some [(''X-A'', [replacement_char])]"
  by code_simp

section \<open>The cached proxy, over any store that keeps the contract\<close>

text \<open>The answer without a cache.\<close>

definition answer_of :: "'s forward_config \<Rightarrow> request_payload \<Rightarrow> proxy_error + response_result" where
  "answer_of cfg p = doUpstreamRequest (fc_HTTPClient cfg) p (responseBodyLimit cfg)"

text \<open>A stored value comes from a cacheable answer to a cacheable request with that key.\<close>

definition stored_for :: "(string \<Rightarrow> string) \<Rightarrow> 's forward_config \<Rightarrow> string \<Rightarrow> json_text \<Rightarrow> bool" where
  "stored_for sha cfg k v \<longleftrightarrow>
     (\<exists>q r. isCacheableRequest cfg q \<and> cacheKey sha cfg q = k \<and> answer_of cfg q = Inr r
        \<and> isCacheableResponse r \<and> v = marshal_result r)"

text \<open>The key tells apart the requests the upstream answers differently.\<close>

definition key_separates :: "(string \<Rightarrow> string) \<Rightarrow> 's forward_config \<Rightarrow> bool" where
  "key_separates sha cfg \<longleftrightarrow>
     (\<forall>p q. isCacheableRequest cfg p \<and> isCacheableRequest cfg q \<and> cacheKey sha cfg p = cacheKey sha cfg q
        \<longrightarrow> answer_of cfg p = answer_of cfg q)"

definition clean_answers :: "'s forward_config \<Rightarrow> bool" where
  "clean_answers cfg \<longleftrightarrow>
     (\<forall>p r. answer_of cfg p = Inr r \<longrightarrow> utf8_headers (rr_Headers r) \<and> gomap_ok (rr_Headers r))"

text \<open>Equal but for the \<open>X-Cache-Status\<close> header the cache adds.\<close>

definition same_response :: "response_result \<Rightarrow> response_result \<Rightarrow> bool" where
  "same_response r r' \<longleftrightarrow> rr_StatusCode r = rr_StatusCode r' \<and> rr_Body r = rr_Body r'
     \<and> (\<forall>k. k \<noteq> HeaderNameXCacheStatus \<longrightarrow> map_get (rr_Headers r) k = map_get (rr_Headers r') k)"

definition same_answer :: "proxy_error + response_result \<Rightarrow> proxy_error + response_result \<Rightarrow> bool" where
  "same_answer a b =
     (case (a, b) of
        (Inl e, Inl e') \<Rightarrow> e = e'
      | (Inr r, Inr r') \<Rightarrow> same_response r r'
      | _ \<Rightarrow> False)"

lemma same_answer_refl: "same_answer a a"
  by (cases a) (simp_all add: same_answer_def same_response_def)

lemma same_response_status: "same_response r (setCacheStatus r st)"
  by (simp add: same_response_def setCacheStatus_def)

lemma same_response_restored:
  "gomap_ok (rr_Headers r) \<Longrightarrow> same_response r (setCacheStatus (restored r) st)"
  by (simp add: same_response_def setCacheStatus_def restored_get) (simp add: restored_def)

lemma answer_bounded: "answer_of cfg p = Inr r \<Longrightarrow> int (length (rr_Body r)) \<le> responseBodyLimit cfg"
  by (simp add: answer_of_def doUpstream_bounded)

lemma setCacheStatus_body [simp]: "rr_Body (setCacheStatus r st) = rr_Body r"
  by (simp add: setCacheStatus_def)

text \<open>What a stored value is good for, read back.\<close>

definition usable :: "'s forward_config \<Rightarrow> json_text \<Rightarrow> response_result option" where
  "usable cfg v =
     (case unmarshal_result v of
        Some r \<Rightarrow> (if int (length (rr_Body r)) \<le> responseBodyLimit cfg \<and> isCacheableResponse r
                   then Some (setCacheStatus r CacheStatusHit) else None)
      | None \<Rightarrow> None)"

lemma usable_stored:
  assumes "clean_answers cfg" and "answer_of cfg q = Inr r" and "isCacheableResponse r"
  shows "usable cfg (marshal_result r) = Some (setCacheStatus (restored r) CacheStatusHit)"
proof -
  have "unmarshal_result (marshal_result r) = Some (restored r)"
    using assms(1,2) by (intro unmarshal_marshal) (auto simp: clean_answers_def)
  then show ?thesis
    using answer_bounded [OF assms(2)] assms(3)
    by (simp add: usable_def restored_cacheable) (simp add: restored_def)
qed

context cache_store begin

lemma tryCache_result:
  "inv s \<Longrightarrow> tryCache ops cfg key s =
     (case view s key of None \<Rightarrow> None | Some v \<Rightarrow> usable cfg v, fst (c_Get ops s key))"
  using get_result [of s key]
  by (auto simp: tryCache_def usable_def split: prod.splits option.splits)

lemma storeInCache_keeps:
  assumes "inv s" and "all_view P s" and "isCacheableResponse r \<Longrightarrow> P key (marshal_result r)"
  shows "inv (storeInCache ops cfg key r s) \<and> all_view P (storeInCache ops cfg key r s)"
  using assms set_inv all_view_set by (auto simp: storeInCache_def Let_def)

text \<open>Every value in view stays the stored form of a cacheable answer to a request with its key.\<close>

lemma forward_keeps:
  assumes inv: "inv s" and "all_view (stored_for sha cfg) s"
    and res: "forwardWithCache sha ops cfg p s = (a, s')"
  shows "inv s' \<and> all_view (stored_for sha cfg) s'"
proof (cases "isCacheableRequest cfg p")
  case False
  with assms show ?thesis by (auto simp: forwardWithCache_def)
next
  case True
  let ?key = "cacheKey sha cfg p"
  let ?g = "fst (c_Get ops s ?key)"
  have g: "inv ?g" "all_view (stored_for sha cfg) ?g"
    using assms get_inv all_view_get by auto
  show ?thesis
  proof (cases "fst (tryCache ops cfg ?key s)")
    case (Some r)
    with res True g show ?thesis
      by (auto simp: forwardWithCache_def Let_def tryCache_result [OF inv] split: option.splits)
  next
    case None
    show ?thesis
    proof (cases "answer_of cfg p")
      case (Inl e)
      with None res True g show ?thesis
        by (auto simp: forwardWithCache_def Let_def tryCache_result [OF inv] answer_of_def split: option.splits)
    next
      case (Inr r)
      then have "s' = storeInCache ops cfg ?key r ?g"
        using None res True
        by (auto simp: forwardWithCache_def Let_def tryCache_result [OF inv] answer_of_def split: option.splits)
      moreover have "isCacheableResponse r \<Longrightarrow> stored_for sha cfg ?key (marshal_result r)"
        using True Inr by (auto simp: stored_for_def)
      ultimately show ?thesis using storeInCache_keeps [OF g] by blast
    qed
  qed
qed

lemma forward_answer:
  assumes inv: "inv s" and prov: "all_view (stored_for sha cfg) s"
    and sep: "key_separates sha cfg" and clean: "clean_answers cfg"
  shows "same_answer (answer_of cfg p) (fst (forwardWithCache sha ops cfg p s))"
proof (cases "isCacheableRequest cfg p")
  case False
  then show ?thesis by (simp add: forwardWithCache_def answer_of_def [symmetric] same_answer_refl)
next
  case True
  let ?key = "cacheKey sha cfg p"
  show ?thesis
  proof (cases "view s ?key")
    case (Some v)
    then obtain q r where q: "isCacheableRequest cfg q" "cacheKey sha cfg q = ?key"
      "answer_of cfg q = Inr r" "isCacheableResponse r" "v = marshal_result r"
      using prov unfolding all_view_def stored_for_def by metis
    have "answer_of cfg p = Inr r" using sep True q by (metis key_separates_def)
    moreover have "fst (forwardWithCache sha ops cfg p s) = Inr (setCacheStatus (restored r) CacheStatusHit)"
      using True Some usable_stored [OF clean q(3,4)] q(5)
      by (simp add: forwardWithCache_def Let_def tryCache_result [OF inv])
    ultimately show ?thesis
      using clean by (simp add: same_answer_def same_response_restored clean_answers_def)
  next
    case None
    then show ?thesis
      using True
      by (cases "answer_of cfg p")
        (simp_all add: forwardWithCache_def Let_def tryCache_result [OF inv] answer_of_def [symmetric]
          same_answer_def same_response_status)
  qed
qed

text \<open>
  After a miss whose answer was stored, the next request with that key is answered from the store,
  under any configuration with the same limit, whatever its client does.
\<close>

lemma forward_then_hit:
  assumes inv: "inv s" and "0 \<le> fc_CacheTTL cfg" and clean: "clean_answers cfg"
    and miss: "view s (cacheKey sha cfg p) = None" and "isCacheableRequest cfg p"
    and r: "answer_of cfg p = Inr r" and c: "isCacheableResponse r"
    and "isCacheableRequest cfg' p'" and "cacheKey sha cfg' p' = cacheKey sha cfg p"
    and "responseBodyLimit cfg' = responseBodyLimit cfg"
  shows "fst (forwardWithCache sha ops cfg' p' (snd (forwardWithCache sha ops cfg p s)))
      = Inr (setCacheStatus (restored r) CacheStatusHit)"
proof -
  let ?key = "cacheKey sha cfg p"
  let ?g = "fst (c_Get ops s ?key)"
  let ?ttl = "if fc_CacheTTL cfg = 0 then defaultCacheTTL else fc_CacheTTL cfg"
  let ?s' = "fst (c_Set ops ?g ?key (marshal_result r) ?ttl)"
  have g: "inv ?g" using inv by (rule get_inv)
  have "snd (forwardWithCache sha ops cfg p s) = ?s'"
    using assms
    by (simp add: forwardWithCache_def Let_def tryCache_result [OF inv] answer_of_def storeInCache_def)
  moreover have "view ?s' ?key = Some (marshal_result r)"
    using assms(2) by (intro set_same [OF g]) (simp add: defaultCacheTTL_def)
  moreover have "usable cfg' (marshal_result r) = Some (setCacheStatus (restored r) CacheStatusHit)"
    using usable_stored [OF clean r c] unfolding usable_def assms(10) .
  ultimately show ?thesis
    using assms(8,9) set_inv [OF g] by (simp add: forwardWithCache_def Let_def tryCache_result)
qed

lemma forward_bounded:
  assumes "inv s" and "fst (forwardWithCache sha ops cfg p s) = Inr r"
  shows "int (length (rr_Body r)) \<le> responseBodyLimit cfg"
  using assms
  by (auto simp: forwardWithCache_def Let_def tryCache_result usable_def dest: doUpstream_bounded
      split: if_splits option.splits sum.splits)

end

section \<open>The proxy on the in-memory cache\<close>

text \<open>
  A history of the proxy: requests, time passing and the cache's background sweep, in any order.
  The configuration is the one every request of the history uses.
\<close>

datatype proxy_step = Request request_payload | Elapse nat | Sweep

fun proxy_run ::
    "(string \<Rightarrow> string) \<Rightarrow> json_text memory forward_config \<Rightarrow> proxy_step list \<Rightarrow> json_text memory
      \<Rightarrow> (request_payload \<times> (proxy_error + response_result)) list \<times> json_text memory" where
  "proxy_run sha cfg [] m = ([], m)"
| "proxy_run sha cfg (Request p # steps) m =
     (let (a, m') = ForwardRequest sha (Some ()) cfg (Some p) m;
          (out, m'') = proxy_run sha cfg steps m'
      in ((p, a) # out, m''))"
| "proxy_run sha cfg (Elapse d # steps) m = proxy_run sha cfg steps (mem_tick d m)"
| "proxy_run sha cfg (Sweep # steps) m = proxy_run sha cfg steps (removeExpired m)"

lemma forward_is_cached:
  "limit_admitted cfg \<Longrightarrow> fc_Cache cfg = Some ops \<Longrightarrow>
   ForwardRequest sha (Some ()) cfg (Some p) s = forwardWithCache sha ops cfg p s"
  by (auto simp: ForwardRequest_def limit_admitted_def)

lemma mem_tick_ok: "memory_ok (mem_tick d m) = memory_ok m"
  by (simp add: memory_ok_def mem_tick_def)

lemma run_keeps:
  assumes "limit_admitted cfg" and "fc_Cache cfg = Some memory_ops"
  shows "memory_ok m \<Longrightarrow> mem.all_view (stored_for sha cfg) m \<Longrightarrow> proxy_run sha cfg steps m = (out, m')
    \<Longrightarrow> memory_ok m' \<and> mem.all_view (stored_for sha cfg) m'
      \<and> (key_separates sha cfg \<and> clean_answers cfg
          \<longrightarrow> list_all (\<lambda>(p, a). same_answer (answer_of cfg p) a) out)"
proof (induction steps arbitrary: m out)
  case Nil
  then show ?case by simp
next
  case (Cons st steps)
  show ?case
  proof (cases st)
    case (Request p)
    obtain a m1 where f: "forwardWithCache sha memory_ops cfg p m = (a, m1)" by fastforce
    obtain out' where o: "proxy_run sha cfg steps m1 = (out', m')" and "out = (p, a) # out'"
      using Cons.prems(3) f Request by (auto simp: forward_is_cached [OF assms] split: prod.splits)
    have k: "memory_ok m1 \<and> mem.all_view (stored_for sha cfg) m1"
      using Cons.prems(1,2) f by (rule mem.forward_keeps)
    have "key_separates sha cfg \<and> clean_answers cfg \<longrightarrow> same_answer (answer_of cfg p) a"
      using mem.forward_answer [OF Cons.prems(1,2)] f by (metis fst_conv)
    with Cons.IH [OF conjunct1 [OF k] conjunct2 [OF k] o] show ?thesis
      unfolding \<open>out = (p, a) # out'\<close> list.pred_inject(2) prod.case by blast
  next
    case (Elapse d)
    have "mem.all_view (stored_for sha cfg) (mem_tick d m)"
      using Cons.prems(2) mem_tick_view [of d m] by (simp add: mem.all_view_def)
    moreover have "proxy_run sha cfg steps (mem_tick d m) = (out, m')"
      using Cons.prems(3) Elapse by simp
    ultimately show ?thesis using Cons.IH Cons.prems(1) mem_tick_ok by metis
  next
    case Sweep
    have "mem.all_view (stored_for sha cfg) (removeExpired m)"
      using Cons.prems(1,2) by (simp add: mem.all_view_def removeExpired_view)
    moreover have "proxy_run sha cfg steps (removeExpired m) = (out, m')"
      using Cons.prems(3) Sweep by simp
    ultimately show ?thesis using Cons.IH Cons.prems(1) removeExpired_ok by metis
  qed
qed

lemma new_memory_ok: "0 < n \<Longrightarrow> memory_ok (NewMemory n now)"
  by (simp add: memory_ok_def NewMemory_def)

lemma new_memory_view: "mem.all_view P (NewMemory n now)"
  by (simp add: mem.all_view_def mem_view_def NewMemory_def)


definition cached_config :: "string \<Rightarrow> json_text memory forward_config" where
  "cached_config data = \<lparr>fc_HTTPClient = Some (example_client data), fc_Cache = Some memory_ops,
     fc_CacheTTL = 0, fc_CacheKeyFn = Some (\<lambda>p. p_Method p @ p_URL p),
     fc_CacheKeyExcludeHeaders = [], fc_MaxResponseBodySize = 100\<rparr>"

lemma example_upstream_answers:
  "doUpstreamRequest (Some (example_client data)) p n = Inr r \<Longrightarrow>
   r = \<lparr>rr_StatusCode = 200, rr_Headers = [], rr_Body = rr_Body r\<rparr>"
  by (auto simp: doUpstreamRequest_def executeUpstreamRequest_def example_client_def
      split: sum.splits option.splits if_splits)

lemma example_clean: "clean_answers (cached_config data)"
proof -
  have "utf8_headers (rr_Headers r) \<and> gomap_ok (rr_Headers r)"
    if "answer_of (cached_config data) p = Inr r" for p r
  proof -
    have "rr_Headers r = []"
      using that example_upstream_answers [of data p _ r]
      by (auto simp: answer_of_def cached_config_def) (metis response_result.select_convs(2))
    then show ?thesis by (simp add: utf8_headers_def)
  qed
  then show ?thesis by (simp add: clean_answers_def)
qed

lemma same_destination:
  "p_Method p = p_Method q \<Longrightarrow> p_URL p = p_URL q \<Longrightarrow>
   doUpstreamRequest (Some (example_client data)) p n = doUpstreamRequest (Some (example_client data)) q n"
  by (simp add: doUpstreamRequest_def buildUpstreamReq_def executeUpstreamRequest_def example_client_def
      split: sum.split)

lemma example_separates: "key_separates sha (cached_config data)"
proof -
  have "answer_of (cached_config data) p = answer_of (cached_config data) q"
    if "isCacheableRequest (cached_config data) p" "isCacheableRequest (cached_config data) q"
      and "p_Method p @ p_URL p = p_Method q @ p_URL q" for p q
  proof -
    have "p_Method p \<in> {''GET'', ''HEAD''}" "p_Method q \<in> {''GET'', ''HEAD''}"
      using that(1,2) by (auto simp: isCacheableRequest_def split: if_splits)
    then have "p_Method p = p_Method q" using that(3) by auto
    with that(3) show ?thesis
      unfolding answer_of_def cached_config_def by (simp add: same_destination [of p q])
  qed
  then show ?thesis by (simp add: key_separates_def cacheKey_def cached_config_def)
qed


text \<open>
  The second of two requests with one key is answered by the cache with status \<open>HIT\<close> and the
  status, body and header values of the first answer, and without the upstream: it holds even when
  the configuration has no HTTP client left.
\<close>

theorem second_request_hits:
  assumes "limit_admitted cfg" and "fc_Cache cfg = Some memory_ops" and "0 \<le> fc_CacheTTL cfg"
    and "clean_answers cfg" and "memory_ok m" and "isCacheableRequest cfg p"
    and "mem_view m (cacheKey sha cfg p) = None"
    and "answer_of cfg p = Inr r" and "isCacheableResponse r"
  shows "fst (ForwardRequest sha (Some ()) (cfg\<lparr>fc_HTTPClient := None\<rparr>) (Some p)
      (snd (ForwardRequest sha (Some ()) cfg (Some p) m))) = Inr (setCacheStatus (restored r) CacheStatusHit)"
proof -
  let ?cfg = "cfg\<lparr>fc_HTTPClient := None\<rparr>"
  have "limit_admitted ?cfg" "fc_Cache ?cfg = Some memory_ops" "cacheKey sha ?cfg p = cacheKey sha cfg p"
    "isCacheableRequest ?cfg p" "responseBodyLimit ?cfg = responseBodyLimit cfg"
    using assms by (simp_all add: limit_admitted_def cacheKey_def isCacheableRequest_def
        responseBodyLimit_def split: if_splits cong: option.case_cong)
  then show ?thesis
    using assms by (simp add: forward_is_cached mem.forward_then_hit)
qed

lemma second_request_hits_witness:
  "fst (ForwardRequest (\<lambda>s. s) (Some ()) ((cached_config ''hi'')\<lparr>fc_HTTPClient := None\<rparr>)
      (Some example_payload)
      (snd (ForwardRequest (\<lambda>s. s) (Some ()) (cached_config ''hi'') (Some example_payload) (NewMemory 5 0))))
    = Inr (setCacheStatus (restored \<lparr>rr_StatusCode = 200, rr_Headers = [], rr_Body = ''hi''\<rparr>) CacheStatusHit)"
proof (rule second_request_hits [OF _ _ _ example_clean])
  have "upstream_answer 100 \<lparr>hr_StatusCode = 200, hr_Header = [], hr_Data = ''hi'', hr_Fails = False\<rparr>
      = Inr \<lparr>rr_StatusCode = 200, rr_Headers = [], rr_Body = ''hi''\<rparr>"
    by (simp add: upstream_answer_def)
  moreover have "limit_admitted (cached_config ''hi'')"
    by (simp add: limit_admitted_def cached_config_def max_int64_def)
  ultimately show "answer_of (cached_config ''hi'') example_payload
      = Inr \<lparr>rr_StatusCode = 200, rr_Headers = [], rr_Body = ''hi''\<rparr>"
    by (simp add: answer_of_def doUpstreamRequest_def example_builds executeUpstreamRequest_def
        example_client_def cached_config_def read_limited_def responseBodyLimit_def wrap64_def)
qed (simp_all add: limit_admitted_def cached_config_def max_int64_def memory_ok_def
    isCacheableRequest_def example_payload_def example_client_def mem_view_def NewMemory_def
    isCacheableResponse_def)

text \<open>
  C31: whatever the history, every value the cache would serve is the stored form of a response with
  a 2xx status, without \<open>Set-Cookie\<close>, \<open>Vary\<close> or a forbidding \<open>Cache-Control\<close>, that the upstream gave to
  a GET or HEAD request with that key and no credentials; and the cache never exceeds its size.
\<close>

theorem cache_holds_only_cacheable:
  assumes "limit_admitted cfg" and "fc_Cache cfg = Some memory_ops" and "0 < n"
    and "proxy_run sha cfg steps (NewMemory n now) = (out, m)" and "mem_view m k = Some v"
  shows "stored_for sha cfg k v \<and> int (length (m_list m)) \<le> m_maxSize m"
  using run_keeps [OF assms(1,2) new_memory_ok [OF assms(3)] new_memory_view assms(4)] assms(5)
  by (simp add: mem.all_view_def memory_ok_def)

definition example_memory :: "json_text memory" where
  "example_memory = snd (proxy_run (\<lambda>s. s) (cached_config ''hi'') [Request example_payload] (NewMemory 5 0))"

lemma cache_holds_only_cacheable_witness:
  "stored_for (\<lambda>s. s) (cached_config ''hi'') ''GEThttp://up/x''
      (JsonText (JObj [(''statusCode'', JNum 200), (''body'', JStr ''aGk='')]))
    \<and> int (length (m_list example_memory)) \<le> m_maxSize example_memory"
proof (rule cache_holds_only_cacheable)
  show "proxy_run (\<lambda>s. s) (cached_config ''hi'') [Request example_payload] (NewMemory 5 0)
      = (fst (proxy_run (\<lambda>s. s) (cached_config ''hi'') [Request example_payload] (NewMemory 5 0)), example_memory)"
    by (simp add: example_memory_def)
  show "mem_view example_memory ''GEThttp://up/x''
      = Some (JsonText (JObj [(''statusCode'', JNum 200), (''body'', JStr ''aGk='')]))"
    by code_simp
qed (simp_all add: limit_admitted_def cached_config_def max_int64_def)

text \<open>
  C30: no answer, fresh or from the cache, has a body over the configured limit, whatever the cache
  returned and whatever state it is in.
\<close>

theorem forwarded_body_bounded:
  assumes "fst (ForwardRequest sha ctx cfg payload s) = Inr r"
  shows "int (length (rr_Body r)) \<le> responseBodyLimit cfg"
  using assms
  by (auto simp: ForwardRequest_def forwardWithCache_def tryCache_def Let_def dest: doUpstream_bounded
      split: option.splits if_splits sum.splits prod.splits)

lemma forwarded_body_bounded_witness:
  "int (length ''hi'') \<le> responseBodyLimit (cached_config ''hi'')"
proof -
  have "fst (ForwardRequest (\<lambda>s. s) (Some ()) (cached_config ''hi'') (Some example_payload) (NewMemory 5 0))
      = Inr (setCacheStatus \<lparr>rr_StatusCode = 200, rr_Headers = [], rr_Body = ''hi''\<rparr> CacheStatusMiss)"
    by code_simp
  from forwarded_body_bounded [OF this] show ?thesis by simp
qed

end
