(* ===== verification/Proxy_Key.thy ===== *)
theory Proxy_Key imports Proxy_Cache begin

text \<open>
  The default cache key (\<open>request.go\<close>) and who may be served from the cache: the key does not depend
  on the order of the header map, it separates methods and URLs when the hash has no collision on
  the two texts hashed, and requests with credentials never meet the cache, whatever the case of
  the header's name. Two results show where the key is weaker than its documentation.
\<close>

section \<open>Hexadecimal\<close>

lemma hex_nibble_inject: "m < 16 \<Longrightarrow> n < 16 \<Longrightarrow> hex_nibble m = hex_nibble n \<Longrightarrow> m = n"
proof -
  have d: "distinct ''0123456789abcdef''" by code_simp
  have l: "length ''0123456789abcdef'' = 16" by simp
  show "m < 16 \<Longrightarrow> n < 16 \<Longrightarrow> hex_nibble m = hex_nibble n \<Longrightarrow> m = n"
    unfolding hex_nibble_def using nth_eq_iff_index_eq [OF d] l by simp
qed

lemma hex_encode_inject: "hex_encode s = hex_encode t \<Longrightarrow> s = t"
proof (induction s arbitrary: t)
  case Nil
  then show ?case by (cases t) (simp_all add: hex_encode_def)
next
  case (Cons c s)
  show ?case
  proof (cases t)
    case Nil
    with Cons.prems show ?thesis by (simp add: hex_encode_def)
  next
    case (Cons d t')
    let ?c = "of_char c :: nat" and ?d = "of_char d :: nat"
    have b: "?c < 256" "?d < 256" by simp_all
    have "hex_nibble (?c div 16) = hex_nibble (?d div 16)" "hex_nibble (?c mod 16) = hex_nibble (?d mod 16)"
      and "hex_encode s = hex_encode t'"
      using Cons.prems Cons by (simp_all add: hex_encode_def)
    moreover have "?c div 16 < 16" "?d div 16 < 16" using b by linarith+
    ultimately have "?c div 16 = ?d div 16" "?c mod 16 = ?d mod 16" and "hex_encode s = hex_encode t'"
      by (auto intro!: hex_nibble_inject)
    then have "?c = ?d" and "s = t'"
      using Cons.IH by (metis div_mult_mod_eq) (rule Cons.IH, fact)
    with Cons show ?thesis by simp
  qed
qed

section \<open>What the key depends on\<close>

text \<open>
  The fingerprint of a request is a function of its header map, not of the order in which a
  traversal of the map meets the headers.
\<close>

theorem hash_order_independent:
  assumes "gomap_ok (p_Headers p)" and "mset (p_Headers p) = mset h"
  shows "HashExcluding sha excl (p\<lparr>p_Headers := h\<rparr>) = HashExcluding sha excl p"
  by (simp add: HashExcluding_def hash_preimage_perm [OF assms])

lemma hash_order_independent_witness:
  "HashExcluding (\<lambda>s. s) [''X-A''] (example_payload\<lparr>p_Headers := [(''B'', [''2'']), (''A'', [''1''])]\<rparr>)
    = HashExcluding (\<lambda>s. s) [''X-A''] (example_payload\<lparr>p_Headers := [(''A'', [''1'']), (''B'', [''2''])]\<rparr>)"
  using hash_order_independent [of "example_payload\<lparr>p_Headers := [(''A'', [''1'']), (''B'', [''2''])]\<rparr>"
      "[(''B'', [''2'']), (''A'', [''1''])]" "\<lambda>s. s" "[''X-A'']"]
  by (simp add: gomap_ok_def)

text \<open>A request the proxy can forward has a method and a URL of one line.\<close>

lemma token_no_newline: "list_all token_byte m \<Longrightarrow> CHR 0x0A \<notin> set m"
proof
  assume "list_all token_byte m" "CHR 0x0A \<in> set m"
  then have "token_byte CHR 0x0A" by (simp add: list_all_iff)
  moreover have "\<not> token_byte CHR 0x0A" by code_simp
  ultimately show False by simp
qed

lemma parse_no_ctl: "parse_no_frag s = Some u \<Longrightarrow> CHR 0x0A \<notin> set s"
proof
  assume p: "parse_no_frag s = Some u" and "CHR 0x0A \<in> set s"
  moreover have "code CHR 0x0A < 32" by code_simp
  ultimately have "has_ctl s" by (auto simp: has_ctl_def list_ex_iff)
  with p show False by (simp add: parse_no_frag_def)
qed

lemma takeWhile_takeWhile_sep:
  "d \<notin> set (takeWhile (\<lambda>x. x \<noteq> c) s) \<Longrightarrow>
   takeWhile (\<lambda>x. x \<noteq> c) (takeWhile (\<lambda>x. x \<noteq> d) s) = takeWhile (\<lambda>x. x \<noteq> c) s"
  by (induction s) auto

lemma url_parse_before_fragment:
  assumes "url_parse s = Some u"
  obtains w f where "parse_no_frag (takeWhile (\<lambda>x. x \<noteq> CHR ''#'') s) = Some w" and "u\<lparr>u_Fragment := f\<rparr> = w"
proof -
  obtain w where w: "parse_no_frag (fst (str_cut CHR ''#'' s)) = Some w"
    and "u = w \<or> (\<exists>f. u = w\<lparr>u_Fragment := f\<rparr>)"
    using assms by (auto simp: url_parse_def split: prod.splits option.splits if_splits)
  then have "u\<lparr>u_Fragment := u_Fragment w\<rparr> = w" by auto
  then show ?thesis using w by (intro that [of w "u_Fragment w"]) (simp_all add: fst_str_cut)
qed

lemma parse_no_frag_fragment: "parse_no_frag s = Some u \<Longrightarrow> u_Fragment u = []"
  by (auto simp: parse_no_frag_def Let_def set_path_def empty_url_def split: if_splits option.splits prod.splits)

text \<open>URLs that agree up to the first newline agree on everything but the fragment.\<close>

lemma first_line_url:
  assumes "url_parse s = Some u" and "url_parse t = Some v"
    and "takeWhile (\<lambda>x. x \<noteq> CHR 0x0A) s = takeWhile (\<lambda>x. x \<noteq> CHR 0x0A) t"
  shows "u\<lparr>u_Fragment := []\<rparr> = v\<lparr>u_Fragment := []\<rparr>"
proof -
  obtain w f where w: "parse_no_frag (takeWhile (\<lambda>x. x \<noteq> CHR ''#'') s) = Some w" "u\<lparr>u_Fragment := f\<rparr> = w"
    using url_parse_before_fragment [OF assms(1)] .
  obtain z g where z: "parse_no_frag (takeWhile (\<lambda>x. x \<noteq> CHR ''#'') t) = Some z" "v\<lparr>u_Fragment := g\<rparr> = z"
    using url_parse_before_fragment [OF assms(2)] .
  have "takeWhile (\<lambda>x. x \<noteq> CHR ''#'') s = takeWhile (\<lambda>x. x \<noteq> CHR ''#'') t"
    using takeWhile_takeWhile_sep [OF parse_no_ctl [OF w(1)]] takeWhile_takeWhile_sep [OF parse_no_ctl [OF z(1)]]
      assms(3) by metis
  then have "w = z" using w(1) z(1) by simp
  moreover have "u_Fragment w = []" "u_Fragment z = []"
    using w(1) z(1) by (auto dest: parse_no_frag_fragment)
  ultimately show ?thesis using w(2) z(2) by (cases u; cases v) auto
qed

lemma preimage_first_lines:
  assumes "hash_preimage excl p = hash_preimage excl' q"
    and "CHR 0x0A \<notin> set (p_Method p)" and "CHR 0x0A \<notin> set (p_Method q)"
  shows "p_Method p = p_Method q
    \<and> takeWhile (\<lambda>x. x \<noteq> CHR 0x0A) (p_URL p) = takeWhile (\<lambda>x. x \<noteq> CHR 0x0A) (p_URL q)"
proof -
  obtain r s where r: "hash_preimage excl p = p_Method p @ newline @ p_URL p @ r" "r = [] \<or> hd r = CHR 0x0A"
    and s: "hash_preimage excl' q = p_Method q @ newline @ p_URL q @ s" "s = [] \<or> hd s = CHR 0x0A"
    using hash_preimage_shape by meson
  then have "p_Method p @ CHR 0x0A # (p_URL p @ r) = p_Method q @ CHR 0x0A # (p_URL q @ s)"
    using assms(1) by (simp add: newline_def)
  from append_sep_inject [OF assms(2,3) this]
  have m: "p_Method p = p_Method q" and u: "p_URL p @ r = p_URL q @ s" by simp_all
  have tw: "takeWhile (\<lambda>x. x \<noteq> c) (a @ b) = takeWhile (\<lambda>x. x \<noteq> c) a" if "b = [] \<or> hd b = c"
    for a b :: string and c
    using that by (induction a) (cases b; auto)+
  from tw [OF r(2), of "p_URL p"] tw [OF s(2), of "p_URL q"] u m show ?thesis by metis
qed

text \<open>
  C32: where SHA-256 has no collision on the two texts hashed, two requests the proxy can forward
  have the same default key only if they go to the same destination with the same method: every
  part of the URL that is sent agrees.
\<close>

theorem key_determines_destination:
  assumes "fc_CacheKeyFn cfg = None" and "cacheKey sha cfg p = cacheKey sha cfg q"
    and "sha (hash_preimage (fc_CacheKeyExcludeHeaders cfg) p)
        = sha (hash_preimage (fc_CacheKeyExcludeHeaders cfg) q)
      \<longrightarrow> hash_preimage (fc_CacheKeyExcludeHeaders cfg) p = hash_preimage (fc_CacheKeyExcludeHeaders cfg) q"
    and "buildUpstreamReq p = Inr rp" and "buildUpstreamReq q = Inr rq"
  shows "ur_Method rp = ur_Method rq \<and> (ur_URL rp)\<lparr>u_Fragment := []\<rparr> = (ur_URL rq)\<lparr>u_Fragment := []\<rparr>"
proof -
  have "hash_preimage (fc_CacheKeyExcludeHeaders cfg) p = hash_preimage (fc_CacheKeyExcludeHeaders cfg) q"
    using assms(1-3) by (auto simp: cacheKey_def HashExcluding_def dest: hex_encode_inject)
  moreover have "list_all token_byte (p_Method p)" "list_all token_byte (p_Method q)"
    using build_Inr [OF assms(4)] build_Inr [OF assms(5)] by auto
  ultimately have eq: "p_Method p = p_Method q"
    "takeWhile (\<lambda>x. x \<noteq> CHR 0x0A) (p_URL p) = takeWhile (\<lambda>x. x \<noteq> CHR 0x0A) (p_URL q)"
    using preimage_first_lines token_no_newline by blast+
  have "url_parse (p_URL p) = Some (ur_URL rp)" "url_parse (p_URL q) = Some (ur_URL rq)"
    using build_Inr [OF assms(4)] build_Inr [OF assms(5)] by (auto simp: validate_destination)
  from first_line_url [OF this eq(2)] have "(ur_URL rp)\<lparr>u_Fragment := []\<rparr> = (ur_URL rq)\<lparr>u_Fragment := []\<rparr>" .
  moreover have "ur_Method rp = ur_Method rq"
    using assms(4,5) eq(1) by (auto simp: buildUpstreamReq_def split: sum.splits if_splits)
  ultimately show ?thesis by simp
qed

definition key_config :: "unit forward_config" where
  "key_config = example_config"

definition header_variant :: request_payload where
  "header_variant = example_payload\<lparr>p_Headers := [(''Accept'', [''text/html''])]\<rparr>"

definition body_variant :: request_payload where
  "body_variant = example_payload\<lparr>p_Body := ''Accept'' @ newline @ ''text/html''\<rparr>"

lemma variants_one_text: "hash_preimage [] header_variant = hash_preimage [] body_variant"
  by code_simp

lemma key_determines_destination_witness:
  "\<exists>rp rq. buildUpstreamReq header_variant = Inr rp \<and> buildUpstreamReq body_variant = Inr rq
    \<and> ur_Method rp = ur_Method rq \<and> (ur_URL rp)\<lparr>u_Fragment := []\<rparr> = (ur_URL rq)\<lparr>u_Fragment := []\<rparr>"
proof -
  have "\<not> isl (buildUpstreamReq header_variant)" "\<not> isl (buildUpstreamReq body_variant)" by code_simp+
  then obtain rp rq where b: "buildUpstreamReq header_variant = Inr rp" "buildUpstreamReq body_variant = Inr rq"
    by (cases "buildUpstreamReq header_variant"; cases "buildUpstreamReq body_variant") auto
  have "ur_Method rp = ur_Method rq \<and> (ur_URL rp)\<lparr>u_Fragment := []\<rparr> = (ur_URL rq)\<lparr>u_Fragment := []\<rparr>"
    by (rule key_determines_destination [of key_config "\<lambda>s. s", OF _ _ _ b])
      (simp_all add: key_config_def example_config_def cacheKey_def HashExcluding_def variants_one_text)
  with b show ?thesis by blast
qed

section \<open>Where the key is weaker\<close>

text \<open>
  Whatever the hash function is, a GET request with the header \<open>Accept: text/html\<close> and one with
  no header and the body \<open>Accept\<close>, newline, \<open>text/html\<close> have one key, and both may be served from
  the cache: the text hashed separates its parts with newlines, which a body may contain.
\<close>

theorem key_confuses_header_and_body:
  "cacheKey sha key_config header_variant = cacheKey sha key_config body_variant
   \<and> isCacheableRequest key_config header_variant \<and> isCacheableRequest key_config body_variant"
proof -
  have "isCacheableRequest key_config header_variant" "isCacheableRequest key_config body_variant"
    by code_simp+
  then show ?thesis
    by (simp add: cacheKey_def HashExcluding_def key_config_def example_config_def variants_one_text)
qed

text \<open>
  Excluding the header by the library's constant \<open>HeaderNameXRequestID\<close>, as the proxy's
  documentation shows, excludes nothing when the headers come from a Go request: their keys are
  canonical, the constant is not, so two requests that differ in their request id only still have
  different texts to hash.
\<close>

lemma exclude_request_id_ineffective:
  "let p = \<lambda>i. example_payload\<lparr>p_Headers := hdr_set [] HeaderNameXRequestID i\<rparr>
   in hash_preimage [HeaderNameXRequestID] (p ''1'') \<noteq> hash_preimage [HeaderNameXRequestID] (p ''2'')
      \<and> hash_preimage [CanonicalHeaderKey HeaderNameXRequestID] (p ''1'')
        = hash_preimage [CanonicalHeaderKey HeaderNameXRequestID] (p ''2'')"
  by code_simp

section \<open>Credentials\<close>

text \<open>
  A request with an \<open>Authorization\<close> or \<open>Cookie\<close> header, in any letter case, is forwarded without
  the cache: the answer is the upstream's, and the cache is neither read nor written.
\<close>

theorem credentials_bypass_cache:
  assumes "(name, vals) \<in> set (p_Headers p)" and "list_all token_byte name"
    and "CanonicalHeaderKey name \<in> {''Authorization'', ''Cookie''}"
  shows "forwardWithCache sha ops cfg p s = (answer_of cfg p, s)"
proof -
  have canon: "CanonicalHeaderKey HeaderNameAuthorization = ''Authorization''"
    "CanonicalHeaderKey HeaderNameCookie = ''Cookie''" "list_all token_byte HeaderNameAuthorization"
    "list_all token_byte HeaderNameCookie" by code_simp+
  then have "equal_fold name HeaderNameAuthorization \<or> equal_fold name HeaderNameCookie"
    using assms(2,3) by (simp add: equal_fold_canonical)
  then have "headerBypassesCache name vals" by (auto simp: headerBypassesCache_def)
  then have "\<not> isCacheableRequest cfg p"
    using assms(1) by (auto simp: isCacheableRequest_def list_all_iff)
  then show ?thesis by (simp add: forwardWithCache_def answer_of_def)
qed

lemma credentials_bypass_cache_witness:
  "forwardWithCache (\<lambda>s. s) memory_ops (cached_config ''hi'')
      (example_payload\<lparr>p_Headers := [(''aUTHORIZATION'', [''Bearer x''])]\<rparr>) (NewMemory 5 0)
    = (answer_of (cached_config ''hi'')
        (example_payload\<lparr>p_Headers := [(''aUTHORIZATION'', [''Bearer x''])]\<rparr>), NewMemory 5 0)"
proof (rule credentials_bypass_cache)
  show "(''aUTHORIZATION'', [''Bearer x''])
      \<in> set (p_Headers (example_payload\<lparr>p_Headers := [(''aUTHORIZATION'', [''Bearer x''])]\<rparr>))"
    by simp
  show "list_all token_byte ''aUTHORIZATION''" by code_simp
  have "CanonicalHeaderKey ''aUTHORIZATION'' = ''Authorization''" by code_simp
  then show "CanonicalHeaderKey ''aUTHORIZATION'' \<in> {''Authorization'', ''Cookie''}" by simp
qed

end
