(* ===== verification/Middleware_Core.thy ===== *)
theory Middleware_Core imports Request_Utils Go_Json begin

text \<open>
  \<open>serbewr/middleware\<close>: the composition of middlewares (\<open>middleware.go\<close>) and two that only add operations
  before the inner handler or answer in its place: the request id (\<open>request_id.go\<close>) and the enforcement
  of content types (\<open>enforce_request_content_type.go\<close>). A middleware is a function on handlers; a
  configuration is built by folding the options over the defaults, as the constructors do.
\<close>

type_synonym middleware = "handler \<Rightarrow> handler"

text \<open>The loop of \<open>Chain\<close> runs from the last middleware to the first.\<close>

definition Chain :: "handler \<Rightarrow> middleware list \<Rightarrow> handler" where
  "Chain h middlewares = foldl (\<lambda>h m. m h) h (rev middlewares)"

definition apply_options :: "('c \<Rightarrow> 'c) list \<Rightarrow> 'c \<Rightarrow> 'c" where
  "apply_options opts config = foldl (\<lambda>c opt. opt c) config opts"

lemma Chain_Nil [simp]: "Chain h [] = h"
  by (simp add: Chain_def)

lemma Chain_Cons [simp]: "Chain h (m # ms) = m (Chain h ms)"
  by (simp add: Chain_def)

text \<open>
  The first middleware of a chain is the outermost, and chaining two lists is chaining the second
  inside the first.
\<close>

lemma chain_order:
  "Chain h (ms @ ns) = Chain (Chain h ns) ms \<and> Chain h (m # ms) = m (Chain h ms)"
  by (simp add: Chain_def)

section \<open>Log fields\<close>

definition FieldRequestID :: string where
  "FieldRequestID = ''requestId''"

definition FieldMethod :: string where
  "FieldMethod = ''method''"

definition FieldPath :: string where
  "FieldPath = ''path''"

definition FieldIP :: string where
  "FieldIP = ''ip''"

definition FieldStatus :: string where
  "FieldStatus = ''status''"

definition FieldDuration :: string where
  "FieldDuration = ''duration''"

definition FieldQuery :: string where
  "FieldQuery = ''query''"

definition FieldUserAgent :: string where
  "FieldUserAgent = ''userAgent''"

definition LevelDebug :: int where
  "LevelDebug = - 4"

definition LevelInfo :: int where
  "LevelInfo = 0"

definition LevelWarn :: int where
  "LevelWarn = 4"

definition LevelError :: int where
  "LevelError = 8"

text \<open>\<open>ctxscope.Set\<close> and the logger it configures: the scope's attributes come on every line.\<close>

definition scope_set :: "(string \<times> string) list \<Rightarrow> request \<Rightarrow> request" where
  "scope_set attrs r = r\<lparr>rq_Scope := foldl (\<lambda>m (k, v). map_set m k v) (rq_Scope r) attrs\<rparr>"

definition scope_attrs :: "request \<Rightarrow> (string \<times> attr) list" where
  "scope_attrs r = map (\<lambda>(k, v). (k, AStr v)) (rq_Scope r)"

definition log_line :: "int \<Rightarrow> request \<Rightarrow> string \<Rightarrow> (string \<times> attr) list \<Rightarrow> log_entry" where
  "log_line level r msg attrs = LogEntry level msg (scope_attrs r @ attrs)"

section \<open>Request id\<close>

definition maxRequestIDLength :: nat where
  "maxRequestIDLength = 128"

definition requestIDAllowedRunes :: string where
  "requestIDAllowedRunes =
     ''abcdefghijklmnopqrstuvwxyz'' @ ''ABCDEFGHIJKLMNOPQRSTUVWXYZ'' @ ''0123456789._-''"

text \<open>
  The allowed runes are ASCII, so a rune outside ASCII, or a byte that is not UTF-8, is refused at its
  first byte.
\<close>

definition isValidRequestID :: "string \<Rightarrow> bool" where
  "isValidRequestID reqID =
     (if maxRequestIDLength < length reqID then False
      else list_all (\<lambda>c. c \<in> set requestIDAllowedRunes) reqID)"

text \<open>The new UUID of \<open>uuid.New()\<close> is the argument \<open>fresh\<close>.\<close>

definition chosen_request_id :: "string \<Rightarrow> request \<Rightarrow> string" where
  "chosen_request_id fresh r =
     (let reqID = hdr_get (rq_Header r) HeaderNameXRequestID
      in if reqID = [] \<or> \<not> isValidRequestID reqID then fresh else reqID)"

definition RequestID :: "string \<Rightarrow> middleware" where
  "RequestID fresh next r =
     (let reqID = chosen_request_id fresh r
      in set_header HeaderNameXRequestID reqID
           (next (scope_set [(FieldRequestID, reqID)] (r\<lparr>rq_RequestID := Some reqID\<rparr>))))"

text \<open>
  C40: with a generator of valid ids, the id the inner handler finds in the context is the one set on
  the response and in the log scope, it is valid (at most 128 bytes of letters, digits, dot, underscore
  and dash, so no line break of the client reaches a header or a log line), and it is the client's own
  exactly when that was valid and not empty.
\<close>

theorem request_id_propagated:
  assumes "isValidRequestID fresh" and "fresh \<noteq> []"
  shows "\<exists>reqID r'. RequestID fresh next_h r = set_header HeaderNameXRequestID reqID (next_h r')
    \<and> GetRequestID r' = reqID \<and> map_get (rq_Scope r') FieldRequestID = Some reqID
    \<and> isValidRequestID reqID \<and> reqID \<noteq> []
    \<and> (reqID = hdr_get (rq_Header r) HeaderNameXRequestID
        \<or> reqID = fresh \<and> (hdr_get (rq_Header r) HeaderNameXRequestID = []
            \<or> \<not> isValidRequestID (hdr_get (rq_Header r) HeaderNameXRequestID)))"
  using assms
  by (intro exI [of _ "chosen_request_id fresh r"]
      exI [of _ "scope_set [(FieldRequestID, chosen_request_id fresh r)]
        (r\<lparr>rq_RequestID := Some (chosen_request_id fresh r)\<rparr>)"])
    (auto simp: RequestID_def Let_def GetRequestID_def scope_set_def chosen_request_id_def)

definition get_request :: request where
  "get_request = \<lparr>rq_Method = ''GET'', rq_Path = ''/x'', rq_RawQuery = [], rq_Host = ''h'',
     rq_RemoteAddr = ''10.0.0.1:80'', rq_TLS = False, rq_Header = [], rq_RequestID = None,
     rq_User = None, rq_Scope = []\<rparr>"

lemma request_id_propagated_witness:
  "\<exists>reqID r'. RequestID ''new-id'' (\<lambda>_. Return) get_request = set_header HeaderNameXRequestID reqID Return
    \<and> GetRequestID r' = reqID \<and> isValidRequestID reqID"
proof -
  have "isValidRequestID ''new-id''" by code_simp
  then show ?thesis
    using request_id_propagated [of "''new-id''" "\<lambda>_. Return" get_request] by auto
qed

section \<open>Content-type enforcement\<close>

definition EnforceRequestContentType :: "string list \<Rightarrow> middleware" where
  "EnforceRequestContentType allowedContentTypes next_h r =
     (if rq_Method r = ''GET'' \<or> rq_Method r = ''HEAD'' \<or> rq_Method r = ''DELETE'' then next_h r
      else
        let contentType = hdr_get (rq_Header r) HeaderNameContentType
        in if contentType = []
           then Log (log_line LevelDebug r ''missing content-type header'' [])
                  (write_error 400 ErrorResponseMissingContentType)
           else
             let mediaType = trim_space (hd (split_on CHR '';'' contentType))
             in if list_ex (\<lambda>allowed. equal_fold mediaType allowed) allowedContentTypes then next_h r
                else Log (log_line LevelDebug r ''unsupported content-type'' [(''contentType'', AStr mediaType)])
                       (write_error 415 (ErrorResponseUnsupportedContentType
                          \<lparr>er_Details := Some (JObj [(''received'', json_string mediaType),
                             (''allowed'', if allowedContentTypes = [] then JNull
                                else JArr (map json_string allowedContentTypes))])\<rparr>)))"

definition EnforceRequestContentTypeJSON :: middleware where
  "EnforceRequestContentTypeJSON = EnforceRequestContentType [ContentTypeJSON]"

lemma exec_Log [simp]: "exec (Log e p) w = exec p (w\<lparr>w_log := w_log w @ [e]\<rparr>)"
  by simp

lemma serve_write_error:
  assumes "body_allowed c" and "\<not> informational c"
  shows "exec (write_error c e) w = (w', out) \<Longrightarrow> \<not> w_committed w \<Longrightarrow>
    w_status w' = Some c \<and> out = Returned \<and> w_body w' = w_body w @ [Json (error_response_json e)]"
  using assms by (auto simp: write_error_def exec_WriteJSON_fresh)

text \<open>
  With a body-carrying method the JSON enforcement lets a request through exactly when the
  library's own test \<open>IsRequestContentTypeJSON\<close> accepts it (any letter case, parameters ignored);
  otherwise the answer is 400 without a content type and 415 with another, and the handler is not
  consulted.
\<close>

theorem enforce_json_exact:
  assumes "rq_Method r \<notin> {''GET'', ''HEAD'', ''DELETE''}"
  shows "if IsRequestContentTypeJSON r then EnforceRequestContentTypeJSON next_h r = next_h r
    else w_status (fst (serve (EnforceRequestContentTypeJSON next_h r))) =
        Some (if hdr_get (rq_Header r) HeaderNameContentType = [] then 400 else 415)
      \<and> EnforceRequestContentTypeJSON next_h r = EnforceRequestContentTypeJSON next_h' r"
proof -
  have ok: "body_allowed 400" "body_allowed 415" "\<not> informational 400" "\<not> informational 415"
    by (simp_all add: body_allowed_def informational_def)
  show ?thesis
    using assms
    by (auto simp: EnforceRequestContentTypeJSON_def EnforceRequestContentType_def serve_def
        IsRequestContentTypeJSON_def IsRequestContentType_def media_type_def Let_def write_error_def
        exec_WriteJSON_fresh not_committed ok new_writer_def implicit_ok_def)
qed

lemma enforce_json_exact_witness:
  "w_status (fst (serve (EnforceRequestContentTypeJSON (\<lambda>_. Return)
      (get_request\<lparr>rq_Method := ''POST'', rq_Header := [(''Content-Type'', [''text/plain; q=1''])]\<rparr>)))) = Some 415"
proof -
  let ?r = "get_request\<lparr>rq_Method := ''POST'', rq_Header := [(''Content-Type'', [''text/plain; q=1''])]\<rparr>"
  have "\<not> IsRequestContentTypeJSON ?r" "hdr_get (rq_Header ?r) HeaderNameContentType \<noteq> []" by code_simp+
  then show ?thesis using enforce_json_exact [of ?r "\<lambda>_. Return" "\<lambda>_. Return"] by simp
qed

end
