(* ===== verification/Middleware_Headers.thy ===== *)
theory Middleware_Headers imports Middleware_Core begin

text \<open>
  The middlewares that set response headers: CORS (\<open>cors.go\<close>) and the security headers
  (\<open>security_headers.go\<close>). The results give the value of every response header the inner handler
  starts from, under every configuration.
\<close>

definition set_if :: "bool \<Rightarrow> string \<Rightarrow> string \<Rightarrow> prog \<Rightarrow> prog" where
  "set_if b k v p = (if b then set_header k v p else p)"

definition hdr_set_if :: "bool \<Rightarrow> string \<Rightarrow> string \<Rightarrow> header \<Rightarrow> header" where
  "hdr_set_if b k v h = (if b then hdr_set h k v else h)"

lemma exec_set_if [simp]:
  "exec (set_if b k v p) w = exec p (w\<lparr>w_header := hdr_set_if b k v (w_header w)\<rparr>)"
  by (simp add: set_if_def hdr_set_if_def)

lemma hdr_values_set_if:
  "hdr_values (hdr_set_if b k v h) name =
     (if b \<and> CanonicalHeaderKey name = CanonicalHeaderKey k then [v] else hdr_values h name)"
  by (simp add: hdr_set_if_def hdr_values_set)

section \<open>CORS\<close>

record cors_config =
  cc_AllowedOrigins :: "string list"
  cc_AllowedMethods :: "string list"
  cc_AllowedHeaders :: "string list"
  cc_ExposedHeaders :: "string list"
  cc_MaxAge :: int
  cc_AllowCredentials :: bool
  cc_AllowAllOrigins :: bool

type_synonym cors_option = "cors_config \<Rightarrow> cors_config"

definition WithAllowedOrigins :: "string list \<Rightarrow> cors_option" where
  "WithAllowedOrigins origins c = c\<lparr>cc_AllowedOrigins := origins, cc_AllowAllOrigins := False\<rparr>"

definition WithAllowedMethods :: "string list \<Rightarrow> cors_option" where
  "WithAllowedMethods methods c = c\<lparr>cc_AllowedMethods := methods\<rparr>"

definition WithAllowedHeaders :: "string list \<Rightarrow> cors_option" where
  "WithAllowedHeaders headers c = c\<lparr>cc_AllowedHeaders := headers\<rparr>"

definition WithExposedHeaders :: "string list \<Rightarrow> cors_option" where
  "WithExposedHeaders headers c = c\<lparr>cc_ExposedHeaders := headers\<rparr>"

definition WithMaxAge :: "int \<Rightarrow> cors_option" where
  "WithMaxAge age c = c\<lparr>cc_MaxAge := age\<rparr>"

definition WithAllowCredentials :: "bool \<Rightarrow> cors_option" where
  "WithAllowCredentials allow c = c\<lparr>cc_AllowCredentials := allow\<rparr>"

definition WithAllowAllOrigins :: cors_option where
  "WithAllowAllOrigins c = c\<lparr>cc_AllowAllOrigins := True, cc_AllowedOrigins := []\<rparr>"

definition DefaultCORSMaxAge :: int where
  "DefaultCORSMaxAge = 86400"

definition DefaultCORSAllowOriginAll :: string where
  "DefaultCORSAllowOriginAll = ''*''"

text \<open>\<open>strings.Split(s, ", ")\<close> on the default lists, whose items hold no comma.\<close>

definition split_list :: "string \<Rightarrow> string list" where
  "split_list s = map trim_left_space (split_on CHR '','' s)"

definition default_cors_config :: "bool \<Rightarrow> cors_config" where
  "default_cors_config devMode =
     \<lparr>cc_AllowedOrigins = [],
      cc_AllowedMethods = split_list GetDefaultCORSAllowMethods,
      cc_AllowedHeaders = split_list GetDefaultCORSAllowHeaders,
      cc_ExposedHeaders = [],
      cc_MaxAge = DefaultCORSMaxAge,
      cc_AllowCredentials = False,
      cc_AllowAllOrigins = GetDefaultCORSAllowAllOrigins devMode\<rparr>"

definition cors_handler :: "cors_config \<Rightarrow> middleware" where
  "cors_handler config next_h r =
     (let origin = hdr_get (rq_Header r) HeaderNameOrigin;
          all = cc_AllowAllOrigins config;
          listed = (\<not> all \<and> cc_AllowedOrigins config \<noteq> [] \<and> origin \<in> set (cc_AllowedOrigins config))
      in set_if all HeaderNameAccessControlAllowOrigin DefaultCORSAllowOriginAll
         (set_if listed HeaderNameAccessControlAllowOrigin origin
         (set_if listed HeaderNameVary HeaderNameOrigin
         (set_if (cc_AllowedMethods config \<noteq> []) HeaderNameAccessControlAllowMethods
            (str_join '', '' (cc_AllowedMethods config))
         (set_if (cc_AllowedHeaders config \<noteq> []) HeaderNameAccessControlAllowHeaders
            (str_join '', '' (cc_AllowedHeaders config))
         (set_if (cc_ExposedHeaders config \<noteq> []) HeaderNameAccessControlExposeHeaders
            (str_join '', '' (cc_ExposedHeaders config))
         (set_header HeaderNameAccessControlMaxAge (itoa (cc_MaxAge config))
         (set_if (cc_AllowCredentials config) HeaderNameAccessControlAllowCredentials ''true''
         (if rq_Method r = ''OPTIONS'' then WriteHeader 204 Return else next_h r)))))))))"

definition CORS :: "bool \<Rightarrow> cors_option list \<Rightarrow> middleware" where
  "CORS devMode opts = cors_handler (apply_options opts (default_cors_config devMode))"

subsection \<open>The headers CORS leaves\<close>

lemma cors_names:
  "CanonicalHeaderKey HeaderNameAccessControlAllowOrigin = ''Access-Control-Allow-Origin''"
  "CanonicalHeaderKey HeaderNameVary = ''Vary''"
  "CanonicalHeaderKey HeaderNameAccessControlAllowMethods = ''Access-Control-Allow-Methods''"
  "CanonicalHeaderKey HeaderNameAccessControlAllowHeaders = ''Access-Control-Allow-Headers''"
  "CanonicalHeaderKey HeaderNameAccessControlExposeHeaders = ''Access-Control-Expose-Headers''"
  "CanonicalHeaderKey HeaderNameAccessControlMaxAge = ''Access-Control-Max-Age''"
  "CanonicalHeaderKey HeaderNameAccessControlAllowCredentials = ''Access-Control-Allow-Credentials''"
  by code_simp+

definition cors_admits :: "cors_config \<Rightarrow> request \<Rightarrow> string option" where
  "cors_admits config r =
     (if cc_AllowAllOrigins config then Some ''*''
      else if hdr_get (rq_Header r) HeaderNameOrigin \<in> set (cc_AllowedOrigins config)
        then Some (hdr_get (rq_Header r) HeaderNameOrigin) else None)"

definition cors_values :: "cors_config \<Rightarrow> request \<Rightarrow> header \<Rightarrow> string \<Rightarrow> string list" where
  "cors_values config r h name =
     (let canon = CanonicalHeaderKey name; origin = cors_admits config r
      in if cc_AllowCredentials config \<and> canon = ''Access-Control-Allow-Credentials'' then [''true'']
         else if canon = ''Access-Control-Max-Age'' then [itoa (cc_MaxAge config)]
         else if cc_ExposedHeaders config \<noteq> [] \<and> canon = ''Access-Control-Expose-Headers''
           then [str_join '', '' (cc_ExposedHeaders config)]
         else if cc_AllowedHeaders config \<noteq> [] \<and> canon = ''Access-Control-Allow-Headers''
           then [str_join '', '' (cc_AllowedHeaders config)]
         else if cc_AllowedMethods config \<noteq> [] \<and> canon = ''Access-Control-Allow-Methods''
           then [str_join '', '' (cc_AllowedMethods config)]
         else if origin \<noteq> None \<and> \<not> cc_AllowAllOrigins config \<and> canon = ''Vary'' then [''Origin'']
         else if origin \<noteq> None \<and> canon = ''Access-Control-Allow-Origin'' then [the origin]
         else hdr_values h name)"


text \<open>
  A preflight request is answered by the middleware alone: status 204, no body, whatever the
  inner handler is.
\<close>

lemma cors_preflight:
  assumes "rq_Method r = ''OPTIONS''"
  shows "w_status (fst (serve (CORS devMode opts next_h r))) = Some 204
    \<and> w_body (fst (serve (CORS devMode opts next_h r))) = []
    \<and> CORS devMode opts next_h r = CORS devMode opts next_h' r"
  using assms
  by (simp add: CORS_def cors_handler_def Let_def serve_def new_writer_def do_write_header_def
      informational_def implicit_ok_def)

lemma cors_preflight_witness:
  "w_status (fst (serve (CORS False [WithAllowedOrigins [''https://a'']] (\<lambda>_. Panic ''x'')
      (get_request\<lparr>rq_Method := ''OPTIONS''\<rparr>)))) = Some 204"
  using cors_preflight [of "get_request\<lparr>rq_Method := ''OPTIONS''\<rparr>" False
      "[WithAllowedOrigins [''https://a'']]" "\<lambda>_. Panic ''x''" "\<lambda>_. Return"] by (rule conjunct1) simp

text \<open>Outside development mode the default configuration admits no origin.\<close>

lemma cors_default_admits_none:
  "cors_admits (default_cors_config False) r = None"
  by (simp add: cors_admits_def default_cors_config_def GetDefaultCORSAllowAllOrigins_def)

section \<open>Security headers\<close>

record security_config =
  sc_XContentTypeOptions :: string
  sc_XFrameOptions :: string
  sc_XXSSProtection :: string
  sc_StrictTransportSecurity :: string
  sc_ReferrerPolicy :: string
  sc_ContentSecurityPolicy :: string
  sc_DisableXContentTypeOptions :: bool
  sc_DisableXFrameOptions :: bool
  sc_DisableXXSSProtection :: bool
  sc_DisableHSTS :: bool
  sc_DisableReferrerPolicy :: bool
  sc_DisableCSP :: bool

type_synonym security_option = "security_config \<Rightarrow> security_config"

definition WithXContentTypeOptions :: "string \<Rightarrow> security_option" where
  "WithXContentTypeOptions value c = c\<lparr>sc_XContentTypeOptions := value\<rparr>"

definition WithXFrameOptions :: "string \<Rightarrow> security_option" where
  "WithXFrameOptions value c = c\<lparr>sc_XFrameOptions := value\<rparr>"

definition WithXXSSProtection :: "string \<Rightarrow> security_option" where
  "WithXXSSProtection value c = c\<lparr>sc_XXSSProtection := value\<rparr>"

definition WithStrictTransportSecurity :: "string \<Rightarrow> security_option" where
  "WithStrictTransportSecurity value c = c\<lparr>sc_StrictTransportSecurity := value\<rparr>"

definition WithReferrerPolicy :: "string \<Rightarrow> security_option" where
  "WithReferrerPolicy value c = c\<lparr>sc_ReferrerPolicy := value\<rparr>"

definition WithContentSecurityPolicy :: "string \<Rightarrow> security_option" where
  "WithContentSecurityPolicy value c = c\<lparr>sc_ContentSecurityPolicy := value\<rparr>"

definition DisableXContentTypeOptions :: security_option where
  "DisableXContentTypeOptions c = c\<lparr>sc_DisableXContentTypeOptions := True\<rparr>"

definition DisableXFrameOptions :: security_option where
  "DisableXFrameOptions c = c\<lparr>sc_DisableXFrameOptions := True\<rparr>"

definition DisableXXSSProtection :: security_option where
  "DisableXXSSProtection c = c\<lparr>sc_DisableXXSSProtection := True\<rparr>"

definition DisableHSTS :: security_option where
  "DisableHSTS c = c\<lparr>sc_DisableHSTS := True\<rparr>"

definition DisableReferrerPolicy :: security_option where
  "DisableReferrerPolicy c = c\<lparr>sc_DisableReferrerPolicy := True\<rparr>"

definition DisableCSP :: security_option where
  "DisableCSP c = c\<lparr>sc_DisableCSP := True\<rparr>"

definition default_security_config :: security_config where
  "default_security_config =
     \<lparr>sc_XContentTypeOptions = ''nosniff'',
      sc_XFrameOptions = ''DENY'',
      sc_XXSSProtection = ''1; mode=block'',
      sc_StrictTransportSecurity = ''max-age=31536000; includeSubDomains'',
      sc_ReferrerPolicy = ''strict-origin-when-cross-origin'',
      sc_ContentSecurityPolicy = [],
      sc_DisableXContentTypeOptions = False, sc_DisableXFrameOptions = False,
      sc_DisableXXSSProtection = False, sc_DisableHSTS = False, sc_DisableReferrerPolicy = False,
      sc_DisableCSP = False\<rparr>"

definition security_handler :: "security_config \<Rightarrow> middleware" where
  "security_handler config next_h r =
     set_if (\<not> sc_DisableXContentTypeOptions config) HeaderNameXContentTypeOptions
       (sc_XContentTypeOptions config)
     (set_if (\<not> sc_DisableXFrameOptions config) HeaderNameXFrameOptions (sc_XFrameOptions config)
     (set_if (\<not> sc_DisableXXSSProtection config) HeaderNameXXSSProtection (sc_XXSSProtection config)
     (set_if (\<not> sc_DisableHSTS config) HeaderNameStrictTransportSecurity
        (sc_StrictTransportSecurity config)
     (set_if (\<not> sc_DisableReferrerPolicy config) HeaderNameReferrerPolicy (sc_ReferrerPolicy config)
     (set_if (\<not> sc_DisableCSP config \<and> sc_ContentSecurityPolicy config \<noteq> [])
        HeaderNameContentSecurityPolicy (sc_ContentSecurityPolicy config)
     (next_h r))))))"

definition SecurityHeaders :: "security_option list \<Rightarrow> middleware" where
  "SecurityHeaders opts = security_handler (apply_options opts default_security_config)"

lemma security_names:
  "CanonicalHeaderKey HeaderNameXContentTypeOptions = ''X-Content-Type-Options''"
  "CanonicalHeaderKey HeaderNameXFrameOptions = ''X-Frame-Options''"
  "CanonicalHeaderKey HeaderNameXXSSProtection = ''X-Xss-Protection''"
  "CanonicalHeaderKey HeaderNameStrictTransportSecurity = ''Strict-Transport-Security''"
  "CanonicalHeaderKey HeaderNameReferrerPolicy = ''Referrer-Policy''"
  "CanonicalHeaderKey HeaderNameContentSecurityPolicy = ''Content-Security-Policy''"
  by code_simp+

definition security_values :: "security_config \<Rightarrow> string \<Rightarrow> string option" where
  "security_values config name =
     (let canon = CanonicalHeaderKey name
      in if canon = ''X-Content-Type-Options'' \<and> \<not> sc_DisableXContentTypeOptions config
           then Some (sc_XContentTypeOptions config)
         else if canon = ''X-Frame-Options'' \<and> \<not> sc_DisableXFrameOptions config
           then Some (sc_XFrameOptions config)
         else if canon = ''X-Xss-Protection'' \<and> \<not> sc_DisableXXSSProtection config
           then Some (sc_XXSSProtection config)
         else if canon = ''Strict-Transport-Security'' \<and> \<not> sc_DisableHSTS config
           then Some (sc_StrictTransportSecurity config)
         else if canon = ''Referrer-Policy'' \<and> \<not> sc_DisableReferrerPolicy config
           then Some (sc_ReferrerPolicy config)
         else if canon = ''Content-Security-Policy'' \<and> \<not> sc_DisableCSP config
             \<and> sc_ContentSecurityPolicy config \<noteq> [] then Some (sc_ContentSecurityPolicy config)
         else None)"

lemma security_exec:
  "exec (security_handler config next_h r) w = exec (next_h r)
     (w\<lparr>w_header := w_header (fst (exec (security_handler config (\<lambda>_. Return) r) w))\<rparr>)"
  by (simp add: security_handler_def)

text \<open>
  Under every configuration the inner handler starts from a response where each security header
  that is not disabled has its configured value, and every other header is as it was.
\<close>

theorem security_headers_spec:
  "\<exists>h. exec (security_handler config next_h r) w = exec (next_h r) (w\<lparr>w_header := h\<rparr>)
    \<and> (\<forall>name. hdr_values h name =
        (case security_values config name of Some v \<Rightarrow> [v] | None \<Rightarrow> hdr_values (w_header w) name))"
proof -
  have "hdr_values (w_header (fst (exec (security_handler config (\<lambda>_. Return) r) w))) name =
      (case security_values config name of Some v \<Rightarrow> [v] | None \<Rightarrow> hdr_values (w_header w) name)" for name
    by (simp add: security_handler_def security_values_def Let_def hdr_values_set_if security_names)
  then show ?thesis using security_exec [of config next_h r w] by blast
qed

end
