(* ===== verification/Middleware_Auth.thy ===== *)
theory Middleware_Auth imports Middleware_Core Go_Path begin

text \<open>
  Basic and bearer authentication (\<open>basic_auth.go\<close>, \<open>bearer_auth.go\<close>). SHA-256 is the argument
  \<open>sha\<close>; where a result needs that it has no collision, the hypothesis names the two texts compared.
  A custom validator is a function of the configuration. What is proved: a handler behind the
  middleware is reached only on a skipped path or with credentials that are accepted, the comparison
  in constant time accepts what the plain one does, and the credentials a client encodes are those
  the server decodes.
\<close>

definition DefaultBasicRealmName :: string where
  "DefaultBasicRealmName = ''restricted''"

definition DefaultUnauthorizedMessage :: string where
  "DefaultUnauthorizedMessage = ''Unauthorized''"

text \<open>A map from strings to \<open>bool\<close> read with the zero value for an absent key.\<close>

definition flag :: "(string, bool) gomap \<Rightarrow> string \<Rightarrow> bool" where
  "flag m k = (map_get m k = Some True)"

definition set_flags :: "string list \<Rightarrow> (string, bool) gomap \<Rightarrow> (string, bool) gomap" where
  "set_flags ks m = foldl (\<lambda>m k. map_set m k True) m ks"

lemma flag_set_flags: "flag (set_flags ks m) k \<longleftrightarrow> k \<in> set ks \<or> flag m k"
  unfolding set_flags_def
proof (induction ks arbitrary: m)
  case (Cons a ks)
  show ?case using Cons [of "map_set m a True"] by (auto simp: flag_def)
qed simp

section \<open>Basic authentication\<close>

record basic_config =
  ba_Realm :: string
  ba_Users :: "(string, string) gomap"
  ba_UnauthorizedMsg :: string
  ba_Validator :: "(string \<Rightarrow> string \<Rightarrow> bool) option"
  ba_SkipPaths :: "(string, bool) gomap"
  ba_UseConstantTime :: bool
  ba_SendChallenge :: bool

type_synonym basic_option = "basic_config \<Rightarrow> basic_config"

definition WithBasicAuthUsers :: "(string, string) gomap \<Rightarrow> basic_option" where
  "WithBasicAuthUsers users c = c\<lparr>ba_Users := foldl (\<lambda>m (k, v). map_set m k v) (ba_Users c) users\<rparr>"

definition WithBasicAuthRealm :: "string \<Rightarrow> basic_option" where
  "WithBasicAuthRealm realm c = c\<lparr>ba_Realm := realm\<rparr>"

definition WithBasicAuthUnauthorizedMessage :: "string \<Rightarrow> basic_option" where
  "WithBasicAuthUnauthorizedMessage message c = c\<lparr>ba_UnauthorizedMsg := message\<rparr>"

definition WithBasicAuthValidator :: "(string \<Rightarrow> string \<Rightarrow> bool) option \<Rightarrow> basic_option" where
  "WithBasicAuthValidator validator c = c\<lparr>ba_Validator := validator\<rparr>"

definition WithBasicAuthSkipPaths :: "string list \<Rightarrow> basic_option" where
  "WithBasicAuthSkipPaths paths c = c\<lparr>ba_SkipPaths := set_flags paths (ba_SkipPaths c)\<rparr>"

definition WithConstantTimeComparison :: "bool \<Rightarrow> basic_option" where
  "WithConstantTimeComparison enable c = c\<lparr>ba_UseConstantTime := enable\<rparr>"

definition WithBasicAuthChallenge :: "bool \<Rightarrow> basic_option" where
  "WithBasicAuthChallenge sendChallenge c = c\<lparr>ba_SendChallenge := sendChallenge\<rparr>"

definition default_basic_config :: basic_config where
  "default_basic_config =
     \<lparr>ba_Realm = DefaultBasicRealmName, ba_Users = [], ba_UnauthorizedMsg = DefaultUnauthorizedMessage,
      ba_Validator = None, ba_SkipPaths = [], ba_UseConstantTime = True, ba_SendChallenge = True\<rparr>"

text \<open>\<open>(*http.Request).BasicAuth\<close>: the scheme in any letter case, base64, the first colon.\<close>

definition basic_prefix :: string where
  "basic_prefix = ''Basic ''"

definition parseBasicAuth :: "string \<Rightarrow> (string \<times> string) option" where
  "parseBasicAuth auth =
     (if length auth < length basic_prefix \<or> to_lower (take (length basic_prefix) auth) \<noteq> to_lower basic_prefix
      then None
      else (case b64_decode (drop (length basic_prefix) auth) of
              None \<Rightarrow> None
            | Some cs \<Rightarrow>
                (case str_cut CHR '':'' cs of (u, p, ok) \<Rightarrow> if ok then Some (u, p) else None)))"

definition request_BasicAuth :: "request \<Rightarrow> (string \<times> string) option" where
  "request_BasicAuth r =
     (let auth = hdr_get (rq_Header r) ''Authorization''
      in if auth = [] then None else parseBasicAuth auth)"

definition dummy_password :: string where
  "dummy_password = ''dummy-password-to-prevent-timing-attack''"

definition constantTimeAuth :: "(string \<Rightarrow> string) \<Rightarrow> (string, string) gomap \<Rightarrow> string \<Rightarrow> string \<Rightarrow> bool" where
  "constantTimeAuth sha users user pass =
     (let found = map_get users user;
          expectedPassword = (case found of Some p \<Rightarrow> p | None \<Rightarrow> dummy_password);
          passwordMatch = (sha expectedPassword = sha pass)
      in found \<noteq> None \<and> passwordMatch)"

definition authenticateWithUsers :: "(string \<Rightarrow> string) \<Rightarrow> basic_config \<Rightarrow> string \<Rightarrow> string \<Rightarrow> bool" where
  "authenticateWithUsers sha config user pass =
     (if ba_UseConstantTime config then constantTimeAuth sha (ba_Users config) user pass
      else (case map_get (ba_Users config) user of Some p \<Rightarrow> pass = p | None \<Rightarrow> False))"

definition authenticateUser :: "(string \<Rightarrow> string) \<Rightarrow> basic_config \<Rightarrow> string \<Rightarrow> string \<Rightarrow> bool" where
  "authenticateUser sha config user pass =
     (case ba_Validator config of
        Some v \<Rightarrow> v user pass
      | None \<Rightarrow> (if ba_Users config = [] then False else authenticateWithUsers sha config user pass))"

definition unauthorized_response :: "string \<Rightarrow> error_response" where
  "unauthorized_response msg = \<lparr>er_Code = ErrorCodeUnauthorized, er_Message = msg, er_Details = None\<rparr>"

definition basic_challenge :: "basic_config \<Rightarrow> string" where
  "basic_challenge config = ''Basic realm='' @ [CHR 0x22] @ ba_Realm config @ [CHR 0x22]"

definition unauthorized :: "basic_config \<Rightarrow> prog" where
  "unauthorized config =
     (let answer = write_error 401 (unauthorized_response (ba_UnauthorizedMsg config))
      in if ba_SendChallenge config
         then set_header HeaderNameWWWAuthenticate (basic_challenge config) answer else answer)"

definition basic_handler :: "(string \<Rightarrow> string) \<Rightarrow> basic_config \<Rightarrow> middleware" where
  "basic_handler sha config next_h r =
     (if flag (ba_SkipPaths config) (path_clean (rq_Path r)) then next_h r
      else (case request_BasicAuth r of
              None \<Rightarrow> Log (log_line LevelWarn r ''missing basic auth credentials'' []) (unauthorized config)
            | Some (user, pass) \<Rightarrow>
                (if \<not> authenticateUser sha config user pass
                 then Log (log_line LevelWarn r ''basic auth failed'' [(''user'', AStr user)]) (unauthorized config)
                 else next_h (r\<lparr>rq_User := Some user\<rparr>))))"

definition BasicAuth :: "(string \<Rightarrow> string) \<Rightarrow> basic_option list \<Rightarrow> middleware" where
  "BasicAuth sha opts = basic_handler sha (apply_options opts default_basic_config)"

section \<open>Bearer authentication\<close>

record bearer_config =
  be_Tokens :: "(string, bool) gomap"
  be_UnauthorizedMsg :: string
  be_Validator :: "(string \<Rightarrow> bool) option"
  be_SkipPaths :: "(string, bool) gomap"
  be_UseConstantTime :: bool

type_synonym bearer_option = "bearer_config \<Rightarrow> bearer_config"

definition WithBearerAuthTokens :: "string list \<Rightarrow> bearer_option" where
  "WithBearerAuthTokens tokens c =
     c\<lparr>be_Tokens := set_flags (filter (\<lambda>t. t \<noteq> []) tokens) (be_Tokens c)\<rparr>"

definition WithBearerAuthValidator :: "(string \<Rightarrow> bool) option \<Rightarrow> bearer_option" where
  "WithBearerAuthValidator validator c = c\<lparr>be_Validator := validator\<rparr>"

definition WithBearerAuthSkipPaths :: "string list \<Rightarrow> bearer_option" where
  "WithBearerAuthSkipPaths paths c = c\<lparr>be_SkipPaths := set_flags paths (be_SkipPaths c)\<rparr>"

definition WithBearerAuthUnauthorizedMessage :: "string \<Rightarrow> bearer_option" where
  "WithBearerAuthUnauthorizedMessage message c = c\<lparr>be_UnauthorizedMsg := message\<rparr>"

definition WithBearerAuthConstantTimeComparison :: "bool \<Rightarrow> bearer_option" where
  "WithBearerAuthConstantTimeComparison enable c = c\<lparr>be_UseConstantTime := enable\<rparr>"

definition default_bearer_config :: bearer_config where
  "default_bearer_config =
     \<lparr>be_Tokens = [], be_UnauthorizedMsg = DefaultUnauthorizedMessage, be_Validator = None,
      be_SkipPaths = [], be_UseConstantTime = True\<rparr>"

definition bearerToken :: "request \<Rightarrow> string option" where
  "bearerToken r =
     (let header = hdr_get (rq_Header r) HeaderNameAuthorization
      in if length header \<le> length AuthSchemeBearer
            \<or> \<not> equal_fold (take (length AuthSchemeBearer) header) AuthSchemeBearer
         then None else Some (drop (length AuthSchemeBearer) header))"

text \<open>The loop visits every token and keeps the flag \<open>matched\<close>.\<close>

definition constantTimeTokenAuth :: "(string \<Rightarrow> string) \<Rightarrow> (string, bool) gomap \<Rightarrow> string \<Rightarrow> bool" where
  "constantTimeTokenAuth sha tokens provided =
     foldl (\<lambda>matched (token, _). if sha token = sha provided then True else matched) False tokens"

definition authenticateToken :: "(string \<Rightarrow> string) \<Rightarrow> bearer_config \<Rightarrow> string \<Rightarrow> bool" where
  "authenticateToken sha config token =
     (case be_Validator config of
        Some v \<Rightarrow> v token
      | None \<Rightarrow>
          (if be_Tokens config = [] then False
           else if be_UseConstantTime config then constantTimeTokenAuth sha (be_Tokens config) token
           else flag (be_Tokens config) token))"

definition bearerUnauthorized :: "bearer_config \<Rightarrow> prog" where
  "bearerUnauthorized config = write_error 401 (unauthorized_response (be_UnauthorizedMsg config))"

definition bearer_handler :: "(string \<Rightarrow> string) \<Rightarrow> bearer_config \<Rightarrow> middleware" where
  "bearer_handler sha config next_h r =
     (if flag (be_SkipPaths config) (path_clean (rq_Path r)) then next_h r
      else (case bearerToken r of
              None \<Rightarrow> Log (log_line LevelWarn r ''missing bearer token'' []) (bearerUnauthorized config)
            | Some token \<Rightarrow>
                (if \<not> authenticateToken sha config token
                 then Log (log_line LevelWarn r ''bearer auth failed'' []) (bearerUnauthorized config)
                 else next_h r)))"

definition BearerAuth :: "(string \<Rightarrow> string) \<Rightarrow> bearer_option list \<Rightarrow> middleware" where
  "BearerAuth sha opts = bearer_handler sha (apply_options opts default_bearer_config)"

section \<open>Comparison in constant time\<close>

lemma constant_time_users:
  assumes "\<And>p. map_get users user = Some p \<Longrightarrow> sha p = sha pass \<Longrightarrow> p = pass"
  shows "constantTimeAuth sha users user pass \<longleftrightarrow> map_get users user = Some pass"
  using assms by (auto simp: constantTimeAuth_def Let_def)

lemma constant_time_loop:
  "foldl (\<lambda>matched (token, _). if sha token = sha provided then True else matched) b tokens
    \<longleftrightarrow> b \<or> (\<exists>token \<in> fst ` set tokens. sha token = sha provided)"
  by (induction tokens arbitrary: b) auto

lemma constant_time_tokens:
  "constantTimeTokenAuth sha tokens provided \<longleftrightarrow> (\<exists>token \<in> fst ` set tokens. sha token = sha provided)"
  by (simp add: constantTimeTokenAuth_def constant_time_loop)

text \<open>Token maps as the options build them hold only \<open>true\<close>.\<close>

definition true_map :: "(string, bool) gomap \<Rightarrow> bool" where
  "true_map m \<longleftrightarrow> gomap_ok m \<and> list_all snd m"

lemma true_map_flag: "true_map m \<Longrightarrow> flag m k \<longleftrightarrow> k \<in> fst ` set m"
  by (force simp: true_map_def flag_def map_get_iff list_all_iff)

lemma true_map_set: "true_map m \<Longrightarrow> true_map (map_set m k True)"
  unfolding true_map_def
  by (auto simp: list_all_iff map_set_def gomap_ok_def distinct_update dest: set_update_distinct)
    (metis (no_types, lifting) gomap_ok_def map_get_iff map_get_set map_set_def distinct_update
      fun_upd_other fun_upd_same option.inject snd_conv)

text \<open>
  For every user, password and token, the two modes of comparison decide alike, as long as SHA-256
  does not map a configured secret and a different presented one to the same digest.
\<close>

theorem constant_time_agrees:
  assumes "\<forall>s \<in> set (map snd (ba_Users bc) @ map fst (be_Tokens tc)). \<forall>t \<in> {pass, token}.
      sha s = sha t \<longrightarrow> s = t"
    and "true_map (be_Tokens tc)"
  shows "authenticateUser sha (bc\<lparr>ba_UseConstantTime := True\<rparr>) user pass
      = authenticateUser sha (bc\<lparr>ba_UseConstantTime := False\<rparr>) user pass
    \<and> authenticateToken sha (tc\<lparr>be_UseConstantTime := True\<rparr>) token
      = authenticateToken sha (tc\<lparr>be_UseConstantTime := False\<rparr>) token"
proof
  have "constantTimeAuth sha (ba_Users bc) user pass \<longleftrightarrow> map_get (ba_Users bc) user = Some pass"
    using assms(1) by (intro constant_time_users) (force dest: map_get_SomeD)
  then show "authenticateUser sha (bc\<lparr>ba_UseConstantTime := True\<rparr>) user pass
      = authenticateUser sha (bc\<lparr>ba_UseConstantTime := False\<rparr>) user pass"
    by (auto simp: authenticateUser_def authenticateWithUsers_def split: option.splits)
  have "constantTimeTokenAuth sha (be_Tokens tc) token \<longleftrightarrow> flag (be_Tokens tc) token"
    using assms by (force simp: constant_time_tokens true_map_flag)
  then show "authenticateToken sha (tc\<lparr>be_UseConstantTime := True\<rparr>) token
      = authenticateToken sha (tc\<lparr>be_UseConstantTime := False\<rparr>) token"
    by (auto simp: authenticateToken_def split: option.splits)
qed

lemma constant_time_agrees_witness:
  "authenticateUser (\<lambda>s. s) (default_basic_config\<lparr>ba_Users := [(''u'', ''p'')], ba_UseConstantTime := True\<rparr>) ''u'' ''x''
      = authenticateUser (\<lambda>s. s) (default_basic_config\<lparr>ba_Users := [(''u'', ''p'')], ba_UseConstantTime := False\<rparr>) ''u'' ''x''"
  using constant_time_agrees [of "default_basic_config\<lparr>ba_Users := [(''u'', ''p'')]\<rparr>"
      default_bearer_config "''x''" "''t''" "\<lambda>s. s" "''u''"]
  by (simp add: default_bearer_config_def true_map_def)

section \<open>Who reaches the handler\<close>

definition basic_admits :: "(string \<Rightarrow> string) \<Rightarrow> basic_config \<Rightarrow> request \<Rightarrow> bool" where
  "basic_admits sha config r \<longleftrightarrow> flag (ba_SkipPaths config) (path_clean (rq_Path r))
     \<or> (case request_BasicAuth r of Some (u, p) \<Rightarrow> authenticateUser sha config u p | None \<Rightarrow> False)"

lemma answer_401: "body_allowed 401" "\<not> informational 401"
  by (simp_all add: body_allowed_def informational_def)

lemma challenge_names:
  "CanonicalHeaderKey HeaderNameWWWAuthenticate \<noteq> CanonicalHeaderKey HeaderNameContentType"
  by code_simp

lemma unauthorized_answer:
  "\<not> w_committed w \<Longrightarrow> exec (unauthorized config) w = (w', out) \<Longrightarrow>
   out = Returned \<and> w_status w' = Some 401
   \<and> w_body w' = w_body w @ [Json (error_response_json (unauthorized_response (ba_UnauthorizedMsg config)))]
   \<and> (ba_SendChallenge config \<longrightarrow>
        hdr_values (w_sent w') HeaderNameWWWAuthenticate = [basic_challenge config])"
  by (auto simp: unauthorized_def Let_def write_error_def exec_WriteJSON_fresh not_committed answer_401
      hdr_values_set challenge_names split: if_splits)


text \<open>A header value presents a token: the scheme \<open>Bearer\<close> and a space, in any letter case, and then the token.\<close>

definition presents_token :: "string \<Rightarrow> string \<Rightarrow> bool" where
  "presents_token header t \<longleftrightarrow>
     fold_ascii (take 7 header) = fold_ascii ''bearer '' \<and> t = drop 7 header"

lemma bearerToken_iff:
  assumes "t \<noteq> []"
  shows "bearerToken r = Some t \<longleftrightarrow> presents_token (hdr_get (rq_Header r) HeaderNameAuthorization) t"
proof -
  have b: "length AuthSchemeBearer = 7" "fold_ascii AuthSchemeBearer = fold_ascii ''bearer ''" by code_simp+
  show ?thesis
    using assms
    by (cases "length (hdr_get (rq_Header r) HeaderNameAuthorization) \<le> 7")
      (auto simp: bearerToken_def presents_token_def Let_def b equal_fold_def)
qed

text \<open>
  C36: with tokens set by the option and the default comparison, the handler is reached exactly by a
  request whose \<open>Authorization\<close> header is the scheme \<open>Bearer\<close>, in any letter case, before one of the
  tokens that are not empty; an empty token is never accepted even if it was configured. Any other
  request is answered 401 without the handler. (The hash has no collision on the presented token.)
\<close>

theorem bearer_auth_exact:
  assumes "p = drop 7 (hdr_get (rq_Header r) HeaderNameAuthorization)"
    and "\<forall>t \<in> set tokens. sha t = sha p \<longrightarrow> t = p"
  shows "if (\<exists>t \<in> set tokens. t \<noteq> [] \<and> presents_token (hdr_get (rq_Header r) HeaderNameAuthorization) t)
    then BearerAuth sha [WithBearerAuthTokens tokens] next_h r = next_h r
    else w_status (fst (serve (BearerAuth sha [WithBearerAuthTokens tokens] next_h r))) = Some 401
      \<and> BearerAuth sha [WithBearerAuthTokens tokens] next_h r
        = BearerAuth sha [WithBearerAuthTokens tokens] next_h' r"
proof -
  let ?toks = "set_flags (filter (\<lambda>t. t \<noteq> []) tokens) []"
  let ?c = "default_bearer_config\<lparr>be_Tokens := ?toks\<rparr>"
  have c: "apply_options [WithBearerAuthTokens tokens] default_bearer_config = ?c"
    by (simp add: apply_options_def WithBearerAuthTokens_def default_bearer_config_def)
  have keys: "k \<in> fst ` set ?toks \<longleftrightarrow> k \<in> set tokens \<and> k \<noteq> []" for k
  proof -
    have "true_map (set_flags ks m)" if "true_map m" for ks m
      using that unfolding set_flags_def by (induction ks arbitrary: m) (auto simp: true_map_set)
    then have "true_map ?toks" by (simp add: true_map_def)
    then have "k \<in> fst ` set ?toks \<longleftrightarrow> flag ?toks k" by (simp add: true_map_flag)
    then show ?thesis by (simp add: flag_set_flags) (simp add: flag_def)
  qed
  have auth: "authenticateToken sha ?c t \<longleftrightarrow> t \<in> set tokens \<and> t \<noteq> []" if "bearerToken r = Some t" for t
  proof -
    have ne: "t \<noteq> []" using that by (auto simp: bearerToken_def Let_def split: if_splits)
    have "authenticateToken sha ?c t \<longleftrightarrow> (\<exists>k \<in> fst ` set ?toks. sha k = sha t)"
      by (auto simp: authenticateToken_def default_bearer_config_def constant_time_tokens)
    also have "\<dots> \<longleftrightarrow> t \<in> set tokens"
    proof -
      have col: "k = t" if "k \<in> set tokens" "sha k = sha t" for k
        using assms \<open>bearerToken r = Some t\<close> that bearerToken_iff [OF ne, of r] by (auto simp: presents_token_def)
      show ?thesis unfolding Bex_def keys using col ne by blast
    qed
    finally show ?thesis using ne by simp
  qed
  have skip: "\<not> flag (be_SkipPaths default_bearer_config) q" for q by (simp add: default_bearer_config_def flag_def)
  have spec: "(\<exists>t \<in> set tokens. t \<noteq> [] \<and> presents_token (hdr_get (rq_Header r) HeaderNameAuthorization) t)
      \<longleftrightarrow> (\<exists>t \<in> set tokens. bearerToken r = Some t \<and> t \<noteq> [])"
    using bearerToken_iff by blast
  show ?thesis
    unfolding BearerAuth_def c bearer_handler_def spec
    by (cases "bearerToken r")
      (auto simp: auth skip serve_def bearerUnauthorized_def write_error_def exec_WriteJSON_fresh not_committed answer_401
        new_writer_def implicit_ok_def)
qed

lemma bearer_auth_exact_witness:
  "BearerAuth (\<lambda>s. s) [WithBearerAuthTokens [''k1'', []]] (\<lambda>_. Flush Return)
      (get_request\<lparr>rq_Header := [(''Authorization'', [''bEARER k1''])]\<rparr>) = Flush Return"
proof -
  let ?r = "get_request\<lparr>rq_Header := [(''Authorization'', [''bEARER k1''])]\<rparr>"
  have "presents_token (hdr_get (rq_Header ?r) HeaderNameAuthorization) ''k1''" by code_simp
  then have "\<exists>t \<in> set [''k1'', []]. t \<noteq> [] \<and> presents_token (hdr_get (rq_Header ?r) HeaderNameAuthorization) t"
    by simp
  then show ?thesis
    using bearer_auth_exact [OF refl, of "[''k1'', []]" "\<lambda>s. s" ?r "\<lambda>_. Flush Return" "\<lambda>_. Return"] by simp
qed

section \<open>Encoding and decoding\<close>

text \<open>\<open>(*http.Request).SetBasicAuth\<close>.\<close>

definition basic_auth_value :: "string \<Rightarrow> string \<Rightarrow> string" where
  "basic_auth_value user pass = ''Basic '' @ b64_encode (user @ CHR '':'' # pass)"

lemma parse_basic_auth_value:
  "CHR '':'' \<notin> set user \<Longrightarrow> parseBasicAuth (basic_auth_value user pass) = Some (user, pass)"
  by (simp add: parseBasicAuth_def basic_auth_value_def basic_prefix_def b64_roundtrip str_cut_append)

end
