(* ===== verification/Middleware_Writers.thy ===== *)
theory Middleware_Writers imports Middleware_Core Go_Path begin

text \<open>
  The middlewares that wrap the response writer or the control flow of the inner handler: the request
  logger (\<open>logger.go\<close>), panic recovery (\<open>recovery.go\<close>) and the timeout (\<open>timeout.go\<close>). Each is a
  translation of the inner handler's program, operation by operation, which is what its wrapped
  \<open>ResponseWriter\<close> does to the handler's calls.
\<close>

section \<open>The logger\<close>

record logger_config =
  lc_LogLevel :: int
  lc_Message :: string
  lc_SkipPaths :: "(string, bool) gomap"
  lc_ExtraFields :: "(string, attr) gomap"
  lc_IncludeQuery :: bool
  lc_IncludeHeaders :: bool
  lc_HeaderFields :: "string list"

type_synonym logger_option = "logger_config \<Rightarrow> logger_config"

definition WithLogLevel :: "int \<Rightarrow> logger_option" where
  "WithLogLevel level c = c\<lparr>lc_LogLevel := level\<rparr>"

definition WithLogMessage :: "string \<Rightarrow> logger_option" where
  "WithLogMessage message c = c\<lparr>lc_Message := message\<rparr>"

definition WithSkipPaths :: "string list \<Rightarrow> logger_option" where
  "WithSkipPaths paths c = c\<lparr>lc_SkipPaths := foldl (\<lambda>m k. map_set m k True) (lc_SkipPaths c) paths\<rparr>"

definition WithExtraFields :: "(string, attr) gomap \<Rightarrow> logger_option" where
  "WithExtraFields extra c =
     c\<lparr>lc_ExtraFields := foldl (\<lambda>m (k, v). map_set m k v) (lc_ExtraFields c) extra\<rparr>"

definition WithIncludeQuery :: "bool \<Rightarrow> logger_option" where
  "WithIncludeQuery include c = c\<lparr>lc_IncludeQuery := include\<rparr>"

definition WithIncludeHeaders :: "string list \<Rightarrow> logger_option" where
  "WithIncludeHeaders headers c =
     c\<lparr>lc_IncludeHeaders := headers \<noteq> [], lc_HeaderFields := headers\<rparr>"

definition default_logger_config :: logger_config where
  "default_logger_config =
     \<lparr>lc_LogLevel = LevelInfo, lc_Message = ''HTTP request'', lc_SkipPaths = [], lc_ExtraFields = [],
      lc_IncludeQuery = True, lc_IncludeHeaders = False, lc_HeaderFields = []\<rparr>"

text \<open>
  The wrapped writer keeps the status of the first \<open>WriteHeader\<close> and whether there was one; \<open>Write\<close>,
  \<open>Flush\<close> and \<open>Hijack\<close> go to the inner writer. The log line is deferred: it is written when the handler returns or
  panics.
\<close>

primrec logger_writer :: "prog \<Rightarrow> int \<Rightarrow> bool \<Rightarrow> (int \<Rightarrow> log_entry) \<Rightarrow> prog" where
  "logger_writer Return sc written line = Log (line sc) Return"
| "logger_writer (Panic v) sc written line = Log (line sc) (Panic v)"
| "logger_writer (Crash v) sc written line = Crash v"
| "logger_writer (ModHeader f p) sc written line = ModHeader f (logger_writer p sc written line)"
| "logger_writer (GetHeader k) sc written line = GetHeader (\<lambda>h. logger_writer (k h) sc written line)"
| "logger_writer (WriteHeader c p) sc written line =
     (if \<not> written then WriteHeader c (logger_writer p c True line)
      else logger_writer p sc written line)"
| "logger_writer (Write b k) sc written line = Write b (\<lambda>ok. logger_writer (k ok) sc written line)"
| "logger_writer (Flush p) sc written line = Flush (logger_writer p sc written line)"
| "logger_writer (Hijack k) sc written line = Hijack (\<lambda>ok. logger_writer (k ok) sc written line)"
| "logger_writer (Log e p) sc written line = Log e (logger_writer p sc written line)"

definition logger_scope :: "request \<Rightarrow> request" where
  "logger_scope r =
     scope_set [(FieldMethod, rq_Method r), (FieldPath, rq_Path r), (FieldIP, GetClientIP r)] r"

definition logger_line :: "logger_config \<Rightarrow> string \<Rightarrow> request \<Rightarrow> int \<Rightarrow> log_entry" where
  "logger_line config elapsed r status =
     log_line (lc_LogLevel config) (logger_scope r) (lc_Message config)
       ([(FieldStatus, AInt status), (FieldDuration, AStr elapsed),
         (FieldUserAgent, AStr (hdr_get (rq_Header r) HeaderNameUserAgent))]
        @ (if lc_IncludeQuery config then [(FieldQuery, AStr (rq_RawQuery r))] else [])
        @ lc_ExtraFields config
        @ (if lc_IncludeHeaders config
           then [(''header_'' @ h, AStr (hdr_get (rq_Header r) h)).
                   h \<leftarrow> lc_HeaderFields config, hdr_get (rq_Header r) h \<noteq> []] else []))"

definition logger_handler :: "logger_config \<Rightarrow> string \<Rightarrow> middleware" where
  "logger_handler config elapsed next_h r =
     (if map_get (lc_SkipPaths config) (path_clean (rq_Path r)) = Some True then next_h r
      else logger_writer (next_h (logger_scope r)) 200 False (logger_line config elapsed r))"

definition Logger :: "string \<Rightarrow> logger_option list \<Rightarrow> middleware" where
  "Logger elapsed opts = logger_handler (apply_options opts default_logger_config) elapsed"

text \<open>
  What a handler may do for the wrapped writer to see its status: it sends no informational status,
  and no status after it has begun to write without one or has taken over the connection. The third argument is \<open>None\<close> before the first
  output, then whether the status was sent by \<open>WriteHeader\<close>.
\<close>

primrec orderly :: "prog \<Rightarrow> bool option \<Rightarrow> bool" where
  "orderly Return st = True"
| "orderly (Panic v) st = True"
| "orderly (Crash v) st = True"
| "orderly (ModHeader f p) st = orderly p st"
| "orderly (GetHeader k) st = (\<forall>h. orderly (k h) st)"
| "orderly (WriteHeader c p) st =
     (case st of None \<Rightarrow> \<not> informational c \<and> orderly p (Some True)
      | Some explicit \<Rightarrow> explicit \<and> orderly p st)"
| "orderly (Write b k) st = (\<forall>ok. orderly (k ok) (if st = None then Some False else st))"
| "orderly (Flush p) st = orderly p (if st = None then Some False else st)"
| "orderly (Hijack k) st =
     (orderly (k False) st \<and> orderly (k True) (if st = None then Some False else st))"
| "orderly (Log e p) st = orderly p st"

definition final_status :: "writer \<Rightarrow> int" where
  "final_status w = (case w_status w of Some c \<Rightarrow> c | None \<Rightarrow> 200)"

definition add_line :: "(int \<Rightarrow> log_entry) \<Rightarrow> writer \<times> outcome \<Rightarrow> writer \<times> outcome" where
  "add_line line res =
     (case res of
        (w, Crashed v) \<Rightarrow> (w, Crashed v)
      | (w, out) \<Rightarrow> (w\<lparr>w_log := w_log w @ [line (final_status w)]\<rparr>, out))"

definition logger_sees :: "bool option \<Rightarrow> int \<Rightarrow> bool \<Rightarrow> writer \<Rightarrow> bool" where
  "logger_sees st sc written w =
     (case st of
        None \<Rightarrow> \<not> w_committed w \<and> \<not> written \<and> sc = 200
      | Some True \<Rightarrow> w_status w = Some sc \<and> written
      | Some False \<Rightarrow> w_committed w \<and> final_status w = 200 \<and> \<not> written \<and> sc = 200)"

text \<open>An operation settles the status: it commits the response, to 200 if it was not committed.\<close>

definition settles :: "writer \<Rightarrow> writer \<Rightarrow> bool" where
  "settles w w' \<longleftrightarrow> w_committed w' \<and> final_status w' = final_status w
     \<and> (w_status w \<noteq> None \<longrightarrow> w_status w' = w_status w)"

lemma implicit_ok_settles: "settles w (implicit_ok w)"
  by (auto simp: settles_def implicit_ok_def do_write_header_def final_status_def informational_def w_committed_def)

lemma write_settles: "settles w (snd (do_write b w))"
  by (auto simp: settles_def do_write_def implicit_ok_def do_write_header_def final_status_def
      informational_def w_committed_def Let_def)

lemma settles_log [simp]: "settles w (w'\<lparr>w_flushed := f\<rparr>) = settles w w'"
  by (simp add: settles_def w_committed_def final_status_def)

lemma hijack_settles: "settles w (w\<lparr>w_hijacked := True\<rparr>)"
  by (simp add: settles_def w_committed_def final_status_def)

lemma logger_sees_settled:
  "logger_sees st sc written w \<Longrightarrow> settles w w' \<Longrightarrow>
   logger_sees (if st = None then Some False else st) sc written w'"
  by (auto simp: logger_sees_def settles_def not_committed final_status_def split: option.splits bool.splits)

lemma logger_sees_final: "logger_sees st sc written w \<Longrightarrow> final_status w = sc"
  by (auto simp: logger_sees_def not_committed final_status_def split: option.splits bool.splits)

lemma logger_sees_update:
  "logger_sees st sc written (w\<lparr>w_header := h\<rparr>) = logger_sees st sc written w"
  "logger_sees st sc written (w\<lparr>w_log := l\<rparr>) = logger_sees st sc written w"
  by (simp_all add: logger_sees_def final_status_def split: option.split bool.split)

lemma logger_writer_exec:
  "orderly p st \<Longrightarrow> logger_sees st sc written w \<Longrightarrow>
   exec (logger_writer p sc written line) w = add_line line (exec p w)"
proof (induction p arbitrary: st sc written w)
  case (ModHeader f p)
  then show ?case by (simp add: logger_sees_update)
next
  case (GetHeader k)
  show ?case using GetHeader.prems by (simp add: GetHeader.IH [of _ st])
next
  case (WriteHeader c p)
  show ?case
  proof (cases st)
    case None
    with WriteHeader.prems have "orderly p (Some True)" "logger_sees (Some True) c True (do_write_header c w)"
      by (auto simp: logger_sees_def do_write_header_def not_committed)
    from WriteHeader.IH [OF this] WriteHeader.prems None show ?thesis by (simp add: logger_sees_def)
  next
    case (Some x)
    with WriteHeader.prems have "written" "orderly p st" "w_status w = Some sc"
      by (auto simp: logger_sees_def split: bool.splits)
    with WriteHeader.IH [OF this(2) WriteHeader.prems(2)] show ?thesis
      by (simp add: status_stable_write_header)
  qed
next
  case (Write b k)
  let ?r = "do_write b w"
  have "orderly (k (fst ?r)) (if st = None then Some False else st)" using Write.prems(1) by simp
  moreover have "logger_sees (if st = None then Some False else st) sc written (snd ?r)"
    using Write.prems(2) write_settles by (rule logger_sees_settled)
  ultimately have "exec (logger_writer (k (fst ?r)) sc written line) (snd ?r)
      = add_line line (exec (k (fst ?r)) (snd ?r))"
    by (intro Write.IH) simp_all
  then show ?case by (simp add: Let_def)
next
  case (Flush p)
  have "logger_sees (if st = None then Some False else st) sc written ((implicit_ok w)\<lparr>w_flushed := True\<rparr>)"
    by (rule logger_sees_settled [OF Flush.prems(2)]) (simp add: implicit_ok_settles)
  with Flush show ?case by simp
next
  case (Hijack k)
  have "logger_sees (if st = None then Some False else st) sc written (w\<lparr>w_hijacked := True\<rparr>)"
    using Hijack.prems(2) hijack_settles by (rule logger_sees_settled)
  then have "exec (logger_writer (k True) sc written line) (w\<lparr>w_hijacked := True\<rparr>)
      = add_line line (exec (k True) (w\<lparr>w_hijacked := True\<rparr>))"
    using Hijack.prems(1) by (intro Hijack.IH) simp_all
  moreover have "exec (logger_writer (k False) sc written line) w = add_line line (exec (k False) w)"
    using Hijack.prems by (intro Hijack.IH) simp_all
  ultimately show ?case by simp
next
  case (Log e p)
  then show ?case by (simp add: logger_sees_update)
qed (simp_all add: add_line_def logger_sees_final)

text \<open>
  C34: for a handler that sends no informational status and no status after its first write or after it has
  taken over the connection, the logger changes nothing of the response or of how the handler ends, and adds
  one line, at the end, whose status is the one the client received (200 if none was sent).
\<close>

theorem logger_transparent:
  assumes "map_get (lc_SkipPaths config) (path_clean (rq_Path r)) \<noteq> Some True"
    and "orderly (next_h (logger_scope r)) None" and "\<not> w_committed w"
  shows "exec (logger_handler config elapsed next_h r) w
    = add_line (logger_line config elapsed r) (exec (next_h (logger_scope r)) w)"
  using assms logger_writer_exec [OF assms(2), of 200 False w]
  by (simp add: logger_handler_def logger_sees_def)

definition teapot :: handler where
  "teapot r = set_header ''X-Tea'' ''green'' (WriteHeader 418 (Write (Raw ''short'') (\<lambda>_. Return)))"

lemma logger_transparent_witness:
  "exec (Logger ''1ms'' [] teapot get_request) new_writer
    = add_line (logger_line default_logger_config ''1ms'' get_request) (exec (teapot (logger_scope get_request)) new_writer)"
  unfolding Logger_def apply_options_def foldl.simps
  by (rule logger_transparent)
    (simp_all add: default_logger_config_def teapot_def set_header_def informational_def)

text \<open>
  Without that condition the line is wrong: for a handler that writes and then calls
  \<open>WriteHeader(404)\<close> the client gets 200 and the log says 404.
\<close>

lemma logger_wrong_after_write:
  "let p = logger_writer (Write (Raw ''x'') (\<lambda>_. WriteHeader 404 Return)) 200 False
             (\<lambda>status. LogEntry LevelInfo [] [(FieldStatus, AInt status)])
   in w_status (fst (serve p)) = Some 200
      \<and> w_log (fst (serve p)) = [LogEntry LevelInfo [] [(FieldStatus, AInt 404)]]"
  by code_simp

text \<open>
  Nor does it say 101 for a connection that was upgraded: the 101 answer of an upgrade is written to the connection
  itself, and the line says 200, a status the client never got.
\<close>

lemma logger_wrong_after_upgrade:
  "let p = logger_writer (Hijack (\<lambda>ok. if ok then Return else WriteHeader 500 Return)) 200 False
             (\<lambda>status. LogEntry LevelInfo [] [(FieldStatus, AInt status)])
   in w_status (fst (serve p)) = None \<and> w_hijacked (fst (serve p))
      \<and> w_log (fst (serve p)) = [LogEntry LevelInfo [] [(FieldStatus, AInt 200)]]"
  by code_simp

section \<open>Recovery\<close>

text \<open>The value of the option \<open>Response\<close>: one the JSON encoder accepts, a string, or one it refuses.\<close>

datatype recovery_body = RJson json | RString string | RUnencodable string

record recovery_config =
  rc_LogLevel :: int
  rc_LogMessage :: string
  rc_StatusCode :: int
  rc_Response :: recovery_body
  rc_ContentType :: string
  rc_IncludeStack :: bool
  rc_ExtraFields :: "(string, attr) gomap"
  rc_CustomHandler :: "(string \<Rightarrow> handler) option"

type_synonym recovery_option = "recovery_config \<Rightarrow> recovery_config"

definition WithRecoveryLogLevel :: "int \<Rightarrow> recovery_option" where
  "WithRecoveryLogLevel level c = c\<lparr>rc_LogLevel := level\<rparr>"

definition WithRecoveryLogMessage :: "string \<Rightarrow> recovery_option" where
  "WithRecoveryLogMessage message c = c\<lparr>rc_LogMessage := message\<rparr>"

definition WithRecoveryStatusCode :: "int \<Rightarrow> recovery_option" where
  "WithRecoveryStatusCode sc c = c\<lparr>rc_StatusCode := sc\<rparr>"

definition WithRecoveryResponse :: "recovery_body \<Rightarrow> recovery_option" where
  "WithRecoveryResponse response c = c\<lparr>rc_Response := response\<rparr>"

definition WithRecoveryContentType :: "string \<Rightarrow> recovery_option" where
  "WithRecoveryContentType contentType c = c\<lparr>rc_ContentType := contentType\<rparr>"

definition WithIncludeStack :: "bool \<Rightarrow> recovery_option" where
  "WithIncludeStack include c = c\<lparr>rc_IncludeStack := include\<rparr>"

definition WithRecoveryExtraFields :: "(string, attr) gomap \<Rightarrow> recovery_option" where
  "WithRecoveryExtraFields extra c =
     c\<lparr>rc_ExtraFields := foldl (\<lambda>m (k, v). map_set m k v) (rc_ExtraFields c) extra\<rparr>"

definition WithCustomRecoveryHandler :: "(string \<Rightarrow> handler) option \<Rightarrow> recovery_option" where
  "WithCustomRecoveryHandler h c = c\<lparr>rc_CustomHandler := h\<rparr>"

definition default_recovery_config :: recovery_config where
  "default_recovery_config =
     \<lparr>rc_LogLevel = LevelError, rc_LogMessage = ''Panic recovered in HTTP handler'',
      rc_StatusCode = 500, rc_Response = RJson (error_response_json ErrorResponseInternalServerError),
      rc_ContentType = ContentTypeJSON, rc_IncludeStack = True, rc_ExtraFields = [],
      rc_CustomHandler = None\<rparr>"

definition recovery_fallback :: string where
  "recovery_fallback =
     [CHR ''{'', CHR 0x22] @ ''code'' @ [CHR 0x22, CHR '':'', CHR 0x22] @ ''INTERNAL_SERVER_ERROR''
     @ [CHR 0x22, CHR '','', CHR 0x22] @ ''message'' @ [CHR 0x22, CHR '':'', CHR 0x22]
     @ ''Internal server error'' @ [CHR 0x22, CHR ''}'']"

text \<open>
  The answer to a panic with the value \<open>v\<close>; \<open>stack\<close> is the stack trace. The error text at the end of
  a log message is left out.
\<close>

definition recovery_note :: "recovery_config \<Rightarrow> string \<Rightarrow> request \<Rightarrow> string \<Rightarrow> string \<Rightarrow> log_entry" where
  "recovery_note config stack r v msg =
     log_line (rc_LogLevel config) r msg
       ([(''error'', AStr v)] @ rc_ExtraFields config
        @ (if rc_IncludeStack config then [(''stack'', AStr stack)] else []))"

definition write_logged :: "chunk \<Rightarrow> log_entry \<Rightarrow> prog" where
  "write_logged b e = Write b (\<lambda>ok. if ok then Return else Log e Return)"

definition recovery_write :: "recovery_config \<Rightarrow> (string \<Rightarrow> log_entry) \<Rightarrow> prog" where
  "recovery_write config note =
     (if rc_ContentType config = ContentTypeJSON
      then (case rc_Response config of
              RJson j \<Rightarrow> write_logged (Json j) (note ''Failed to write JSON response'')
            | RString s \<Rightarrow> write_logged (Json (json_string s)) (note ''Failed to write JSON response'')
            | RUnencodable _ \<Rightarrow>
                Log (note ''Failed to encode error response during panic recovery'')
                  (write_logged (Raw recovery_fallback) (note ''Failed to write fallback response'')))
      else (case rc_Response config of
              RString s \<Rightarrow> write_logged (Raw s) (note ''Failed to write error response'')
            | _ \<Rightarrow> Return))"

definition recovery_answer :: "recovery_config \<Rightarrow> string \<Rightarrow> request \<Rightarrow> string \<Rightarrow> prog" where
  "recovery_answer config stack r v =
     Log (recovery_note config stack r v (rc_LogMessage config))
       (GetHeader (\<lambda>h.
          (if hdr_get h HeaderNameContentType = []
           then set_header HeaderNameContentType (rc_ContentType config) else (\<lambda>p. p))
            (WriteHeader (rc_StatusCode config) (recovery_write config (recovery_note config stack r v)))))"

primrec recover_writer :: "prog \<Rightarrow> (string \<Rightarrow> prog) \<Rightarrow> prog" where
  "recover_writer Return h = Return"
| "recover_writer (Panic v) h = h v"
| "recover_writer (Crash v) h = Crash v"
| "recover_writer (ModHeader f p) h = ModHeader f (recover_writer p h)"
| "recover_writer (GetHeader k) h = GetHeader (\<lambda>x. recover_writer (k x) h)"
| "recover_writer (WriteHeader c p) h = WriteHeader c (recover_writer p h)"
| "recover_writer (Write b k) h = Write b (\<lambda>ok. recover_writer (k ok) h)"
| "recover_writer (Flush p) h = Flush (recover_writer p h)"
| "recover_writer (Hijack k) h = Hijack (\<lambda>ok. recover_writer (k ok) h)"
| "recover_writer (Log e p) h = Log e (recover_writer p h)"

definition recovery_handler :: "recovery_config \<Rightarrow> string \<Rightarrow> middleware" where
  "recovery_handler config stack next_h r =
     recover_writer (next_h r)
       (\<lambda>v. case rc_CustomHandler config of
              Some h \<Rightarrow> h v r
            | None \<Rightarrow> recovery_answer config stack r v)"

definition Recovery :: "string \<Rightarrow> recovery_option list \<Rightarrow> middleware" where
  "Recovery stack opts = recovery_handler (apply_options opts default_recovery_config) stack"

lemma recover_writer_exec:
  "exec (recover_writer p h) w =
     (case exec p w of (w', Panicked v) \<Rightarrow> exec (h v) w' | r \<Rightarrow> r)"
  by (induction p arbitrary: w) (simp_all add: Let_def)

lemma recovery_write_returns: "snd (exec (recovery_write config note) w) = Returned"
  by (simp add: recovery_write_def write_logged_def Let_def split: recovery_body.split)

lemma recovery_answer_returns: "snd (exec (recovery_answer config stack r v) w) = Returned"
  by (simp add: recovery_answer_def recovery_write_returns)

lemma exec_status_final:
  "w_status w = Some c \<Longrightarrow> exec p w = (w', out) \<Longrightarrow> w_status w' = Some c \<and> w_sent w' = w_sent w"
  using exec_status_stable [of w c p] by simp

text \<open>The answer sends its status at once: it is what stands before the body is written.\<close>

lemma exec_answer_prefix:
  "\<exists>u. exec (Log e (GetHeader (\<lambda>h. (if c h then set_header k v else (\<lambda>p. p)) (WriteHeader sc body)))) w
      = exec body (do_write_header sc u) \<and> w_status u = w_status w \<and> w_sent u = w_sent w
      \<and> w_committed u = w_committed w"
  by (cases "c (w_header w)") (auto intro!: exI)

lemma exec_committed_kept:
  "w_committed w \<Longrightarrow> w_status (fst (exec p w)) = w_status w \<and> w_sent (fst (exec p w)) = w_sent w"
  using exec_hijacked_stable [of w p] exec_status_stable [of w _ p] by (auto simp: w_committed_def)

lemma recovery_answer_status:
  assumes "\<not> informational (rc_StatusCode config)"
  shows "w_status (fst (exec (recovery_answer config stack r v) w))
      = (if w_committed w then w_status w else Some (rc_StatusCode config))
    \<and> (w_committed w \<longrightarrow> w_sent (fst (exec (recovery_answer config stack r v) w)) = w_sent w)"
proof -
  obtain body u where e: "exec (recovery_answer config stack r v) w
      = exec body (do_write_header (rc_StatusCode config) u)" "w_status u = w_status w" "w_sent u = w_sent w"
      "w_committed u = w_committed w"
    unfolding recovery_answer_def
    using exec_answer_prefix [where c = "\<lambda>h. hdr_get h HeaderNameContentType = []"] by meson
  define d where "d = do_write_header (rc_StatusCode config) u"
  have c: "w_committed d" "w_status d = (if w_committed u then w_status u else Some (rc_StatusCode config))"
    "w_committed u \<longrightarrow> w_sent d = w_sent u"
    using assms by (auto simp: d_def do_write_header_def w_committed_def)
  show ?thesis
    using exec_committed_kept [OF c(1), of body] c(2,3) e by (simp flip: d_def)
qed



section \<open>The timeout\<close>

text \<open>
  The inner handler runs in a goroutine of its own on a writer with a private header map; the timer may
  fire between any two of its operations. The argument \<open>tw_fire\<close> says before which one: the number of
  operations left, or \<open>None\<close> if the handler ends first. Every operation on the shared state holds the
  mutex, so an execution is one interleaving of the handler's operations with the one timeout answer.
  The handler's operations after the answer are executed too (the goroutine is not stopped); what they
  may still do is decided by the flag \<open>tw_timedOut\<close>. A panic in that goroutine has no \<open>recover\<close> on its
  stack and ends the process.
\<close>

record timeout_state =
  tw_header :: header
  tw_written :: bool
  tw_timedOut :: bool
  tw_fire :: "nat option"

definition timeout_body :: error_response where
  "timeout_body = \<lparr>er_Code = ErrorCodeGatewayTimeout,
     er_Message = ''Gateway timeout - '' @ ''request processing took too long'', er_Details = None\<rparr>"

definition writeTimeoutResponse :: "log_entry \<Rightarrow> timeout_state \<Rightarrow> prog \<Rightarrow> prog" where
  "writeTimeoutResponse e t p =
     (if tw_written t then p else Log e (WriteJSON 504 (error_response_json timeout_body) p))"

text \<open>Before an operation: has the timer fired?\<close>

definition fires :: "timeout_state \<Rightarrow> bool" where
  "fires t \<longleftrightarrow> tw_fire t = Some 0 \<and> \<not> tw_timedOut t"

definition after_fire :: "timeout_state \<Rightarrow> timeout_state" where
  "after_fire t = t\<lparr>tw_timedOut := True, tw_written := True\<rparr>"

definition tick :: "timeout_state \<Rightarrow> timeout_state" where
  "tick t = t\<lparr>tw_fire := map_option (\<lambda>n. n - 1) (tw_fire t)\<rparr>"

definition interrupt :: "log_entry \<Rightarrow> timeout_state \<Rightarrow> (timeout_state \<Rightarrow> prog) \<Rightarrow> prog" where
  "interrupt e t k =
     (if fires t then writeTimeoutResponse e t (k (after_fire t)) else k (tick t))"

text \<open>\<open>copyHeaders\<close> replaces the outer header map by the private one, before the first output.\<close>

definition copyHeaders :: "timeout_state \<Rightarrow> prog \<Rightarrow> prog" where
  "copyHeaders t p = ModHeader (\<lambda>_. tw_header t) p"

primrec timeout_writer :: "log_entry \<Rightarrow> prog \<Rightarrow> timeout_state \<Rightarrow> prog" where
  "timeout_writer e Return t = interrupt e t (\<lambda>t. Return)"
| "timeout_writer e (Panic v) t = interrupt e t (\<lambda>t. Crash v)"
| "timeout_writer e (Crash v) t = interrupt e t (\<lambda>t. Crash v)"
| "timeout_writer e (ModHeader f p) t =
     interrupt e t (\<lambda>t. timeout_writer e p (t\<lparr>tw_header := f (tw_header t)\<rparr>))"
| "timeout_writer e (GetHeader k) t = interrupt e t (\<lambda>t. timeout_writer e (k (tw_header t)) t)"
| "timeout_writer e (WriteHeader c p) t =
     interrupt e t (\<lambda>t.
       if \<not> tw_written t \<and> \<not> tw_timedOut t
       then copyHeaders t (WriteHeader c (timeout_writer e p (t\<lparr>tw_written := True\<rparr>)))
       else timeout_writer e p t)"
| "timeout_writer e (Write b k) t =
     interrupt e t (\<lambda>t.
       if tw_timedOut t then timeout_writer e (k False) t
       else if \<not> tw_written t
         then copyHeaders t (Write b (\<lambda>ok. timeout_writer e (k ok) (t\<lparr>tw_written := True\<rparr>)))
       else Write b (\<lambda>ok. timeout_writer e (k ok) t))"
| "timeout_writer e (Flush p) t =
     interrupt e t (\<lambda>t.
       if tw_timedOut t then timeout_writer e p t
       else if \<not> tw_written t
         then copyHeaders t (Flush (timeout_writer e p (t\<lparr>tw_written := True\<rparr>)))
       else Flush (timeout_writer e p t))"
| "timeout_writer e (Hijack k) t =
     interrupt e t (\<lambda>t.
       if tw_timedOut t then timeout_writer e (k False) t
       else Hijack (\<lambda>ok. timeout_writer e (k ok) (if ok then t\<lparr>tw_written := True\<rparr> else t)))"
| "timeout_writer e (Log l p) t = interrupt e t (\<lambda>t. Log l (timeout_writer e p t))"

text \<open>A duration is a number of nanoseconds; its text (\<open>Duration.String\<close>) is the argument \<open>duration_text\<close>.\<close>

definition serveWithTimeout :: "(int \<Rightarrow> string) \<Rightarrow> nat option \<Rightarrow> int \<Rightarrow> middleware" where
  "serveWithTimeout duration_text fire timeout next_h r =
     GetHeader (\<lambda>h. timeout_writer
       (log_line LevelWarn r ''request timeout exceeded'' [(''timeout'', AStr (duration_text timeout))])
       (next_h r) \<lparr>tw_header = h, tw_written = False, tw_timedOut = False, tw_fire = fire\<rparr>)"

definition DefaultTimeout :: int where
  "DefaultTimeout = 10000000000"

definition ShortTimeout :: int where
  "ShortTimeout = 5000000000"

definition LongTimeout :: int where
  "LongTimeout = 30000000000"

type_synonym timeout_option = "int \<Rightarrow> int"

definition WithTimeout :: "int \<Rightarrow> timeout_option" where
  "WithTimeout timeout c = timeout"

definition WithDefaultTimeout :: timeout_option where
  "WithDefaultTimeout c = DefaultTimeout"

definition WithShortTimeout :: timeout_option where
  "WithShortTimeout c = ShortTimeout"

definition WithLongTimeout :: timeout_option where
  "WithLongTimeout c = LongTimeout"

definition Timeout :: "(int \<Rightarrow> string) \<Rightarrow> nat option \<Rightarrow> timeout_option list \<Rightarrow> middleware" where
  "Timeout duration_text fire opts =
     serveWithTimeout duration_text fire (apply_options opts DefaultTimeout)"

text \<open>The part of the writer the client sees.\<close>

definition response :: "writer \<Rightarrow> int option \<times> header \<times> int list \<times> chunk list \<times> bool" where
  "response w = (w_status w, w_sent w, w_infos w, w_body w, w_hijacked w)"

text \<open>The handler cut off after \<open>n\<close> operations.\<close>

primrec cut :: "prog \<Rightarrow> nat \<Rightarrow> prog" where
  "cut Return n = Return"
| "cut (Panic v) n = (if n = 0 then Return else Crash v)"
| "cut (Crash v) n = (if n = 0 then Return else Crash v)"
| "cut (ModHeader f p) n = (case n of 0 \<Rightarrow> Return | Suc m \<Rightarrow> ModHeader f (cut p m))"
| "cut (GetHeader k) n = (case n of 0 \<Rightarrow> Return | Suc m \<Rightarrow> GetHeader (\<lambda>h. cut (k h) m))"
| "cut (WriteHeader c p) n = (case n of 0 \<Rightarrow> Return | Suc m \<Rightarrow> WriteHeader c (cut p m))"
| "cut (Write b k) n = (case n of 0 \<Rightarrow> Return | Suc m \<Rightarrow> Write b (\<lambda>ok. cut (k ok) m))"
| "cut (Flush p) n = (case n of 0 \<Rightarrow> Return | Suc m \<Rightarrow> Flush (cut p m))"
| "cut (Hijack k) n = (case n of 0 \<Rightarrow> Return | Suc m \<Rightarrow> Hijack (\<lambda>ok. cut (k ok) m))"
| "cut (Log l p) n = (case n of 0 \<Rightarrow> Return | Suc m \<Rightarrow> Log l (cut p m))"

primrec no_info :: "prog \<Rightarrow> bool" where
  "no_info Return = True"
| "no_info (Panic v) = True"
| "no_info (Crash v) = True"
| "no_info (ModHeader f p) = no_info p"
| "no_info (GetHeader k) = (\<forall>h. no_info (k h))"
| "no_info (WriteHeader c p) = (\<not> informational c \<and> no_info p)"
| "no_info (Write b k) = (\<forall>ok. no_info (k ok))"
| "no_info (Flush p) = no_info p"
| "no_info (Hijack k) = (\<forall>ok. no_info (k ok))"
| "no_info (Log l p) = no_info p"

text \<open>After the timer, nothing the handler does reaches the client.\<close>

lemma timed_out_silent:
  "tw_timedOut t \<Longrightarrow> response (fst (exec (timeout_writer e p t) w)) = response w
    \<and> w_header (fst (exec (timeout_writer e p t) w)) = w_header w"
proof (induction p arbitrary: t w)
  case (Log l p)
  have "tw_timedOut (tick t)" using Log.prems by (simp add: tick_def)
  from Log.IH [OF this, of "w\<lparr>w_log := w_log w @ [l]\<rparr>"] Log.prems show ?case
    by (simp add: interrupt_def fires_def response_def)
qed (simp_all add: interrupt_def fires_def tick_def)

definition follows :: "timeout_state \<Rightarrow> writer \<Rightarrow> writer \<Rightarrow> bool" where
  "follows t w v \<longleftrightarrow> \<not> tw_timedOut t \<and> (tw_written t \<longleftrightarrow> w_committed w)
     \<and> response w = response v \<and> w_hijackable w = w_hijackable v \<and> tw_header t = w_header v"

lemma follows_committed: "follows t w v \<Longrightarrow> w_committed w = tw_written t \<and> w_committed v = tw_written t"
  by (auto simp: follows_def response_def w_committed_def)

definition upto_fire :: "timeout_state \<Rightarrow> prog \<Rightarrow> prog" where
  "upto_fire t p = (case tw_fire t of Some n \<Rightarrow> cut p n | None \<Rightarrow> p)"

definition timeout_answer :: "writer \<Rightarrow> int option \<times> header \<times> int list \<times> chunk list \<times> bool" where
  "timeout_answer w = (Some 504, hdr_set (w_header w) HeaderNameContentType ContentTypeJSON,
     w_infos w, w_body w @ [Json (error_response_json timeout_body)], False)"

lemma fired_program:
  "fires t \<Longrightarrow> timeout_writer e p t
    = writeTimeoutResponse e t (timeout_writer e p ((after_fire t)\<lparr>tw_fire := Some 1\<rparr>))"
  by (cases t; cases p) (simp_all add: interrupt_def fires_def after_fire_def tick_def)

lemma write_json_exec:
  "\<not> w_committed w \<Longrightarrow> \<exists>w1. exec (WriteJSON 504 data p) w = exec p w1 \<and>
    response w1 = (Some 504, hdr_set (w_header w) HeaderNameContentType ContentTypeJSON,
      w_infos w, w_body w @ [Json data], False)"
  by (simp add: WriteJSON_def do_write_header_def do_write_def implicit_ok_def Let_def informational_def
      body_allowed_def response_def not_committed) (rule exI, rule conjI, rule refl, simp)

lemma fired_response:
  assumes "fires t" and "follows t w v"
  shows "response (fst (exec (timeout_writer e p t) w)) =
    (if w_committed v then response v else timeout_answer w)"
proof -
  let ?rest = "timeout_writer e p ((after_fire t)\<lparr>tw_fire := Some 1\<rparr>)"
  have silent: "response (fst (exec ?rest u)) = response u" for u
    by (rule conjunct1 [OF timed_out_silent]) (simp add: after_fire_def)
  have st: "w_committed w = w_committed v" using follows_committed [OF assms(2)] by simp
  show ?thesis
  proof (cases "tw_written t")
    case True
    with assms(2) st have "w_committed v" "response w = response v" by (simp_all add: follows_def)
    with True silent [of w] show ?thesis
      by (auto simp add: fired_program [OF assms(1)] writeTimeoutResponse_def)
  next
    case False
    with assms have none: "\<not> w_committed w" by (simp add: follows_def)
    let ?w = "w\<lparr>w_log := w_log w @ [e]\<rparr>"
    obtain w1 where "exec (WriteJSON 504 (error_response_json timeout_body) ?rest) ?w = exec ?rest w1"
      and "response w1 = timeout_answer w"
      using write_json_exec [of ?w "error_response_json timeout_body" ?rest] none
      by (auto simp: timeout_answer_def)
    with False silent [of w1] none st show ?thesis
      by (simp add: fired_program [OF assms(1)] writeTimeoutResponse_def)
  qed
qed

text \<open>The base operations see only the response and, before the status, the header map.\<close>

definition alike :: "writer \<Rightarrow> writer \<Rightarrow> bool" where
  "alike w v \<longleftrightarrow> response w = response v \<and> (\<not> w_committed w \<longrightarrow> w_header w = w_header v)"

lemma alike_write_header: "alike w v \<Longrightarrow> response (do_write_header c w) = response (do_write_header c v)"
  by (auto simp: alike_def response_def do_write_header_def not_committed)

lemma alike_implicit: "alike w v \<Longrightarrow> response (implicit_ok w) = response (implicit_ok v)"
  by (auto simp: alike_def response_def implicit_ok_def do_write_header_def not_committed)

lemma alike_write:
  "alike w v \<Longrightarrow> fst (do_write b w) = fst (do_write b v)
    \<and> response (snd (do_write b w)) = response (snd (do_write b v))"
  using alike_implicit [of w v] by (auto simp: do_write_def Let_def response_def alike_def)

lemma writer_kept [simp]:
  "w_header (do_write_header c w) = w_header w" "w_header (implicit_ok w) = w_header w"
  "w_header (snd (do_write b w)) = w_header w"
  "w_hijackable (do_write_header c w) = w_hijackable w" "w_hijackable (implicit_ok w) = w_hijackable w"
  "w_hijackable (snd (do_write b w)) = w_hijackable w"
  by (simp_all add: do_write_header_def implicit_ok_def do_write_def Let_def)

lemma output_commits:
  "\<not> informational c \<Longrightarrow> w_committed (do_write_header c w)" "w_committed (implicit_ok w)"
  "w_committed (snd (do_write b w))" "w_committed (w\<lparr>w_hijacked := True\<rparr>)"
  using implicit_ok_settles [of w] write_settles [of w b] hijack_settles [of w]
  by (auto simp: settles_def do_write_header_def w_committed_def)

lemma committed_flushed [simp]: "w_committed (w\<lparr>w_flushed := f\<rparr>) = w_committed w"
  by (simp add: w_committed_def)

text \<open>The writer the handler's output goes to: with its header map if nothing was written.\<close>

definition flushed_headers :: "timeout_state \<Rightarrow> writer \<Rightarrow> writer" where
  "flushed_headers t w = (if tw_written t then w else w\<lparr>w_header := tw_header t\<rparr>)"

lemma flushed_hijackable [simp]: "w_hijackable (flushed_headers t w) = w_hijackable w"
  by (simp add: flushed_headers_def)

lemma follows_alike: "follows t w v \<Longrightarrow> alike (flushed_headers t w) v"
  by (auto simp: follows_def alike_def flushed_headers_def response_def)

lemma follows_tick: "follows (tick t) w v = follows t w v"
  by (simp add: follows_def tick_def)

lemma follows_write_header:
  assumes "follows t w v" and "\<not> tw_written t" and "\<not> informational c"
  shows "follows (t\<lparr>tw_written := True\<rparr>) (do_write_header c (w\<lparr>w_header := tw_header t\<rparr>)) (do_write_header c v)"
  using alike_write_header [OF follows_alike [OF assms(1)], of c] output_commits(1) [OF assms(3)] assms
  by (auto simp: follows_def flushed_headers_def)

lemma follows_write:
  assumes "follows t w v"
  shows "fst (do_write b (flushed_headers t w)) = fst (do_write b v)"
    and "follows (t\<lparr>tw_written := True\<rparr>) (snd (do_write b (flushed_headers t w))) (snd (do_write b v))"
  using alike_write [OF follows_alike [OF assms], of b] assms output_commits(3)
  by (auto simp: follows_def)

lemma follows_flush:
  assumes "follows t w v"
  shows "follows (t\<lparr>tw_written := True\<rparr>) ((implicit_ok (flushed_headers t w))\<lparr>w_flushed := True\<rparr>)
    ((implicit_ok v)\<lparr>w_flushed := True\<rparr>)"
  using alike_implicit [OF follows_alike [OF assms]] assms output_commits(2)
  by (auto simp: follows_def response_def)

lemma follows_hijack:
  "follows t w v \<Longrightarrow> follows (t\<lparr>tw_written := True\<rparr>) (w\<lparr>w_hijacked := True\<rparr>) (v\<lparr>w_hijacked := True\<rparr>)"
  by (simp add: follows_def response_def output_commits)

text \<open>How the wrapped writer runs one operation while the timer has not fired.\<close>

lemma running_steps:
  assumes "\<not> fires t" and "\<not> tw_timedOut t"
  shows "exec (timeout_writer e (ModHeader f p) t) w
      = exec (timeout_writer e p ((tick t)\<lparr>tw_header := f (tw_header t)\<rparr>)) w"
    and "exec (timeout_writer e (GetHeader g) t) w = exec (timeout_writer e (g (tw_header t)) (tick t)) w"
    and "exec (timeout_writer e (WriteHeader c p) t) w =
      (if tw_written t then exec (timeout_writer e p (tick t)) w
       else exec (timeout_writer e p ((tick t)\<lparr>tw_written := True\<rparr>))
              (do_write_header c (w\<lparr>w_header := tw_header t\<rparr>)))"
    and "exec (timeout_writer e (Write b k) t) w =
      (let r = do_write b (flushed_headers t w)
       in exec (timeout_writer e (k (fst r)) ((tick t)\<lparr>tw_written := True\<rparr>)) (snd r))"
    and "exec (timeout_writer e (Flush p) t) w =
      exec (timeout_writer e p ((tick t)\<lparr>tw_written := True\<rparr>))
        ((implicit_ok (flushed_headers t w))\<lparr>w_flushed := True\<rparr>)"
    and "exec (timeout_writer e (Hijack k) t) w =
      (if w_hijackable w \<and> \<not> w_hijacked w
       then exec (timeout_writer e (k True) ((tick t)\<lparr>tw_written := True\<rparr>)) (w\<lparr>w_hijacked := True\<rparr>)
       else exec (timeout_writer e (k False) (tick t)) w)"
    and "exec (timeout_writer e (Log l p) t) w =
      exec (timeout_writer e p (tick t)) (w\<lparr>w_log := w_log w @ [l]\<rparr>)"
  using assms
  by (cases t; simp add: interrupt_def tick_def copyHeaders_def flushed_headers_def Let_def)+

lemma upto_steps:
  assumes "\<not> fires t" and "\<not> tw_timedOut t"
  shows "upto_fire t (ModHeader f p) = ModHeader f (upto_fire (tick t) p)"
    and "upto_fire t (GetHeader g) = GetHeader (\<lambda>h. upto_fire (tick t) (g h))"
    and "upto_fire t (WriteHeader c p) = WriteHeader c (upto_fire (tick t) p)"
    and "upto_fire t (Write b k) = Write b (\<lambda>ok. upto_fire (tick t) (k ok))"
    and "upto_fire t (Flush p) = Flush (upto_fire (tick t) p)"
    and "upto_fire t (Hijack k) = Hijack (\<lambda>ok. upto_fire (tick t) (k ok))"
    and "upto_fire t (Log l p) = Log l (upto_fire (tick t) p)"
  using assms
  by (auto simp: upto_fire_def tick_def fires_def split: option.split nat.split)

lemma upto_fire_updates [simp]:
  "upto_fire (t\<lparr>tw_written := b\<rparr>) p = upto_fire t p" "upto_fire (t\<lparr>tw_header := h\<rparr>) p = upto_fire t p"
  by (simp_all add: upto_fire_def)

lemma upto_fired: "fires t \<Longrightarrow> exec (upto_fire t p) v = (v, Returned)"
  by (cases p) (simp_all add: upto_fire_def fires_def)

text \<open>What the client of the wrapped handler may see, from the writers of both runs.\<close>

definition seen :: "writer \<Rightarrow> writer \<Rightarrow> writer \<Rightarrow> bool" where
  "seen w' u w \<longleftrightarrow> response w' = response u \<or> \<not> w_committed u \<and> response w' = timeout_answer w"

declare timeout_writer.simps [simp del]

lemma fired_seen:
  "fires t \<Longrightarrow> follows t w v \<Longrightarrow>
   seen (fst (exec (timeout_writer e p t) w)) (fst (exec (upto_fire t p) v)) w"
  by (simp add: seen_def fired_response upto_fired)

lemma seen_sent: "seen w' u w \<Longrightarrow> w_committed u \<Longrightarrow> seen w' u w0"
  by (simp add: seen_def)

lemma timeout_simulation:
  "no_info p \<Longrightarrow> follows t w v \<Longrightarrow>
   seen (fst (exec (timeout_writer e p t) w)) (fst (exec (upto_fire t p) v)) w"
proof (induction p arbitrary: t w v)
  case (ModHeader f p)
  show ?case
  proof (cases "fires t")
    case True
    then show ?thesis by (rule fired_seen) (fact ModHeader.prems)
  next
    case False
    then have t: "\<not> fires t" "\<not> tw_timedOut t" using ModHeader.prems by (simp_all add: follows_def)
    have "follows ((tick t)\<lparr>tw_header := f (tw_header t)\<rparr>) w (v\<lparr>w_header := f (w_header v)\<rparr>)"
      using ModHeader.prems by (simp add: follows_def tick_def response_def)
    from ModHeader.IH [OF _ this] ModHeader.prems show ?thesis
      by (simp add: running_steps [OF t] upto_steps [OF t])
  qed
next
  case (GetHeader g)
  show ?case
  proof (cases "fires t")
    case True
    then show ?thesis by (rule fired_seen) (fact GetHeader.prems)
  next
    case False
    then have t: "\<not> fires t" "\<not> tw_timedOut t" "tw_header t = w_header v"
      using GetHeader.prems by (simp_all add: follows_def)
    have "follows (tick t) w v" using GetHeader.prems by (simp add: follows_tick)
    from GetHeader.IH [OF _ _ this] GetHeader.prems show ?thesis
      by (simp add: running_steps [OF t(1,2)] upto_steps [OF t(1,2)] t(3))
  qed
next
  case (WriteHeader c p)
  show ?case
  proof (cases "fires t")
    case True
    then show ?thesis by (rule fired_seen) (fact WriteHeader.prems)
  next
    case False
    then have t: "\<not> fires t" "\<not> tw_timedOut t" using WriteHeader.prems by (simp_all add: follows_def)
    have c: "\<not> informational c" "no_info p" using WriteHeader.prems by simp_all
    have f: "follows (tick t) w v" using WriteHeader.prems by (simp add: follows_tick)
    show ?thesis
    proof (cases "tw_written t")
      case True
      then have "w_committed v" using follows_committed [OF WriteHeader.prems(2)] by simp
      then have "do_write_header c v = v" by (rule committed_write_header)
      with WriteHeader.IH [OF c(2) f] True show ?thesis by (simp add: running_steps [OF t] upto_steps [OF t])
    next
      case False
      then have "\<not> tw_written (tick t)" by (simp add: tick_def)
      from seen_sent [OF WriteHeader.IH [OF c(2) follows_write_header [OF f this c(1)]]
          exec_committed [OF output_commits(1) [OF c(1)]], of w] False show ?thesis
        by (simp add: running_steps [OF t] upto_steps [OF t]) (simp add: tick_def)
    qed
  qed
next
  case (Write b k)
  show ?case
  proof (cases "fires t")
    case True
    then show ?thesis by (rule fired_seen) (fact Write.prems)
  next
    case False
    then have t: "\<not> fires t" "\<not> tw_timedOut t" using Write.prems by (simp_all add: follows_def)
    have f: "follows (tick t) w v" using Write.prems by (simp add: follows_tick)
    have h: "flushed_headers (tick t) w = flushed_headers t w" by (simp add: flushed_headers_def tick_def)
    have n: "no_info (k ok)" for ok using Write.prems(1) by simp
    note g = follows_write [OF f, of b, unfolded h]
    from seen_sent [OF Write.IH [OF _ n g(2), of "fst (do_write b v)"] exec_committed [OF output_commits(3)], of w]
    show ?thesis by (simp add: running_steps [OF t] upto_steps [OF t] Let_def g(1))
  qed
next
  case (Flush p)
  show ?case
  proof (cases "fires t")
    case True
    then show ?thesis by (rule fired_seen) (fact Flush.prems)
  next
    case False
    then have t: "\<not> fires t" "\<not> tw_timedOut t" using Flush.prems by (simp_all add: follows_def)
    have f: "follows (tick t) w v" using Flush.prems by (simp add: follows_tick)
    have h: "flushed_headers (tick t) w = flushed_headers t w" by (simp add: flushed_headers_def tick_def)
    have "no_info p" using Flush.prems(1) by simp
    have sent: "w_committed ((implicit_ok v)\<lparr>w_flushed := True\<rparr>)" using output_commits(2) by simp
    from seen_sent [OF Flush.IH [OF \<open>no_info p\<close> follows_flush [OF f, unfolded h]] exec_committed [OF sent], of w]
    show ?thesis by (simp add: running_steps [OF t] upto_steps [OF t])
  qed
next
  case (Hijack k)
  show ?case
  proof (cases "fires t")
    case True
    then show ?thesis by (rule fired_seen) (fact Hijack.prems)
  next
    case False
    then have t: "\<not> fires t" "\<not> tw_timedOut t" using Hijack.prems by (simp_all add: follows_def)
    have f: "follows (tick t) w v" using Hijack.prems by (simp add: follows_tick)
    have h: "w_hijackable v = w_hijackable w" "w_hijacked v = w_hijacked w"
      using f by (simp_all add: follows_def response_def)
    have n: "no_info (k ok)" for ok using Hijack.prems(1) by simp
    have "seen (fst (exec (timeout_writer e (k True) ((tick t)\<lparr>tw_written := True\<rparr>)) (w\<lparr>w_hijacked := True\<rparr>)))
        (fst (exec (upto_fire (tick t) (k True)) (v\<lparr>w_hijacked := True\<rparr>))) w"
      using seen_sent [OF Hijack.IH [OF _ n follows_hijack [OF f]] exec_committed [OF output_commits(4)]] by simp
    moreover have "seen (fst (exec (timeout_writer e (k False) (tick t)) w))
        (fst (exec (upto_fire (tick t) (k False)) v)) w"
      by (rule Hijack.IH [OF _ n f]) simp
    ultimately show ?thesis by (simp add: running_steps [OF t] upto_steps [OF t] h)
  qed
next
  case (Log l p)
  show ?case
  proof (cases "fires t")
    case True
    then show ?thesis by (rule fired_seen) (fact Log.prems)
  next
    case False
    then have t: "\<not> fires t" "\<not> tw_timedOut t" using Log.prems by (simp_all add: follows_def)
    have "follows (tick t) (w\<lparr>w_log := w_log w @ [l]\<rparr>) (v\<lparr>w_log := w_log v @ [l]\<rparr>)"
      using Log.prems by (simp add: follows_def tick_def response_def)
    from Log.IH [OF _ this] Log.prems show ?thesis
      by (simp add: running_steps [OF t] upto_steps [OF t] seen_def timeout_answer_def)
  qed
next
  case Return
  then show ?case
    by (cases "fires t", simp add: fired_seen)
      (simp add: timeout_writer.simps seen_def interrupt_def upto_fire_def follows_def split: option.split)
next
  case (Panic x)
  then show ?case
    by (cases "fires t", simp add: fired_seen)
      (simp add: timeout_writer.simps seen_def interrupt_def upto_fire_def follows_def split: option.split)
next
  case (Crash x)
  then show ?case
    by (cases "fires t", simp add: fired_seen)
      (simp add: timeout_writer.simps seen_def interrupt_def upto_fire_def follows_def split: option.split)
qed

text \<open>
  C8: whenever the timer fires, the client sees either exactly the response the handler had produced by
  then (everything it does later is dropped; a connection it has taken over is left to it), or, if it had
  produced none, exactly the 504 answer: never a mixture. With no timer the response is the handler's own. (For handlers that send no informational
  status.)
\<close>

theorem timeout_no_mixture:
  assumes "no_info (next_h r)" and "\<not> w_committed w"
  shows "seen (fst (exec (serveWithTimeout duration_text fire timeout next_h r) w))
      (fst (exec (case fire of Some n \<Rightarrow> cut (next_h r) n | None \<Rightarrow> next_h r) w)) w"
  using timeout_simulation [OF assms(1), of "\<lparr>tw_header = w_header w, tw_written = False,
      tw_timedOut = False, tw_fire = fire\<rparr>" w w] assms(2)
  by (simp add: serveWithTimeout_def follows_def upto_fire_def)

lemma timeout_no_mixture_witness:
  "seen (fst (exec (Timeout (\<lambda>_. ''10s'') (Some 2) [] teapot get_request) new_writer))
     (fst (exec (cut (teapot get_request) 2) new_writer)) new_writer"
  using timeout_no_mixture [of teapot get_request new_writer "\<lambda>_. ''10s''" "Some 2" DefaultTimeout]
  by (simp add: Timeout_def apply_options_def teapot_def set_header_def informational_def)

text \<open>
  A panic of a handler behind the timeout ends the process even under the recovery middleware: the
  goroutine the timeout starts has no recovery of its own. Without the timeout it is answered 500.
\<close>

lemma timeout_defeats_recovery:
  "snd (serve (Chain (\<lambda>_. Panic ''boom'') [Recovery [] [], Timeout txt None []] get_request)) = Crashed ''boom''
   \<and> w_status (fst (serve (Chain (\<lambda>_. Panic ''boom'') [Recovery [] []] get_request))) = Some 500"
proof
  show "snd (serve (Chain (\<lambda>_. Panic ''boom'') [Recovery [] [], Timeout txt None []] get_request)) = Crashed ''boom''"
    by (simp add: Recovery_def recovery_handler_def Timeout_def serveWithTimeout_def serve_def
        timeout_writer.simps interrupt_def fires_def tick_def new_writer_def)
  show "w_status (fst (serve (Chain (\<lambda>_. Panic ''boom'') [Recovery [] []] get_request))) = Some 500"
    by code_simp
qed

text \<open>
  A handler that only sets headers and returns loses them behind the timeout: they are copied to the
  outer writer at the first output only.
\<close>

lemma timeout_loses_headers:
  "hdr_get (w_sent (fst (serve (set_header ''X-A'' ''1'' Return)))) ''X-A'' = ''1''
   \<and> hdr_get (w_sent (fst (serve (serveWithTimeout txt None d (\<lambda>_. set_header ''X-A'' ''1'' Return) r)))) ''X-A'' = []"
proof
  have c: "CanonicalHeaderKey ''X-A'' = CanonicalHeaderKey ''X-A''" ..
  show "hdr_get (w_sent (fst (serve (set_header ''X-A'' ''1'' Return)))) ''X-A'' = ''1''" by code_simp
  show "hdr_get (w_sent (fst (serve (serveWithTimeout txt None d (\<lambda>_. set_header ''X-A'' ''1'' Return) r)))) ''X-A'' = []"
    by (simp add: serveWithTimeout_def set_header_def serve_def timeout_writer.simps interrupt_def fires_def tick_def
        new_writer_def implicit_ok_def do_write_header_def informational_def hdr_get_def)
qed

end
