(* ===== verification/Lookup_Cache.thy ===== *)
theory Lookup_Cache imports Go_Prelude begin

text \<open>
  The interface of a cache in front of a lookup: \<open>get\<close> may forget what has expired, \<open>put\<close> may evict
  other keys, and \<open>view\<close> is what a \<open>get\<close> would return now. A client that asks the cache first and
  otherwise computes and stores the value is \<open>lookup\<close>; inside the locale it is shown to return what the
  computation returns, as long as what the cache holds was computed by it, which it keeps so.
\<close>

locale lookup_cache =
  fixes get :: "'s \<Rightarrow> 'k \<Rightarrow> 's \<times> 'v option"
    and put :: "'s \<Rightarrow> 'k \<Rightarrow> 'v \<Rightarrow> 's"
    and view :: "'s \<Rightarrow> 'k \<Rightarrow> 'v option"
    and inv :: "'s \<Rightarrow> bool"
    and okey :: "'k \<Rightarrow> bool"
  assumes get_result: "inv s \<Longrightarrow> snd (get s k) = view s k"
    and get_view: "inv s \<Longrightarrow> view (fst (get s k)) = view s"
    and get_inv: "inv s \<Longrightarrow> inv (fst (get s k))"
    and put_inv: "inv s \<Longrightarrow> okey k \<Longrightarrow> inv (put s k v)"
    and put_view: "inv s \<Longrightarrow> view (put s k v) k' = Some w \<Longrightarrow> k' = k \<and> w = v \<or> view s k' = Some w"
begin

definition lookup :: "('k \<Rightarrow> 'v) \<Rightarrow> 's \<Rightarrow> 'k \<Rightarrow> 'v \<times> 's" where
  "lookup f s k =
     (case get s k of
        (s', Some v) \<Rightarrow> (v, s')
      | (s', None) \<Rightarrow> (f k, put s' k (f k)))"

definition faithful :: "('k \<Rightarrow> 'v) \<Rightarrow> 's \<Rightarrow> bool" where
  "faithful f s \<longleftrightarrow> inv s \<and> (\<forall>k v. view s k = Some v \<longrightarrow> v = f k)"

lemma lookup_value: "faithful f s \<Longrightarrow> fst (lookup f s k) = f k"
  using get_result [of s k] by (auto simp: faithful_def lookup_def split: prod.splits option.splits)

lemma lookup_faithful:
  assumes "faithful f s" and "okey k"
  shows "faithful f (snd (lookup f s k))"
proof -
  obtain s' r where g: "get s k = (s', r)" by fastforce
  have i: "inv s" using assms(1) by (simp add: faithful_def)
  have s': "inv s'" "view s' = view s" using get_inv [OF i, of k] get_view [OF i, of k] g by simp_all
  have f: "faithful f s'" using assms(1) s' by (simp add: faithful_def)
  have "v = f k'" if "view (put s' k (f k)) k' = Some v" for k' v
    using put_view [OF s'(1) that] f by (auto simp: faithful_def)
  then have "faithful f (put s' k (f k))"
    using put_inv [OF s'(1) assms(2)] by (simp add: faithful_def)
  then show ?thesis using f g by (cases r) (simp_all add: lookup_def)
qed

end

end
