(* ===== verification/File_Cache.thy ===== *)
theory File_Cache imports Lookup_Cache begin

text \<open>
  The cache of file checks of the static file server (\<open>fileCache\<close> in \<open>server.go\<close>): per path, whether the
  file exists and is a directory, for a limited time. Times are in nanoseconds and the clock is part of
  the state. \<open>get\<close> reads under the read lock and, if the entry has expired, deletes it under the write
  lock after a second look; the two phases are separate functions, so that what another goroutine does
  between them can be put there.
\<close>

record file_cache_entry =
  fe_exists :: bool
  fe_isDir :: bool
  fe_timestamp :: int

record file_cache =
  fl_cache :: "(string, file_cache_entry) gomap"
  fl_ttl :: int
  fl_maxSize :: int
  fl_now :: int

definition defaultFileCacheTTL :: int where
  "defaultFileCacheTTL = 30000000000"

definition defaultFileCacheMaxSize :: int where
  "defaultFileCacheMaxSize = 1000"

definition newFileCache :: "int \<Rightarrow> file_cache" where
  "newFileCache now =
     \<lparr>fl_cache = [], fl_ttl = defaultFileCacheTTL, fl_maxSize = defaultFileCacheMaxSize, fl_now = now\<rparr>"

definition stale :: "file_cache \<Rightarrow> file_cache_entry \<Rightarrow> bool" where
  "stale fc e \<longleftrightarrow> fl_now fc - fe_timestamp e > fl_ttl fc"

text \<open>The answer of the reading phase: a miss, an expired entry, or the entry.\<close>

datatype read_phase = Miss | Expired | Hit bool bool

definition fc_read :: "file_cache \<Rightarrow> string \<Rightarrow> read_phase" where
  "fc_read fc path =
     (case map_get (fl_cache fc) path of
        None \<Rightarrow> Miss
      | Some e \<Rightarrow> if stale fc e then Expired else Hit (fe_exists e) (fe_isDir e))"

definition fc_delete_expired :: "file_cache \<Rightarrow> string \<Rightarrow> file_cache" where
  "fc_delete_expired fc path =
     (case map_get (fl_cache fc) path of
        Some e \<Rightarrow> if stale fc e then fc\<lparr>fl_cache := map_del (fl_cache fc) path\<rparr> else fc
      | None \<Rightarrow> fc)"

definition fc_get :: "file_cache \<Rightarrow> string \<Rightarrow> file_cache \<times> (bool \<times> bool) option" where
  "fc_get fc path =
     (case fc_read fc path of
        Miss \<Rightarrow> (fc, None)
      | Expired \<Rightarrow> (fc_delete_expired fc path, None)
      | Hit ex isDir \<Rightarrow> (fc, Some (ex, isDir)))"

text \<open>The loop over the map keeps the key and the time of the oldest entry; the empty key means none yet.\<close>

definition oldest_step :: "string \<times> int \<Rightarrow> string \<times> file_cache_entry \<Rightarrow> string \<times> int" where
  "oldest_step acc kv =
     (if fst acc = [] \<or> fe_timestamp (snd kv) < snd acc then (fst kv, fe_timestamp (snd kv)) else acc)"

definition oldest_key :: "(string, file_cache_entry) gomap \<Rightarrow> string" where
  "oldest_key m = fst (foldl oldest_step ([], 0) m)"

definition fc_set :: "file_cache \<Rightarrow> string \<Rightarrow> bool \<times> bool \<Rightarrow> file_cache" where
  "fc_set fc path v =
     (let m = (if int (length (fl_cache fc)) \<ge> fl_maxSize fc
               then let oldest = oldest_key (fl_cache fc)
                    in if oldest \<noteq> [] then map_del (fl_cache fc) oldest else fl_cache fc
               else fl_cache fc)
      in fc\<lparr>fl_cache := map_set m path
              \<lparr>fe_exists = fst v, fe_isDir = snd v, fe_timestamp = fl_now fc\<rparr>\<rparr>)"

definition fc_tick :: "nat \<Rightarrow> file_cache \<Rightarrow> file_cache" where
  "fc_tick d fc = fc\<lparr>fl_now := fl_now fc + int d\<rparr>"

section \<open>The contract\<close>

definition fc_ok :: "file_cache \<Rightarrow> bool" where
  "fc_ok fc \<longleftrightarrow> gomap_ok (fl_cache fc) \<and> map_get (fl_cache fc) [] = None \<and> 0 < fl_maxSize fc
     \<and> int (length (fl_cache fc)) \<le> fl_maxSize fc"

definition fc_view :: "file_cache \<Rightarrow> string \<Rightarrow> (bool \<times> bool) option" where
  "fc_view fc path =
     (case fc_read fc path of Hit ex isDir \<Rightarrow> Some (ex, isDir) | _ \<Rightarrow> None)"

text \<open>The evicted entry is an oldest one.\<close>

lemma oldest_fold:
  "fst acc \<noteq> [] \<Longrightarrow> \<exists>k t. foldl oldest_step acc m = (k, t) \<and> t \<le> snd acc
     \<and> (\<forall>kv \<in> set m. fst kv \<noteq> [] \<longrightarrow> t \<le> fe_timestamp (snd kv)) \<and> (k, t) \<in> insert acc ((\<lambda>kv. (fst kv, fe_timestamp (snd kv))) ` set m)"
  if "\<forall>kv \<in> set m. fst kv \<noteq> []"
  using that
proof (induction m arbitrary: acc)
  case (Cons a m)
  have n: "fst (oldest_step acc a) \<noteq> []" using Cons.prems by (simp add: oldest_step_def)
  obtain k t where h: "foldl oldest_step (oldest_step acc a) m = (k, t)" "t \<le> snd (oldest_step acc a)"
    "\<forall>kv \<in> set m. fst kv \<noteq> [] \<longrightarrow> t \<le> fe_timestamp (snd kv)"
    "(k, t) \<in> insert (oldest_step acc a) ((\<lambda>kv. (fst kv, fe_timestamp (snd kv))) ` set m)"
    using Cons.IH [OF n] Cons.prems(2) by auto
  moreover have "snd (oldest_step acc a) \<le> snd acc" "snd (oldest_step acc a) \<le> fe_timestamp (snd a)"
    "oldest_step acc a \<in> {acc, (fst a, fe_timestamp (snd a))}"
    using Cons.prems by (auto simp: oldest_step_def)
  ultimately show ?case by (auto intro!: exI [of _ k] exI [of _ t])
qed auto

lemma oldest_key_oldest:
  assumes "m \<noteq> []" and "gomap_ok m" and "[] \<notin> fst ` set m"
  shows "\<exists>e. map_get m (oldest_key m) = Some e \<and> oldest_key m \<noteq> []
    \<and> (\<forall>k e'. map_get m k = Some e' \<longrightarrow> fe_timestamp e \<le> fe_timestamp e')"
proof -
  obtain a m' where m: "m = a # m'" using assms(1) by (cases m) auto
  let ?acc = "oldest_step ([], 0) a"
  have acc: "?acc = (fst a, fe_timestamp (snd a))" by (simp add: oldest_step_def)
  have ne: "\<forall>kv \<in> set m'. fst kv \<noteq> []" "fst a \<noteq> []" using assms(3) m by force+
  obtain k t where h: "foldl oldest_step ?acc m' = (k, t)" "t \<le> snd ?acc"
    "\<forall>kv \<in> set m'. fst kv \<noteq> [] \<longrightarrow> t \<le> fe_timestamp (snd kv)"
    "(k, t) \<in> insert ?acc ((\<lambda>kv. (fst kv, fe_timestamp (snd kv))) ` set m')"
    using oldest_fold [OF ne(1), of ?acc] ne(2) acc by auto
  have ok: "oldest_key m = k" using h(1) m by (simp add: oldest_key_def)
  obtain kv where kv: "kv \<in> set m" "k = fst kv" "t = fe_timestamp (snd kv)"
  proof -
    have "(k, t) \<in> (\<lambda>kv. (fst kv, fe_timestamp (snd kv))) ` set m" using h(4) acc m by simp
    then show ?thesis by (elim imageE) (rule that, simp_all)
  qed
  have "map_get m k = Some (snd kv)" using kv assms(2) by (simp add: map_get_in)
  moreover have "k \<noteq> []" using kv assms(3) by force
  moreover have "t \<le> fe_timestamp e'" if "map_get m k' = Some e'" for k' e'
    using map_get_SomeD [OF that] h(2,3) acc m ne by force
  ultimately show ?thesis using ok kv(3) by auto
qed

lemma fc_read_delete: "fc_ok fc \<Longrightarrow> fc_view (fc_delete_expired fc path) = fc_view fc"
  by (rule ext)
    (auto simp: fc_view_def fc_read_def fc_delete_expired_def stale_def split: option.splits)

lemma fc_delete_ok: "fc_ok fc \<Longrightarrow> fc_ok (fc_delete_expired fc path)"
  by (auto simp: fc_ok_def fc_delete_expired_def length_map_del split: option.splits)

text \<open>What \<open>set\<close> inserts into: the map with room for one entry, every entry an old one.\<close>

lemma fc_set_room:
  assumes "fc_ok fc"
  obtains m where "fc_set fc path v =
      fc\<lparr>fl_cache := map_set m path \<lparr>fe_exists = fst v, fe_isDir = snd v, fe_timestamp = fl_now fc\<rparr>\<rparr>"
    and "gomap_ok m" and "map_get m [] = None" and "int (length m) < fl_maxSize fc"
    and "\<And>k e. map_get m k = Some e \<Longrightarrow> map_get (fl_cache fc) k = Some e"
proof (cases "int (length (fl_cache fc)) \<ge> fl_maxSize fc")
  case False
  with assms show ?thesis by (intro that [of "fl_cache fc"]) (auto simp: fc_set_def fc_ok_def Let_def)
next
  case True
  let ?c = "fl_cache fc"
  have c: "gomap_ok ?c" "map_get ?c [] = None" "0 < fl_maxSize fc" "int (length ?c) \<le> fl_maxSize fc"
    using assms by (simp_all add: fc_ok_def)
  have ne: "?c \<noteq> []" using True c(3) by auto
  obtain e where o: "map_get ?c (oldest_key ?c) = Some e" "oldest_key ?c \<noteq> []"
    using oldest_key_oldest [OF ne c(1)] c(2) unfolding map_get_None_iff by blast
  have len: "int (length (map_del ?c (oldest_key ?c))) < fl_maxSize fc"
    using o(1) c ne by (cases ?c) (simp_all add: length_map_del)
  show ?thesis
    by (rule that [of "map_del ?c (oldest_key ?c)"])
      (use True o c len in \<open>auto simp: fc_set_def Let_def split: if_splits\<close>)
qed

lemma fc_set_ok: "fc_ok fc \<Longrightarrow> path \<noteq> [] \<Longrightarrow> fc_ok (fc_set fc path v)"
  by (erule fc_set_room [of fc path v]) (auto simp: fc_ok_def length_map_set)

lemma fc_set_view:
  "fc_ok fc \<Longrightarrow> fc_view (fc_set fc path v) k = Some w \<Longrightarrow> k = path \<and> w = v \<or> fc_view fc k = Some w"
  by (erule fc_set_room [of fc path v])
    (cases v, auto simp: fc_view_def fc_read_def stale_def split: option.splits if_splits read_phase.splits)

interpretation files: lookup_cache fc_get fc_set fc_view fc_ok "\<lambda>path. path \<noteq> []"
proof unfold_locales
  fix s :: file_cache and k k' :: string and v w
  assume ok: "fc_ok s"
  show "snd (fc_get s k) = fc_view s k"
    by (simp add: fc_get_def fc_view_def split: read_phase.split)
  show "fc_view (fst (fc_get s k)) = fc_view s"
    using fc_read_delete [OF ok, of k] by (simp add: fc_get_def split: read_phase.split)
  show "fc_ok (fst (fc_get s k))"
    using fc_delete_ok [OF ok, of k] ok by (simp add: fc_get_def split: read_phase.split)
  show "k \<noteq> [] \<Longrightarrow> fc_ok (fc_set s k v)" using ok by (rule fc_set_ok)
  show "fc_view (fc_set s k v) k' = Some w \<Longrightarrow> k' = k \<and> w = v \<or> fc_view s k' = Some w"
    using fc_set_view [OF ok] .
qed

section \<open>Properties\<close>

text \<open>
  C37: the cache keeps its size bound under every sequence of sets, gets and passing time, and an entry
  just set is the one the next get returns, until its time to live has passed and not after it.
\<close>

theorem file_cache_bounded:
  assumes "fc_ok fc" and "path \<noteq> []"
  shows "fc_ok (fc_set fc path v) \<and> fc_ok (fst (fc_get fc path)) \<and> fc_ok (fc_tick d fc)
    \<and> int (length (fl_cache (fc_set fc path v))) \<le> fl_maxSize fc
    \<and> snd (fc_get (fc_tick d (fc_set fc path v)) path) = (if int d \<le> fl_ttl fc then Some v else None)"
proof -
  have "fc_ok (fc_tick d fc)" using assms(1) by (simp add: fc_ok_def fc_tick_def)
  moreover have "snd (fc_get (fc_tick d (fc_set fc path v)) path) = (if int d \<le> fl_ttl fc then Some v else None)"
    by (rule fc_set_room [OF assms(1), of path v])
      (simp add: fc_get_def fc_read_def fc_tick_def stale_def)
  ultimately show ?thesis
    using fc_set_ok [OF assms, of v] files.get_inv [OF assms(1), of path]
    by (simp add: fc_ok_def fc_set_def Let_def)
qed

lemma file_cache_bounded_witness:
  "snd (fc_get (fc_tick 5 (fc_set (newFileCache 0) ''/a'' (True, False))) ''/a'') = Some (True, False)"
proof -
  have "fc_ok (newFileCache 0)" by (simp add: fc_ok_def newFileCache_def defaultFileCacheMaxSize_def)
  from file_cache_bounded [OF this, of "''/a''" "(True, False)" 5] show ?thesis
    by (simp add: newFileCache_def defaultFileCacheTTL_def)
qed

text \<open>
  The deletion of an expired entry looks again under the write lock, so an entry another goroutine
  has set between the two phases survives, whatever else happened before it.
\<close>

theorem delete_spares_refreshed:
  assumes "fc_ok fc" and "0 \<le> fl_ttl fc"
  shows "snd (fc_get (fc_delete_expired (fc_set fc path v) path) path) = Some v"
  by (rule fc_set_room [OF assms(1), of path v])
    (use assms(2) in \<open>simp add: fc_get_def fc_read_def fc_delete_expired_def stale_def\<close>)

lemma delete_spares_refreshed_witness:
  "snd (fc_get (fc_delete_expired (fc_set (newFileCache 0) ''/a'' (True, True)) ''/a'') ''/a'') = Some (True, True)"
  by (rule delete_spares_refreshed)
    (simp_all add: fc_ok_def newFileCache_def defaultFileCacheMaxSize_def defaultFileCacheTTL_def)

text \<open>A full cache evicts another entry even when the path it sets is already in it.\<close>

lemma set_evicts_on_update:
  "let e = \<lambda>t. \<lparr>fe_exists = True, fe_isDir = False, fe_timestamp = t\<rparr>;
       fc = (newFileCache 9)\<lparr>fl_maxSize := 2, fl_cache := [(''a'', e 1), (''b'', e 2)]\<rparr>
   in map fst (fl_cache (fc_set fc ''b'' (True, False))) = [''b'']"
  by code_simp

end
