(* ===== verification/Static_Files.thy ===== *)
theory Static_Files
  imports File_Cache Go_Path Middleware_Core "HOL-Library.Char_ord" "HOL-Library.List_Lexorder"
    "HOL-Library.Product_Lexorder"
begin

text \<open>
  The static file server (\<open>server.go\<close>) and its directory listings (\<open>directory_indexing.go\<close>). The file
  system is an argument: what \<open>os.Stat\<close>, \<open>filepath.EvalSymlinks\<close> and \<open>os.ReadDir\<close> answer. \<open>http.ServeFile\<close>
  and the HTML template engine are arguments too. A handler returns its program and the file cache it
  leaves.
\<close>

section \<open>Definitions\<close>

fun str_contains :: "string \<Rightarrow> string \<Rightarrow> bool" where
  "str_contains [] sub = (sub = [])"
| "str_contains (c # s) sub = (has_prefix (c # s) sub \<or> str_contains s sub)"

record dir_item =
  di_Name :: string
  di_IsDir :: bool
  di_Info :: "(int \<times> string) option"

record filesys =
  fs_Stat :: "string \<Rightarrow> bool option"
  fs_EvalSymlinks :: "string \<Rightarrow> string option"
  fs_ReadDir :: "string \<Rightarrow> dir_item list option"

definition DirectoryIndexingTypeNone :: nat where
  "DirectoryIndexingTypeNone = 0"

definition DirectoryIndexingTypeHTML :: nat where
  "DirectoryIndexingTypeHTML = 1"

definition DirectoryIndexingTypeJSON :: nat where
  "DirectoryIndexingTypeJSON = 2"

record static_route =
  sr_Dir :: string
  sr_Path :: string
  sr_Indexing :: nat

record directory_entry =
  de_Name :: string
  de_IsDir :: bool
  de_Size :: int
  de_ModTime :: string
  de_URL :: string

record directory_listing =
  dl_Path :: string
  dl_Parent :: string
  dl_Entries :: "directory_entry list"

definition FileNameIndexHTML :: string where
  "FileNameIndexHTML = ''index.html''"

text \<open>\<open>filepath.Clean\<close> and \<open>filepath.Join\<close> are \<open>path.Clean\<close> and \<open>path.Join\<close> where the separator is a slash.\<close>

definition validateAndBuildPath :: "filesys \<Rightarrow> request \<Rightarrow> string \<Rightarrow> string \<Rightarrow> prog + string" where
  "validateAndBuildPath fs r staticDir staticPath =
     (let rel = trim_prefix (rq_Path r) staticPath;
          relativePath = (if rel = [] then ''.'' else rel);
          cleanPath = path_clean relativePath;
          denied = write_error 403 ErrorResponsePathTraversalDenied
      in if has_prefix cleanPath ''..'' \<or> str_contains cleanPath ''../'' then Inl denied
         else
           let fullPath = path_join [staticDir, cleanPath];
               resolvedDir = (case fs_EvalSymlinks fs staticDir of Some d \<Rightarrow> d | None \<Rightarrow> staticDir)
           in case fs_EvalSymlinks fs fullPath of
                Some resolvedFull \<Rightarrow>
                  (if \<not> has_prefix resolvedFull resolvedDir then Inl denied else Inr fullPath)
              | None \<Rightarrow> Inr fullPath)"

section \<open>Directory listings\<close>

definition buildParentURL :: "string \<Rightarrow> static_route \<Rightarrow> string" where
  "buildParentURL relativePath cfg =
     (let cleanRelativePath = trim_suffix relativePath ''/'';
          dir = path_dir cleanRelativePath;
          parentPath = (if dir = ''.'' then ''/'' else dir);
          parentURL = (if sr_Path cfg = ''/'' then parentPath
                       else if parentPath = ''/'' then sr_Path cfg
                       else path_join [sr_Path cfg, parentPath])
      in if \<not> has_suffix parentURL ''/'' then parentURL @ ''/'' else parentURL)"

definition entry_url :: "string \<Rightarrow> static_route \<Rightarrow> dir_item \<Rightarrow> string" where
  "entry_url relativePath cfg item =
     (let entryPath = path_join [relativePath, di_Name item];
          url = (if sr_Path cfg = ''/'' then entryPath else path_join [sr_Path cfg, entryPath])
      in if di_IsDir item \<and> \<not> has_suffix url ''/'' then url @ ''/'' else url)"

fun listing_entries :: "string \<Rightarrow> static_route \<Rightarrow> dir_item list \<Rightarrow> directory_entry list" where
  "listing_entries rel cfg [] = []"
| "listing_entries rel cfg (item # rest) =
     (case di_Info item of
        None \<Rightarrow> listing_entries rel cfg rest
      | Some (sz, modTime) \<Rightarrow>
          \<lparr>de_Name = di_Name item, de_IsDir = di_IsDir item, de_Size = sz, de_ModTime = modTime,
           de_URL = entry_url rel cfg item\<rparr> # listing_entries rel cfg rest)"

text \<open>
  \<open>sort.Slice\<close> with directories first, then by the name in lower case. It may leave entries that
  compare equal in any order; here they stay as they were.
\<close>

definition entry_key :: "directory_entry \<Rightarrow> bool \<times> string" where
  "entry_key e = (\<not> de_IsDir e, to_lower (de_Name e))"

definition buildDirectoryListing :: "request \<Rightarrow> dir_item list \<Rightarrow> static_route \<Rightarrow> directory_listing" where
  "buildDirectoryListing r entries cfg =
     (let rel = trim_prefix (rq_Path r) (sr_Path cfg);
          relativePath = (if rel = [] then ''/'' else rel)
      in \<lparr>dl_Path = relativePath,
          dl_Parent = (if relativePath \<noteq> ''/'' then buildParentURL relativePath cfg else []),
          dl_Entries = sort_key entry_key (listing_entries relativePath cfg entries)\<rparr>)"

definition entry_json :: "directory_entry \<Rightarrow> json" where
  "entry_json e = JObj
     [(''name'', json_string (de_Name e)), (''isDir'', JBool (de_IsDir e)), (''size'', JNum (de_Size e)),
      (''modTime'', JStr (de_ModTime e)), (''url'', json_string (de_URL e))]"

definition failure_line :: "string \<Rightarrow> log_entry" where
  "failure_line msg = LogEntry LevelError msg []"

definition serveDirectoryListingJSON :: "directory_listing \<Rightarrow> prog" where
  "serveDirectoryListingJSON listing =
     set_header HeaderNameContentType ContentTypeJSON
       (Write (Json (JArr (map entry_json (dl_Entries listing)))) (\<lambda>ok.
          if ok then Return
          else Log (failure_line ''failed to encode directory listing JSON'')
                 (write_error 500 ErrorResponseInternalServerError)))"

text \<open>\<open>html\<close> renders the constant template, which parses.\<close>

definition serveDirectoryListingHTML :: "(directory_listing \<Rightarrow> string) \<Rightarrow> directory_listing \<Rightarrow> prog" where
  "serveDirectoryListingHTML html listing =
     set_header HeaderNameContentType ''text/html; charset=utf-8''
       (Write (Raw (html listing)) (\<lambda>ok.
          if ok then Return else Log (failure_line ''failed to execute directory listing template'') Return))"

definition serveDirectoryListing ::
    "(directory_listing \<Rightarrow> string) \<Rightarrow> directory_listing \<Rightarrow> static_route \<Rightarrow> prog" where
  "serveDirectoryListing html listing cfg =
     (if sr_Indexing cfg = DirectoryIndexingTypeNone
      then write_error 403 ErrorResponseDirectoryListingNotSupported
      else if sr_Indexing cfg = DirectoryIndexingTypeJSON then serveDirectoryListingJSON listing
      else serveDirectoryListingHTML html listing)"

definition generateDirectoryListing ::
    "(directory_listing \<Rightarrow> string) \<Rightarrow> filesys \<Rightarrow> request \<Rightarrow> string \<Rightarrow> static_route \<Rightarrow> prog" where
  "generateDirectoryListing html fs r fullPath cfg =
     (case fs_ReadDir fs fullPath of
        None \<Rightarrow> Log (failure_line ''failed to read directory for listing'')
                  (write_error 500 ErrorResponseInternalServerError)
      | Some entries \<Rightarrow> serveDirectoryListing html (buildDirectoryListing r entries cfg) cfg)"

definition handleDirectoryRequest ::
    "(directory_listing \<Rightarrow> string) \<Rightarrow> (string \<Rightarrow> handler) \<Rightarrow> filesys \<Rightarrow> request \<Rightarrow> string \<Rightarrow> static_route \<Rightarrow> prog" where
  "handleDirectoryRequest html serveFile fs r fullPath cfg =
     (let indexPath = path_join [fullPath, FileNameIndexHTML]
      in if fs_Stat fs indexPath \<noteq> None then serveFile indexPath r
         else if sr_Indexing cfg = DirectoryIndexingTypeNone
           then write_error 403 ErrorResponseDirectoryListingNotSupported
         else generateDirectoryListing html fs r fullPath cfg)"

section \<open>Serving\<close>

text \<open>The program that handled the request, or \<open>None\<close> for a regular file the caller serves.\<close>

definition handleCachedResult ::
    "(directory_listing \<Rightarrow> string) \<Rightarrow> (string \<Rightarrow> handler) \<Rightarrow> filesys \<Rightarrow> request \<Rightarrow> string \<Rightarrow> bool \<Rightarrow> bool
      \<Rightarrow> static_route \<Rightarrow> prog option" where
  "handleCachedResult html serveFile fs r fullPath exists isDir cfg =
     (if \<not> exists then Some (write_error 404 ErrorResponseFileNotFound)
      else if isDir then Some (handleDirectoryRequest html serveFile fs r fullPath cfg)
      else None)"

definition handleCacheMiss ::
    "(directory_listing \<Rightarrow> string) \<Rightarrow> (string \<Rightarrow> handler) \<Rightarrow> filesys \<Rightarrow> request \<Rightarrow> string \<Rightarrow> static_route
      \<Rightarrow> file_cache \<Rightarrow> prog option \<times> file_cache" where
  "handleCacheMiss html serveFile fs r fullPath cfg fc =
     (case fs_Stat fs fullPath of
        None \<Rightarrow> (Some (write_error 404 ErrorResponseFileNotFound), fc_set fc fullPath (False, False))
      | Some isDir \<Rightarrow>
          (if isDir then Some (handleDirectoryRequest html serveFile fs r fullPath cfg) else None,
           fc_set fc fullPath (True, isDir)))"

definition checkFileAccess ::
    "(directory_listing \<Rightarrow> string) \<Rightarrow> (string \<Rightarrow> handler) \<Rightarrow> filesys \<Rightarrow> request \<Rightarrow> string \<Rightarrow> static_route
      \<Rightarrow> file_cache \<Rightarrow> prog option \<times> file_cache" where
  "checkFileAccess html serveFile fs r fullPath cfg fc =
     (case fc_get fc fullPath of
        (fc', Some (ex, isDir)) \<Rightarrow> (handleCachedResult html serveFile fs r fullPath ex isDir cfg, fc')
      | (fc', None) \<Rightarrow> handleCacheMiss html serveFile fs r fullPath cfg fc')"

definition createSecureStaticHandler ::
    "(directory_listing \<Rightarrow> string) \<Rightarrow> (string \<Rightarrow> handler) \<Rightarrow> filesys \<Rightarrow> static_route \<Rightarrow> request
      \<Rightarrow> file_cache \<Rightarrow> prog \<times> file_cache" where
  "createSecureStaticHandler html serveFile fs cfg r fc =
     (case validateAndBuildPath fs r (sr_Dir cfg) (sr_Path cfg) of
        Inl p \<Rightarrow> (p, fc)
      | Inr fullPath \<Rightarrow>
          (case checkFileAccess html serveFile fs r fullPath cfg fc of
             (Some p, fc') \<Rightarrow> (p, fc')
           | (None, fc') \<Rightarrow> (serveFile fullPath r, fc')))"

section \<open>Containment\<close>

text \<open>Where a path resolves through its links, the target begins with the path of the resolved directory.\<close>

definition resolves_inside :: "filesys \<Rightarrow> string \<Rightarrow> string \<Rightarrow> bool" where
  "resolves_inside fs dir full =
     (case fs_EvalSymlinks fs full of
        None \<Rightarrow> True
      | Some target \<Rightarrow> has_prefix target (case fs_EvalSymlinks fs dir of Some d \<Rightarrow> d | None \<Rightarrow> dir))"


text \<open>
  C2: the path a static request is mapped to lies lexically in the configured directory, whatever
  the request's path is: no sequence of \<open>..\<close>, dots and slashes leaves it, and the target of its
  symbolic links, where they resolve, begins with the resolved directory's path.
\<close>

theorem static_path_contained:
  assumes "validateAndBuildPath fs r dir prefix = Inr full" and "dir \<noteq> []"
  shows "path_within dir full \<and> resolves_inside fs dir full"
proof -
  define rel where "rel = (if trim_prefix (rq_Path r) prefix = [] then ''.'' else trim_prefix (rq_Path r) prefix)"
  have v: "\<not> has_prefix (path_clean rel) dotdot" "full = path_join [dir, path_clean rel]"
    and s: "resolves_inside fs dir full"
    using assms(1)
    by (auto simp: resolves_inside_def validateAndBuildPath_def Let_def rel_def [symmetric] dotdot_def split: if_splits option.splits)
  have "path_within dir full"
    unfolding v(2) by (rule path_join_within [OF assms(2) clean_no_dotdot_prefix [OF v(1)]])
  with s show ?thesis by blast
qed

definition accepted :: "prog + string \<Rightarrow> string option" where
  "accepted x = (case x of Inr p \<Rightarrow> Some p | Inl _ \<Rightarrow> None)"

lemma accepted_iff: "accepted x = Some p \<longleftrightarrow> x = Inr p"
  by (simp add: accepted_def split: sum.split)

definition open_files :: filesys where
  "open_files = \<lparr>fs_Stat = (\<lambda>_. Some False), fs_EvalSymlinks = Some, fs_ReadDir = (\<lambda>_. None)\<rparr>"

lemma static_path_contained_witness:
  "path_within ''/srv/www'' ''/srv/www/a/c'' \<and> resolves_inside open_files ''/srv/www'' ''/srv/www/a/c''"
proof -
  have "accepted (validateAndBuildPath open_files (get_request\<lparr>rq_Path := ''/static/a/./b/../c''\<rparr>)
      ''/srv/www'' ''/static/'') = Some ''/srv/www/a/c''"
    by code_simp
  from static_path_contained [OF this [unfolded accepted_iff]] show ?thesis by simp
qed

text \<open>
  The comparison of the resolved paths is one of texts, not of path elements: a link to a directory
  beside the served one, whose name begins with its name, is accepted.
\<close>

lemma symlink_to_sibling_accepted:
  "accepted (validateAndBuildPath
     (open_files\<lparr>fs_EvalSymlinks := (\<lambda>p. if p = ''/srv/www/x'' then Some ''/srv/www-secret/key'' else Some p)\<rparr>)
     (get_request\<lparr>rq_Path := ''/static/x''\<rparr>) ''/srv/www'' ''/static/'') = Some ''/srv/www/x''
   \<and> \<not> path_within ''/srv/www'' ''/srv/www-secret/key''"
  by code_simp

text \<open>
  A route that serves the current directory refuses every file without a leading dot, since no
  resolved relative path begins with the text of the directory; and a file whose name begins with two
  dots is refused as a traversal.
\<close>

lemma static_false_denials:
  "accepted (validateAndBuildPath open_files (get_request\<lparr>rq_Path := ''/static/a.txt''\<rparr>) ''.'' ''/static/'') = None
   \<and> accepted (validateAndBuildPath open_files (get_request\<lparr>rq_Path := ''/static/..a''\<rparr>) ''/srv'' ''/static/'') = None"
  by code_simp

section \<open>The file cache is transparent\<close>

definition stat_value :: "filesys \<Rightarrow> string \<Rightarrow> bool \<times> bool" where
  "stat_value fs path = (case fs_Stat fs path of None \<Rightarrow> (False, False) | Some isDir \<Rightarrow> (True, isDir))"

lemma check_is_lookup:
  "checkFileAccess html serveFile fs r full cfg fc =
     (case files.lookup (stat_value fs) fc full of
        (v, fc') \<Rightarrow> (handleCachedResult html serveFile fs r full (fst v) (snd v) cfg, fc'))"
  by (auto simp: checkFileAccess_def handleCacheMiss_def handleCachedResult_def files.lookup_def
      stat_value_def split: prod.split option.split)

lemma full_path_nonempty:
  "validateAndBuildPath fs r dir prefix = Inr full \<Longrightarrow> dir \<noteq> [] \<Longrightarrow> full \<noteq> []"
  by (auto simp: validateAndBuildPath_def Let_def path_join_two split: if_splits option.splits)

lemma new_cache_faithful: "files.faithful f (newFileCache now)"
  by (simp add: files.faithful_def fc_ok_def newFileCache_def defaultFileCacheMaxSize_def
      fc_view_def fc_read_def)

lemma tick_faithful: "files.faithful f fc \<Longrightarrow> files.faithful f (fc_tick d fc)"
proof -
  assume a: "files.faithful f fc"
  have "fc_view (fc_tick d fc) k = Some v \<Longrightarrow> fc_view fc k = Some v" for k v
    by (auto simp: fc_view_def fc_read_def fc_tick_def stale_def split: option.splits if_splits read_phase.splits)
  with a show ?thesis by (auto simp: files.faithful_def fc_ok_def fc_tick_def)
qed

lemma static_step:
  assumes "files.faithful (stat_value fs) fc" and "files.faithful (stat_value fs) fc0" and "sr_Dir cfg \<noteq> []"
  shows "fst (createSecureStaticHandler html serveFile fs cfg r fc)
      = fst (createSecureStaticHandler html serveFile fs cfg r fc0)
    \<and> files.faithful (stat_value fs) (snd (createSecureStaticHandler html serveFile fs cfg r fc))"
proof (cases "validateAndBuildPath fs r (sr_Dir cfg) (sr_Path cfg)")
  case (Inl p)
  with assms show ?thesis by (simp add: createSecureStaticHandler_def)
next
  case (Inr full)
  then have ne: "full \<noteq> []" using full_path_nonempty assms(3) by blast
  obtain fc1 fc2 where l: "files.lookup (stat_value fs) fc full = (stat_value fs full, fc1)"
    "files.lookup (stat_value fs) fc0 full = (stat_value fs full, fc2)"
    using files.lookup_value [OF assms(1), of full] files.lookup_value [OF assms(2), of full]
    by (metis prod.collapse)
  have "files.faithful (stat_value fs) fc1" using files.lookup_faithful [OF assms(1) ne] l(1) by simp
  with Inr l show ?thesis
    by (simp add: createSecureStaticHandler_def check_is_lookup split: option.split)
qed

datatype static_event = Fetch request | Wait nat

fun static_run ::
    "(directory_listing \<Rightarrow> string) \<Rightarrow> (string \<Rightarrow> handler) \<Rightarrow> filesys \<Rightarrow> static_route \<Rightarrow> static_event list
      \<Rightarrow> file_cache \<Rightarrow> prog list" where
  "static_run html serveFile fs cfg [] fc = []"
| "static_run html serveFile fs cfg (Fetch r # evs) fc =
     (let (p, fc') = createSecureStaticHandler html serveFile fs cfg r fc
      in p # static_run html serveFile fs cfg evs fc')"
| "static_run html serveFile fs cfg (Wait d # evs) fc = static_run html serveFile fs cfg evs (fc_tick d fc)"

fun fetches :: "static_event list \<Rightarrow> request list" where
  "fetches [] = []"
| "fetches (Fetch r # evs) = r # fetches evs"
| "fetches (Wait d # evs) = fetches evs"

text \<open>
  C28: while the file system does not change, the file cache cannot be observed: over any sequence of
  requests and waiting times, with hits, expiry and eviction, every answer is the one an empty cache
  gives.
\<close>

theorem static_cache_transparent:
  assumes "sr_Dir cfg \<noteq> []"
  shows "static_run html serveFile fs cfg evs (newFileCache now)
    = map (\<lambda>r. fst (createSecureStaticHandler html serveFile fs cfg r (newFileCache 0))) (fetches evs)"
proof -
  have "static_run html serveFile fs cfg evs fc
      = map (\<lambda>r. fst (createSecureStaticHandler html serveFile fs cfg r (newFileCache 0))) (fetches evs)"
    if "files.faithful (stat_value fs) fc" for fc
    using that
  proof (induction evs arbitrary: fc)
    case (Cons ev evs)
    show ?case
    proof (cases ev)
      case (Fetch r)
      with static_step [OF Cons.prems new_cache_faithful assms] Cons.IH show ?thesis
        by (simp split: prod.split) (metis fst_conv snd_conv)
    next
      case (Wait d)
      with Cons tick_faithful show ?thesis by simp
    qed
  qed simp
  then show ?thesis using new_cache_faithful by blast
qed

lemma static_cache_transparent_witness:
  "static_run (\<lambda>_. []) (\<lambda>p r. Write (Raw p) (\<lambda>_. Return)) open_files
     \<lparr>sr_Dir = ''/srv'', sr_Path = ''/'', sr_Indexing = 0\<rparr>
     [Fetch get_request, Wait 3, Fetch get_request] (newFileCache 0)
   = map (\<lambda>r. fst (createSecureStaticHandler (\<lambda>_. []) (\<lambda>p r. Write (Raw p) (\<lambda>_. Return)) open_files
        \<lparr>sr_Dir = ''/srv'', sr_Path = ''/'', sr_Indexing = 0\<rparr> r (newFileCache 0))) [get_request, get_request]"
  using static_cache_transparent [of "\<lparr>sr_Dir = ''/srv'', sr_Path = ''/'', sr_Indexing = 0\<rparr>" "\<lambda>_. []"
      "\<lambda>p r. Write (Raw p) (\<lambda>_. Return)" open_files "[Fetch get_request, Wait 3, Fetch get_request]" 0]
  by simp

section \<open>Directory listings\<close>

definition plain :: "string \<Rightarrow> bool" where
  "plain p \<longleftrightarrow> dotdot \<notin> set (split_on slash p)"

lemma clean_segs_plain: "plain p \<Longrightarrow> clean_segs p = filter (\<lambda>s. s \<noteq> [] \<and> s \<noteq> dot) (split_on slash p)"
  by (simp add: plain_def clean_segs_def clean_stack_extends)

lemma clean_segs_join:
  "d \<noteq> [] \<Longrightarrow> plain p \<Longrightarrow> clean_segs (path_join [d, p]) = clean_segs d @ clean_segs p"
  by (simp add: path_join_two clean_segs_append(1) clean_segs_plain plain_def)

lemma is_rooted_join: "d \<noteq> [] \<Longrightarrow> plain p \<Longrightarrow> is_rooted (path_join [d, p]) = is_rooted d"
  by (simp add: path_join_two clean_segs_append(2) plain_def)

lemma path_join_segs:
  "d \<noteq> [] \<Longrightarrow> plain p \<Longrightarrow> path_join [d, p] = path_of_segs (is_rooted d) (clean_segs d @ clean_segs p)"
  by (simp add: path_join_two path_clean_def clean_segs_append clean_segs_plain plain_def)

lemma plain_clean: "plain p \<Longrightarrow> plain (path_clean p)"
proof -
  assume p: "plain p"
  have "dotdot \<notin> set (clean_segs p)" using p by (simp add: clean_segs_plain) (simp add: plain_def)
  then show "plain (path_clean p)"
    using split_on_path_of_segs [OF stack_ok_clean_segs, of p]
    by (cases "clean_segs p")
      (auto simp: plain_def path_clean_def path_of_segs_def dot_def dotdot_def split: if_splits)
qed

lemma plain_name: "name_seg n \<Longrightarrow> plain n \<and> clean_segs n = [n]"
  by (auto simp: plain_def name_seg_def split_on_no_sep clean_segs_plain)

lemma plain_join: "d \<noteq> [] \<Longrightarrow> plain d \<Longrightarrow> plain p \<Longrightarrow> plain (path_join [d, p])"
  by (simp add: path_join_two) (rule plain_clean, simp add: plain_def split_on_append_sep2)

lemma str_join_append:
  "xs \<noteq> [] \<Longrightarrow> ys \<noteq> [] \<Longrightarrow> str_join sep (xs @ ys) = str_join sep xs @ sep @ str_join sep ys"
  by (induction xs rule: list_nonempty_induct) (simp_all add: str_join_Cons)

lemma join_rooted:
  assumes "is_rooted p" and "path_clean p = p" and "p \<noteq> [slash]" and "is_rooted q" and "plain q"
    and "path_clean q = q" and "q \<noteq> [slash]"
  shows "path_join [p, q] = p @ q"
proof -
  have p: "p = slash # str_join [slash] (clean_segs p)" and q: "q = slash # str_join [slash] (clean_segs q)"
    using assms by (simp_all add: path_clean_def path_of_segs_def)
  have ne: "clean_segs p \<noteq> []" "clean_segs q \<noteq> []"
    using p q assms(3,7) by auto
  have "path_join [p, q] = path_of_segs True (clean_segs p @ clean_segs q)"
    using assms(1,5) by (subst path_join_segs) (auto simp: is_rooted_def)
  also have "\<dots> = (slash # str_join [slash] (clean_segs p)) @ (slash # str_join [slash] (clean_segs q))"
    by (simp add: path_of_segs_def str_join_append [OF ne])
  finally show ?thesis using p q by simp
qed

text \<open>A listing has one entry for every item whose information could be read, in the code's order.\<close>

lemma listing_sorted:
  "sorted (map entry_key (dl_Entries (buildDirectoryListing r entries cfg)))
   \<and> mset (dl_Entries (buildDirectoryListing r entries cfg))
      = mset (listing_entries (dl_Path (buildDirectoryListing r entries cfg)) cfg entries)"
  by (simp add: buildDirectoryListing_def Let_def)

lemma path_clean_trailing:
  assumes "p \<noteq> []" and "plain p"
  shows "path_clean (p @ [slash]) = path_clean p"
proof -
  have "plain []" by (simp add: plain_def)
  then have "path_join [p, []] = path_clean p"
    using path_join_segs [OF assms(1)] by (simp add: path_clean_def clean_segs_plain)
  then show ?thesis by (simp add: path_join_two [OF assms(1)])
qed


definition listed_item :: dir_item where
  "listed_item = \<lparr>di_Name = ''f.txt'', di_IsDir = False, di_Info = Some (3, ''t'')\<rparr>"

definition static_files_route :: static_route where
  "static_files_route = \<lparr>sr_Dir = ''/srv'', sr_Path = ''/static'', sr_Indexing = 1\<rparr>"


text \<open>
  Below the root of a route at \<open>/\<close> the links are wrong: the listing of \<open>/sub/\<close> gives its entry the
  relative URL \<open>sub/f.txt\<close>, which a browser on that page resolves to \<open>/sub/sub/f.txt\<close>.
\<close>

lemma root_listing_links_relative:
  "map de_URL (dl_Entries (buildDirectoryListing (get_request\<lparr>rq_Path := ''/sub/''\<rparr>) [listed_item]
      (static_files_route\<lparr>sr_Path := ''/''\<rparr>))) = [''sub/f.txt'']
   \<and> dl_Parent (buildDirectoryListing (get_request\<lparr>rq_Path := ''/a/b/''\<rparr>) [] (static_files_route\<lparr>sr_Path := ''/''\<rparr>))
      = ''a/''"
  by code_simp

end
