(* ===== verification/Server_Handlers.thy ===== *)
theory Server_Handlers
  imports Middleware_Core Go_Path "HOL-Library.Char_ord" "HOL-Library.List_Lexorder"
begin

text \<open>
  The handlers the server offers (\<open>handlers.go\<close>): health, echo and file upload. The multipart form of a
  request is given as what the parser would return from the whole body and the size of the body; the
  disk is a map from paths to contents; the clock and the UUID generator are arguments.
\<close>

section \<open>Health and echo\<close>

definition HealthHandler :: "string \<Rightarrow> handler" where
  "HealthHandler now r = WriteJSON 200 (JObj [(''status'', JStr ''ok''), (''timestamp'', JStr now)]) Return"

text \<open>A request body: its announced length (-1 if unknown) and what the JSON decoder makes of it.\<close>

record echo_body =
  eb_ContentLength :: int
  eb_Decoded :: "json option"

definition sensitiveHeaders :: "string list" where
  "sensitiveHeaders = map CanonicalHeaderKey
     [HeaderNameAuthorization, HeaderNameCookie, HeaderNameSetCookie, HeaderNameXAPIKey,
      HeaderNameProxyAuthorization]"

definition filteredHeaders :: "header \<Rightarrow> header" where
  "filteredHeaders h = filter (\<lambda>(k, _). k \<notin> set sensitiveHeaders) h"

definition headers_json :: "header \<Rightarrow> json" where
  "headers_json h = JObj (map (\<lambda>(k, vs). (to_valid_utf8 k, JArr (map json_string vs))) (sort_key fst h))"

text \<open>The object's keys in the sorted order of the encoder; \<open>query\<close> is the parsed query string.\<close>

definition echo_response :: "json \<Rightarrow> request \<Rightarrow> json \<Rightarrow> json" where
  "echo_response query r body = JObj
     ([(''body'', body), (''headers'', headers_json (filteredHeaders (rq_Header r))),
       (''method'', json_string (rq_Method r)), (''path'', json_string (rq_Path r)), (''query'', query)]
      @ (case rq_User r of Some u \<Rightarrow> [(''user'', json_string u)] | None \<Rightarrow> []))"

definition EchoHandler :: "json \<Rightarrow> echo_body option \<Rightarrow> handler" where
  "EchoHandler query body r =
     (if (case body of Some b \<Rightarrow> eb_ContentLength b > 0 | None \<Rightarrow> False) \<and> \<not> IsRequestContentTypeJSON r
      then write_error 415 ErrorResponseUnsupportedContentType
      else (case body of
              None \<Rightarrow> WriteJSON 200 (echo_response query r JNull) Return
            | Some b \<Rightarrow>
                (case eb_Decoded b of
                   Some j \<Rightarrow> WriteJSON 200 (echo_response query r j) Return
                 | None \<Rightarrow>
                     Log (log_line LevelWarn r ''failed to decode request body in echo handler''
                            [(''reason'', AStr ''invalid_json_body'')])
                       (WriteJSON 200 (echo_response query r JNull) Return))))"

lemma sensitive_list:
  "sensitiveHeaders =
     [''Authorization'', ''Cookie'', ''Set-Cookie'', ''X-Api-Key'', ''Proxy-Authorization'']"
  by code_simp

lemma sensitive_names:
  "set sensitiveHeaders =
     {''Authorization'', ''Cookie'', ''Set-Cookie'', ''X-Api-Key'', ''Proxy-Authorization''}"
  by (simp only: sensitive_list list.set)

text \<open>
  Whatever a client sends, the echo never returns a credential: no header whose canonical name is
  one of the five sensitive ones is echoed, as long as the keys are canonical, as those of a request the
  server has parsed are; every other header is echoed unchanged.
\<close>

theorem echo_hides_credentials:
  assumes "list_all (\<lambda>(k, _). CanonicalHeaderKey k = k) (rq_Header r)"
  shows "hdr_values (filteredHeaders (rq_Header r)) name =
    (if CanonicalHeaderKey name
          \<in> {''Authorization'', ''Cookie'', ''Set-Cookie'', ''X-Api-Key'', ''Proxy-Authorization''}
     then [] else hdr_values (rq_Header r) name)"
proof -
  have "map_get (filteredHeaders h) k = (if k \<in> set sensitiveHeaders then None else map_get h k)" for h k
    by (induction h) (auto simp: filteredHeaders_def map_get_def)
  then show ?thesis by (simp add: hdr_values_def sensitive_names)
qed

lemma echo_hides_credentials_witness:
  "hdr_values (filteredHeaders (rq_Header (get_request\<lparr>rq_Header :=
      [(''X-Api-Key'', [''k'']), (''Accept'', [''a''])]\<rparr>))) ''x-API-key'' = []"
proof -
  let ?r = "get_request\<lparr>rq_Header := [(''X-Api-Key'', [''k'']), (''Accept'', [''a''])]\<rparr>"
  have "list_all (\<lambda>(k, _). CanonicalHeaderKey k = k) (rq_Header ?r)" by code_simp
  moreover have "CanonicalHeaderKey ''x-API-key'' = ''X-Api-Key''" by code_simp
  ultimately show ?thesis using echo_hides_credentials [of ?r "''x-API-key''"] by simp
qed

section \<open>Upload\<close>

definition FilenamePrependTypeNone :: nat where
  "FilenamePrependTypeNone = 1"

definition FilenamePrependTypeDateTime :: nat where
  "FilenamePrependTypeDateTime = 2"

definition FilenamePrependTypeUUID :: nat where
  "FilenamePrependTypeUUID = 3"

definition DefaultFileUploadMaxSize :: int where
  "DefaultFileUploadMaxSize = 104857600"

type_synonym upload_postprocessor = "(string \<times> json) list \<Rightarrow> request \<Rightarrow> (string \<times> json) list option"

record upload_config =
  uc_postprocessor :: "upload_postprocessor option"
  uc_filenamePrepend :: nat
  uc_maxSize :: int

type_synonym upload_option = "upload_config \<Rightarrow> upload_config"

definition WithFileUploadHandlerPostprocessor :: "upload_postprocessor option \<Rightarrow> upload_option" where
  "WithFileUploadHandlerPostprocessor processor c = c\<lparr>uc_postprocessor := processor\<rparr>"

definition WithFilenamePrependType :: "nat \<Rightarrow> upload_option" where
  "WithFilenamePrependType prependType c = c\<lparr>uc_filenamePrepend := prependType\<rparr>"

definition WithFileUploadMaxSize :: "int \<Rightarrow> upload_option" where
  "WithFileUploadMaxSize maxSize c = (if maxSize > 0 then c\<lparr>uc_maxSize := maxSize\<rparr> else c)"

definition default_upload_config :: upload_config where
  "default_upload_config =
     \<lparr>uc_postprocessor = None, uc_filenamePrepend = FilenamePrependTypeUUID,
      uc_maxSize = DefaultFileUploadMaxSize\<rparr>"

definition fileUploadMaxSize :: "upload_config option \<Rightarrow> int" where
  "fileUploadMaxSize config =
     (case config of
        Some c \<Rightarrow> if uc_maxSize c > 0 then uc_maxSize c else DefaultFileUploadMaxSize
      | None \<Rightarrow> DefaultFileUploadMaxSize)"

record uploaded_file =
  uf_Filename :: string
  uf_Size :: int
  uf_Data :: string

text \<open>
  The body of an upload: its size, and the form in it, if it is one: the file of the field \<open>file\<close>, if any.
\<close>

record upload_body =
  ub_Size :: int
  ub_Form :: "uploaded_file option option"

type_synonym disk = "(string, string) gomap"

text \<open>
  What the operating system may refuse: creating the file (for another reason than that it exists), and
  copying all of it, which then leaves what was written.
\<close>

record os_faults =
  os_create_fails :: bool
  os_copied :: "nat option"

definition generateUniqueFilename :: "string \<Rightarrow> string \<Rightarrow> string \<Rightarrow> nat \<Rightarrow> string" where
  "generateUniqueFilename now uuid originalFilename prependType =
     (let base = path_base originalFilename
      in if prependType = FilenamePrependTypeNone then base
         else if prependType = FilenamePrependTypeDateTime then now @ ''_'' @ base
         else uuid @ ''_'' @ base)"

text \<open>\<open>O_CREATE|O_EXCL\<close>: creating a file that exists fails.\<close>

definition saveUploadedFile :: "os_faults \<Rightarrow> string \<Rightarrow> string \<Rightarrow> disk \<Rightarrow> bool \<times> disk" where
  "saveUploadedFile os data filePath disk =
     (if os_create_fails os \<or> map_get disk filePath \<noteq> None then (False, disk)
      else (case os_copied os of
              None \<Rightarrow> (True, map_set disk filePath data)
            | Some n \<Rightarrow> (False, map_set disk filePath (take n data))))"

definition upload_fields :: "uploaded_file \<Rightarrow> string \<Rightarrow> (string \<times> json) list" where
  "upload_fields f saved =
     [(''original_filename'', json_string (uf_Filename f)), (''path'', json_string saved),
      (''saved_filename'', json_string saved), (''size'', JNum (uf_Size f)), (''status'', JStr ''success'')]"

definition handleFileUpload ::
    "os_faults \<Rightarrow> string \<Rightarrow> string \<Rightarrow> string \<Rightarrow> upload_config \<Rightarrow> request \<Rightarrow> upload_body \<Rightarrow> disk \<Rightarrow> prog \<times> disk" where
  "handleFileUpload os now uuid uploadsDir config r body disk =
     (case (if ub_Size body > fileUploadMaxSize (Some config) then None else ub_Form body) of
        None \<Rightarrow>
          (Log (log_line LevelWarn r ''failed to parse multipart form''
                  [(''reason'', AStr ''invalid_multipart_form'')])
             (write_error 400 ErrorResponseInvalidMultipartForm), disk)
      | Some None \<Rightarrow>
          (Log (log_line LevelWarn r ''failed to get file from form''
                  [(''reason'', AStr ''missing_upload_file'')])
             (write_error 400 ErrorResponseNoFileProvided), disk)
      | Some (Some f) \<Rightarrow>
          let saved = generateUniqueFilename now uuid (uf_Filename f) (uc_filenamePrepend config);
              filePath = path_join [uploadsDir, saved];
              (ok, disk') = saveUploadedFile os (uf_Data f) filePath disk
          in if \<not> ok then (write_error 500 ErrorResponseFileSaveFailed, disk')
             else (case uc_postprocessor config of
                     None \<Rightarrow> (WriteJSON 200 (JObj (upload_fields f saved)) Return, disk')
                   | Some post \<Rightarrow>
                       (case post (upload_fields f saved) r of
                          None \<Rightarrow>
                            (Log (log_line LevelError r ''failed to postprocess upload response'' [])
                               (write_error 500 ErrorResponseInternalServerError), disk')
                        | Some processed \<Rightarrow> (WriteJSON 200 (JObj processed) Return, disk'))))"

definition FileUploadHandler ::
    "os_faults \<Rightarrow> string \<Rightarrow> string \<Rightarrow> string \<Rightarrow> upload_option list \<Rightarrow> request \<Rightarrow> upload_body \<Rightarrow> disk \<Rightarrow> prog \<times> disk" where
  "FileUploadHandler os now uuid uploadsDir opts r body disk =
     (if rq_Method r \<noteq> ''POST'' then (write_error 405 ErrorResponseMethodNotAllowed, disk)
      else handleFileUpload os now uuid uploadsDir (apply_options opts default_upload_config) r body disk)"

section \<open>Where an upload may go\<close>

lemma path_base_cases: "path_base p = dot \<or> path_base p = [slash] \<or> path_base p \<noteq> [] \<and> slash \<notin> set (path_base p)"
proof -
  have "slash \<notin> set (after_last_slash q)" for q
    by (auto simp: after_last_slash_def dest: set_takeWhileD)
  then show ?thesis by (auto simp: path_base_def Let_def)
qed

lemma prefixed_name:
  assumes "pre \<noteq> []" and "slash \<notin> set pre" and "name = pre @ ''_'' @ path_base orig" and "d \<noteq> []"
  shows "\<exists>seg. name_seg seg \<and> clean_segs (path_join [d, name]) = clean_segs d @ [seg]"
proof -
  have us: "''_'' @ b \<noteq> ''.''" "pre @ ''_'' @ b \<noteq> dot" "pre @ ''_'' @ b \<noteq> dotdot" for b
    using assms(1) by (cases pre; auto simp: dot_def dotdot_def append_eq_Cons_conv)+
  have j: "clean_segs (path_join [d, q]) = clean_segs d @ filter (\<lambda>s. s \<noteq> [] \<and> s \<noteq> dot) (split_on slash q)"
    if "dotdot \<notin> set (split_on slash q)" for q
    using clean_segs_append(1) [OF assms(4) that] by (simp add: path_join_two [OF assms(4)])
  consider "path_base orig = [slash]" | "slash \<notin> set (path_base orig)"
    using path_base_cases [of orig] by auto
  then show ?thesis
  proof cases
    case 1
    then have n: "split_on slash name = [pre @ ''_'', []]"
      using assms(2,3) split_on_append_sep [of slash "pre @ ''_''" "[]"] by simp
    have "name_seg (pre @ ''_'')" using us [of "[]"] assms(2) by (simp add: name_seg_def)
    then show ?thesis
      using j [of name] n by (intro exI [of _ "pre @ ''_''"]) (auto simp: name_seg_def)
  next
    case 2
    then have ns: "name_seg name" using us assms(2,3) by (auto simp: name_seg_def)
    then have "split_on slash name = [name]" by (intro split_on_no_sep) (simp add: name_seg_def)
    then show ?thesis using j [of name] ns by (intro exI [of _ name]) (auto simp: name_seg_def)
  qed
qed

text \<open>
  Whatever file name the client sends, with the default naming (or the date) an upload is stored
  directly in the upload directory: at one more path element than it, which is a plain name. (The prefix
  is not empty and holds no slash, as a UUID and the date format are.)
\<close>

theorem upload_stays_in_directory:
  assumes "now \<noteq> []" and "slash \<notin> set now" and "uuid \<noteq> []" and "slash \<notin> set uuid"
    and "prependType \<noteq> FilenamePrependTypeNone" and "uploadsDir \<noteq> []"
  shows "\<exists>seg. name_seg seg \<and>
    clean_segs (path_join [uploadsDir, generateUniqueFilename now uuid orig prependType])
      = clean_segs uploadsDir @ [seg]"
  using assms prefixed_name [OF assms(1,2) refl assms(6), of orig] prefixed_name [OF assms(3,4) refl assms(6), of orig]
  by (simp add: generateUniqueFilename_def Let_def)

lemma upload_stays_in_directory_witness:
  "\<exists>seg. name_seg seg \<and>
    clean_segs (path_join [''/srv/up'', generateUniqueFilename ''2024'' ''u-1'' ''../../etc/passwd'' 3])
      = clean_segs ''/srv/up'' @ [seg]"
  by (rule upload_stays_in_directory) (simp_all add: FilenamePrependTypeNone_def)

lemma saveUploadedFile_keeps:
  "map_get disk path = Some c \<Longrightarrow> map_get (snd (saveUploadedFile os data filePath disk)) path = Some c"
  by (auto simp: saveUploadedFile_def split: option.splits)


definition good_upload :: upload_body where
  "good_upload = \<lparr>ub_Size = 10, ub_Form = Some (Some \<lparr>uf_Filename = ''a'', uf_Size = 2, uf_Data = ''hi''\<rparr>)\<rparr>"


text \<open>
  Within the limit, with a new name and a disk that does not fail, an upload answers 200 and the
  bytes of the file are what is stored, at the path that was answered.
\<close>

theorem upload_stores_content:
  assumes "rq_Method r = ''POST''" and "ub_Form body = Some (Some f)"
    and "ub_Size body \<le> fileUploadMaxSize (Some (apply_options opts default_upload_config))"
    and "os = \<lparr>os_create_fails = False, os_copied = None\<rparr>"
    and "saved = generateUniqueFilename now uuid (uf_Filename f)
           (uc_filenamePrepend (apply_options opts default_upload_config))"
    and "uc_postprocessor (apply_options opts default_upload_config) = None"
    and "map_get disk (path_join [dir, saved]) = None"
  shows "FileUploadHandler os now uuid dir opts r body disk =
    (WriteJSON 200 (JObj (upload_fields f saved)) Return, map_set disk (path_join [dir, saved]) (uf_Data f))"
  using assms by (simp add: FileUploadHandler_def handleFileUpload_def saveUploadedFile_def Let_def)

lemma upload_stores_content_witness:
  "snd (FileUploadHandler \<lparr>os_create_fails = False, os_copied = None\<rparr> ''2024'' ''u'' ''/up'' []
     (get_request\<lparr>rq_Method := ''POST''\<rparr>) good_upload []) = [(''/up/u_a'', ''hi'')]"
proof -
  have p: "path_join [''/up'', generateUniqueFilename ''2024'' ''u'' ''a'' 3] = ''/up/u_a''" by code_simp
  show ?thesis
    by (subst upload_stores_content [where f = "\<lparr>uf_Filename = ''a'', uf_Size = 2, uf_Data = ''hi''\<rparr>"
          and saved = "generateUniqueFilename ''2024'' ''u'' ''a'' 3"])
      (simp_all add: good_upload_def fileUploadMaxSize_def apply_options_def default_upload_config_def
        DefaultFileUploadMaxSize_def FilenamePrependTypeUUID_def p map_set_def)
qed

end
