(* ===== verification/Router_Group.thy ===== *)
theory Router_Group imports Middleware_Core Go_Path begin

text \<open>
  Route groups and the set-up of a server's routes (\<open>group.go\<close>, \<open>router.go\<close> and the routing part of
  \<open>server.go\<close>). The multiplexer is the list of the registrations made, in order; what \<open>http.ServeMux\<close>
  does with them is not part of the model. \<open>None\<close> as the result of a set-up is the panic of a
  nil pointer dereference.
\<close>

section \<open>Paths and patterns\<close>

definition cleanPrefix :: "string \<Rightarrow> string" where
  "cleanPrefix prefix =
     (if prefix = [] \<or> prefix = ''/'' then []
      else
        let cleaned = path_clean prefix
        in if cleaned = ''.'' then [] else trim_suffix cleaned ''/'')"

definition joinPaths :: "string \<Rightarrow> string \<Rightarrow> string" where
  "joinPaths base sub =
     (if sub = [] \<or> sub = ''/'' then base
      else
        let sub' = (if \<not> has_prefix sub ''/'' then ''/'' @ sub else sub);
            result = base @ sub'
        in if result = [] then ''/'' else result)"

definition buildRoute :: "string \<Rightarrow> string \<Rightarrow> string" where
  "buildRoute meth path =
     (let path' = (if path = [] then ''/'' else path);
          meth' = trim_space (to_upper meth)
      in if meth' = [] then path' else meth' @ '' '' @ path')"

section \<open>Groups\<close>

type_synonym registrations = "(string \<times> handler) list"

record group =
  g_prefix :: string
  g_middlewares :: "middleware list"

definition NewGroup :: "string \<Rightarrow> middleware list \<Rightarrow> group" where
  "NewGroup prefix middlewares = \<lparr>g_prefix = cleanPrefix prefix, g_middlewares = middlewares\<rparr>"

definition Use :: "middleware list \<Rightarrow> group \<Rightarrow> group" where
  "Use middlewares g = g\<lparr>g_middlewares := g_middlewares g @ middlewares\<rparr>"

definition SubGroup :: "string \<Rightarrow> middleware list \<Rightarrow> group \<Rightarrow> group" where
  "SubGroup subPrefix middlewares g =
     \<lparr>g_prefix = joinPaths (g_prefix g) subPrefix, g_middlewares = g_middlewares g @ middlewares\<rparr>"

definition Handle ::
    "group \<Rightarrow> string \<Rightarrow> string \<Rightarrow> handler \<Rightarrow> middleware list \<Rightarrow> registrations \<Rightarrow> registrations" where
  "Handle g meth pattern h middlewares mux =
     (let fullPath = joinPaths (g_prefix g) pattern;
          route = buildRoute meth fullPath;
          allMiddlewares = g_middlewares g @ middlewares;
          finalHandler = Chain h allMiddlewares
      in mux @ [(route, finalHandler)])"

definition HandleFunc ::
    "group \<Rightarrow> string \<Rightarrow> string \<Rightarrow> handler \<Rightarrow> middleware list \<Rightarrow> registrations \<Rightarrow> registrations" where
  "HandleFunc g meth pattern h middlewares = Handle g meth pattern h middlewares"

definition group_GET :: "group \<Rightarrow> string \<Rightarrow> handler \<Rightarrow> middleware list \<Rightarrow> registrations \<Rightarrow> registrations" where
  "group_GET g pattern h ms = HandleFunc g ''GET'' pattern h ms"

definition group_POST :: "group \<Rightarrow> string \<Rightarrow> handler \<Rightarrow> middleware list \<Rightarrow> registrations \<Rightarrow> registrations" where
  "group_POST g pattern h ms = HandleFunc g ''POST'' pattern h ms"

definition group_PUT :: "group \<Rightarrow> string \<Rightarrow> handler \<Rightarrow> middleware list \<Rightarrow> registrations \<Rightarrow> registrations" where
  "group_PUT g pattern h ms = HandleFunc g ''PUT'' pattern h ms"

definition group_PATCH :: "group \<Rightarrow> string \<Rightarrow> handler \<Rightarrow> middleware list \<Rightarrow> registrations \<Rightarrow> registrations" where
  "group_PATCH g pattern h ms = HandleFunc g ''PATCH'' pattern h ms"

definition group_DELETE :: "group \<Rightarrow> string \<Rightarrow> handler \<Rightarrow> middleware list \<Rightarrow> registrations \<Rightarrow> registrations" where
  "group_DELETE g pattern h ms = HandleFunc g ''DELETE'' pattern h ms"

definition group_OPTIONS :: "group \<Rightarrow> string \<Rightarrow> handler \<Rightarrow> middleware list \<Rightarrow> registrations \<Rightarrow> registrations" where
  "group_OPTIONS g pattern h ms = HandleFunc g ''OPTIONS'' pattern h ms"

section \<open>Configuration and set-up\<close>

record route_config =
  rt_Method :: string
  rt_Path :: string
  rt_Handler :: "handler option"

datatype group_config =
  GroupConfig (gc_Path: string) (gc_Middlewares: "middleware list") (gc_Routes: "route_config list")
    (gc_Groups: "group_config list")

record static_config =
  st_Dir :: string
  st_Path :: string
  st_Handler :: handler

record router =
  r_GlobalMiddlewares :: "middleware list"
  r_Static :: "static_config list"
  r_Groups :: "group_config list"
  r_rootGroup :: "group option"

definition setupRoute :: "group \<Rightarrow> route_config \<Rightarrow> registrations \<Rightarrow> registrations" where
  "setupRoute g rc mux =
     (case rt_Handler rc of
        None \<Rightarrow> mux
      | Some h \<Rightarrow> HandleFunc g (rt_Method rc) (rt_Path rc) h [] mux)"

primrec setupRouteGroup :: "group_config \<Rightarrow> group \<Rightarrow> registrations \<Rightarrow> registrations" where
  "setupRouteGroup (GroupConfig path mws routes groups) parent mux =
     (let g = Use mws (SubGroup path [] parent);
          mux' = foldl (\<lambda>m rc. setupRoute g rc m) mux routes
      in foldl (\<lambda>m f. f g m) mux' (map setupRouteGroup groups))"

text \<open>The static file handler of a route is given with its configuration.\<close>

definition setupStaticRoute :: "group \<Rightarrow> static_config \<Rightarrow> registrations \<Rightarrow> registrations" where
  "setupStaticRoute root sc mux =
     (let pattern = (if \<not> has_suffix (st_Path sc) ''/'' then st_Path sc @ ''/'' else st_Path sc);
          staticPattern = pattern @ ''{path...}''
      in Handle root ''GET'' staticPattern (st_Handler sc) [] mux)"

text \<open>The part of the server's state that routing uses; \<open>sv_rootOnce\<close> is \<open>rootGroupOnce\<close>, used up or not.\<close>

record server_routes =
  sv_router :: "router option"
  sv_rootOnce :: bool
  sv_mux :: registrations

definition empty_router :: router where
  "empty_router = \<lparr>r_GlobalMiddlewares = [], r_Static = [], r_Groups = [], r_rootGroup = None\<rparr>"

definition new_server :: server_routes where
  "new_server = \<lparr>sv_router = Some empty_router, sv_rootOnce = False, sv_mux = []\<rparr>"

definition root_once :: "server_routes \<Rightarrow> server_routes" where
  "root_once s =
     (if sv_rootOnce s then s
      else
        let r = (case sv_router s of None \<Rightarrow> empty_router | Some r \<Rightarrow> r);
            r' = (if r_rootGroup r = None then r\<lparr>r_rootGroup := Some (NewGroup ''/'' [])\<rparr> else r)
        in s\<lparr>sv_rootOnce := True, sv_router := Some r'\<rparr>)"

text \<open>The outer option is the panic when \<open>s.router\<close> is nil, the inner one a nil root group.\<close>

definition GetRootGroup :: "server_routes \<Rightarrow> (group option \<times> server_routes) option" where
  "GetRootGroup s =
     (let s' = root_once s
      in map_option (\<lambda>r. (r_rootGroup r, s')) (sv_router s'))"

definition setupGlobalMiddlewares :: "router \<Rightarrow> server_routes \<Rightarrow> server_routes" where
  "setupGlobalMiddlewares r s =
     s\<lparr>sv_router := Some (r\<lparr>r_rootGroup := Some (Use (r_GlobalMiddlewares r) (NewGroup ''/'' []))\<rparr>)\<rparr>"

definition setupRoutes :: "server_routes \<Rightarrow> server_routes option" where
  "setupRoutes s =
     (case GetRootGroup s of
        None \<Rightarrow> None
      | Some (root, s') \<Rightarrow>
          let r = the (sv_router s');
              statics = filter (\<lambda>sc. st_Dir sc \<noteq> [] \<and> st_Path sc \<noteq> []) (r_Static r)
          in case root of
               None \<Rightarrow> (if r_Groups r = [] \<and> statics = [] then Some s' else None)
             | Some g \<Rightarrow>
                 let m1 = foldl (\<lambda>m gc. setupRouteGroup gc g m) (sv_mux s') (r_Groups r);
                     m2 = foldl (\<lambda>m sc. setupStaticRoute g sc m) m1 statics
                 in Some (s'\<lparr>sv_mux := m2\<rparr>))"

text \<open>\<open>setupRouter\<close> without the check of the TLS files that follows it.\<close>

definition setupRouter :: "router option \<Rightarrow> server_routes \<Rightarrow> server_routes option" where
  "setupRouter router s =
     (let s1 = s\<lparr>sv_router := router\<rparr>
      in case router of
           None \<Rightarrow> Some s1
         | Some r \<Rightarrow>
             setupRoutes (if r_GlobalMiddlewares r \<noteq> [] then setupGlobalMiddlewares r s1 else s1))"

section \<open>Paths\<close>

lemma trim_suffix_no_trailing:
  "\<not> has_suffix s t \<Longrightarrow> trim_suffix s t = s"
  by (simp add: trim_suffix_def)

lemma clean_no_trailing_slash:
  assumes "path_clean p \<noteq> ''/''"
  shows "\<not> has_suffix (path_clean p) ''/''"
proof
  assume "has_suffix (path_clean p) ''/''"
  then obtain q where q: "path_clean p = q @ ''/''" by (auto simp: has_suffix_iff)
  have "split_on slash (path_clean p) = split_on slash q @ [[]]"
    unfolding q using split_on_append_sep2 [of slash q "[]"] by simp
  then have e: "[] = last (split_on slash (path_clean p))" by simp
  show False
  proof (cases "clean_segs p")
    case Nil
    with q assms show False by (auto simp: path_clean_def path_of_segs_def dot_def split: if_splits)
  next
    case (Cons a as)
    have "last (split_on slash (path_clean p)) = last (clean_segs p)"
      using split_on_path_of_segs [OF stack_ok_clean_segs, of p] Cons
      by (simp add: path_clean_def)
    moreover have "last (clean_segs p) \<in> set (clean_segs p)" using Cons by simp
    then have "last (clean_segs p) \<noteq> []" using stack_ok_nonempty [OF stack_ok_clean_segs, of "last (clean_segs p)" p] by simp
    ultimately show False using e by simp
  qed
qed

text \<open>
  The prefix of a group built from any text has no trailing slash and no dot elements: it is empty
  for the root, otherwise the cleaned path, and normalising it again changes nothing.
\<close>

theorem clean_prefix_normal:
  "\<not> has_suffix (cleanPrefix p) ''/'' \<and> cleanPrefix (cleanPrefix p) = cleanPrefix p
   \<and> (cleanPrefix p = [] \<or> cleanPrefix p = path_clean p)"
proof (cases "p = [] \<or> p = ''/'' \<or> path_clean p = ''.'' \<or> path_clean p = ''/''")
  case True
  have t: "trim_suffix ''/'' ''/'' = []" by code_simp
  have "cleanPrefix p = []" using True by (elim disjE) (simp_all add: cleanPrefix_def Let_def t)
  moreover have "cleanPrefix [] = []" "\<not> has_suffix [] ''/''"
    by (simp_all add: cleanPrefix_def has_suffix_def)
  ultimately show ?thesis by simp
next
  case False
  then have n: "\<not> has_suffix (path_clean p) ''/''" using clean_no_trailing_slash by blast
  then have "cleanPrefix p = path_clean p"
    using False by (simp add: cleanPrefix_def Let_def trim_suffix_no_trailing)
  with n False show ?thesis
    by (simp add: cleanPrefix_def Let_def trim_suffix_no_trailing)
qed

text \<open>
  Joining does not clean, as its comment says it does: a group at \<open>/api/\<close> with a route at \<open>/users\<close>
  is registered under a pattern with two slashes.
\<close>

lemma join_paths_does_not_clean:
  "buildRoute ''get'' (joinPaths (g_prefix (SubGroup ''/api/'' [] (NewGroup ''/'' []))) ''/users'')
    = ''GET /api//users'' \<and> path_clean ''/api//users'' = ''/api/users''"
  by code_simp

section \<open>What is registered\<close>

text \<open>
  The reference: the routes of a configuration, in order, each under the joined paths of its groups and
  with its handler inside all their middlewares, the outermost group's first.
\<close>

definition inside :: "middleware list \<Rightarrow> handler \<Rightarrow> handler" where
  "inside ms h = foldr (\<lambda>m h. m h) ms h"

definition route_of :: "string \<Rightarrow> middleware list \<Rightarrow> route_config \<Rightarrow> registrations" where
  "route_of prefix ms rc =
     (case rt_Handler rc of
        None \<Rightarrow> []
      | Some h \<Rightarrow> [(buildRoute (rt_Method rc) (joinPaths prefix (rt_Path rc)), inside ms h)])"

primrec routes_of :: "group_config \<Rightarrow> string \<Rightarrow> middleware list \<Rightarrow> registrations" where
  "routes_of (GroupConfig path mws routes groups) prefix outer =
     concat (map (route_of (joinPaths prefix path) (outer @ mws)) routes)
     @ concat (map (\<lambda>f. f (joinPaths prefix path) (outer @ mws)) (map routes_of groups))"

definition static_of :: "middleware list \<Rightarrow> static_config \<Rightarrow> string \<times> handler" where
  "static_of ms sc =
     (''GET '' @ joinPaths [] ((if has_suffix (st_Path sc) ''/'' then st_Path sc else st_Path sc @ ''/'')
        @ ''{path...}''), inside ms (st_Handler sc))"

lemma Chain_inside: "Chain h ms = inside ms h"
  by (induction ms) (simp_all add: inside_def)

lemma setupRoute_spec:
  "setupRoute g rc mux = mux @ route_of (g_prefix g) (g_middlewares g) rc"
  by (simp add: setupRoute_def HandleFunc_def Handle_def Let_def route_of_def Chain_inside split: option.split)

lemma setupRoutes_fold:
  "foldl (\<lambda>m rc. setupRoute g rc m) mux routes
    = mux @ concat (map (route_of (g_prefix g) (g_middlewares g)) routes)"
  by (induction routes arbitrary: mux) (simp_all add: setupRoute_spec)

lemma foldl_append_all:
  "(\<And>f x m. f \<in> set fs \<Longrightarrow> F f m = m @ G f) \<Longrightarrow> foldl (\<lambda>m f. F f m) mux fs = mux @ concat (map G fs)"
  by (induction fs arbitrary: mux) auto

lemma setupRouteGroup_spec:
  "setupRouteGroup gc g mux = mux @ routes_of gc (g_prefix g) (g_middlewares g)"
proof (induction gc arbitrary: g mux)
  case (GroupConfig path mws routes groups)
  let ?g = "Use mws (SubGroup path [] g)"
  have "foldl (\<lambda>m f. f ?g m) m (map setupRouteGroup groups)
      = m @ concat (map (\<lambda>gc. routes_of gc (g_prefix ?g) (g_middlewares ?g)) groups)" for m
  proof -
    have "foldl (\<lambda>m gc. setupRouteGroup gc ?g m) m groups
        = m @ concat (map (\<lambda>gc. routes_of gc (g_prefix ?g) (g_middlewares ?g)) groups)"
      by (rule foldl_append_all) (rule GroupConfig)
    then show ?thesis by (simp add: foldl_map)
  qed
  then show ?case
    by (simp add: Let_def setupRoutes_fold Use_def SubGroup_def comp_def)
qed

lemma setupStaticRoute_spec:
  assumes "g_prefix g = []"
  shows "setupStaticRoute g sc mux = mux @ [static_of (g_middlewares g) sc]"
proof -
  have m: "trim_space (to_upper ''GET'') = ''GET''" by code_simp
  have j: "joinPaths [] (p @ ''{path...}'') \<noteq> []" for p
    by (simp add: joinPaths_def Let_def)
  show ?thesis
    using assms j [of "if has_suffix (st_Path sc) ''/'' then st_Path sc else st_Path sc @ ''/''"]
    by (auto simp: setupStaticRoute_def Let_def Handle_def static_of_def buildRoute_def m Chain_inside)
qed

lemma root_prefix: "g_prefix (NewGroup ''/'' ms) = []" "g_middlewares (NewGroup ''/'' ms) = ms"
  by (simp_all add: NewGroup_def cleanPrefix_def)

lemma setup_with_root:
  assumes "GetRootGroup s = Some (Some g, s')" and "sv_router s' = Some r" and "g_prefix g = []"
  shows "map_option sv_mux (setupRoutes s) = Some (sv_mux s'
    @ concat (map (\<lambda>gc. routes_of gc [] (g_middlewares g)) (r_Groups r))
    @ map (static_of (g_middlewares g)) (filter (\<lambda>sc. st_Dir sc \<noteq> [] \<and> st_Path sc \<noteq> []) (r_Static r)))"
proof -
  have "foldl (\<lambda>m gc. setupRouteGroup gc g m) mux gs = mux @ concat (map (\<lambda>gc. routes_of gc [] (g_middlewares g)) gs)"
    for mux gs
    by (rule foldl_append_all) (simp add: setupRouteGroup_spec assms(3))
  moreover have "foldl (\<lambda>m sc. setupStaticRoute g sc m) mux scs = mux @ map (static_of (g_middlewares g)) scs"
    for mux scs
    by (induction scs arbitrary: mux) (simp_all add: setupStaticRoute_spec [OF assms(3)])
  ultimately show ?thesis using assms by (simp add: setupRoutes_def Let_def)
qed


definition example_router :: router where
  "example_router = empty_router\<lparr>r_Groups := [GroupConfig ''/api'' []
     [\<lparr>rt_Method = ''GET'', rt_Path = ''/users'', rt_Handler = Some (\<lambda>_. Return)\<rparr>] []]\<rparr>"


text \<open>
  A server whose root group was asked for before it starts (to register routes by hand) panics when
  it is then started with a router that has groups or static routes and no global middleware: the
  once-only initialisation was spent on the router it started with, and the new one's root group is nil.
\<close>

lemma root_group_before_start_panics:
  assumes "r_rootGroup r = None" and "r_GlobalMiddlewares r = []" and "r_Groups r \<noteq> []"
  shows "\<exists>g s. GetRootGroup new_server = Some (Some g, s) \<and> setupRouter (Some r) s = None"
  using assms
  by (auto simp: GetRootGroup_def root_once_def new_server_def empty_router_def setupRouter_def setupRoutes_def
      Let_def)

lemma root_group_before_start_panics_witness:
  "\<exists>g s. GetRootGroup new_server = Some (Some g, s) \<and> setupRouter (Some example_router) s = None"
  by (rule root_group_before_start_panics) (simp_all add: example_router_def empty_router_def)

end
