(* ===== verification/Server_Lifecycle.thy ===== *)
theory Server_Lifecycle imports Router_Group begin

text \<open>
  Start and stop of the server (\<open>server.go\<close>): the check of the TLS files, the listeners, the wait, and
  the shutdown that happens once. What the operating system and \<open>net/http\<close> answer is the record
  \<open>server_env\<close>; \<open>http.Server.Shutdown\<close> is modelled by its documentation: it closes the server's
  listener, then waits for the active connections until its context ends, and returns the context's
  error if they were not done. Times are in nanoseconds; the two servers shut down concurrently, and
  the order in which they report is part of the environment. Log lines are left out. The same steps under
  every interleaving are in \<open>Server_Run\<close>.
\<close>

section \<open>Definitions\<close>

datatype server_error =
    ErrTLSCertFileNotSpecified
  | ErrTLSKeyFileNotSpecified
  | ErrTLSFileNotAccessible string
  | ErrCreateHTTPListener
  | ErrCreateHTTPSListener
  | ErrContextCancelled
  | ErrServe string
  | ErrShutdown string
  | ErrCloseListener string

record server_env =
  en_TLSEnabled :: bool
  en_TLSCertFile :: string
  en_TLSKeyFile :: string
  en_ShutdownTimeout :: int
  en_accessible :: "string \<Rightarrow> bool"
  en_listen_http :: bool
  en_listen_https :: bool
  en_drain_http :: int
  en_drain_https :: int
  en_https_first :: bool
  en_close_fails :: "string \<Rightarrow> bool"

text \<open>A listener is absent, open or closed.\<close>

datatype listener = NoListener | Open | Closed

record server_state =
  ss_http :: listener
  ss_https :: listener
  ss_done :: bool
  ss_stopped :: bool

definition NewServer :: server_state where
  "NewServer = \<lparr>ss_http = NoListener, ss_https = NoListener, ss_done = False, ss_stopped = False\<rparr>"

definition validateTLSConfig :: "server_env \<Rightarrow> server_error option" where
  "validateTLSConfig env =
     (if \<not> en_TLSEnabled env then None
      else if en_TLSCertFile env = [] then Some ErrTLSCertFileNotSpecified
      else if en_TLSKeyFile env = [] then Some ErrTLSKeyFileNotSpecified
      else if \<not> en_accessible env (en_TLSCertFile env) then Some (ErrTLSFileNotAccessible (en_TLSCertFile env))
      else if \<not> en_accessible env (en_TLSKeyFile env) then Some (ErrTLSFileNotAccessible (en_TLSKeyFile env))
      else None)"

definition close_listener :: "listener \<Rightarrow> listener" where
  "close_listener l = (if l = Open then Closed else l)"

definition createListeners :: "server_env \<Rightarrow> server_state \<Rightarrow> server_error option \<times> server_state" where
  "createListeners env s =
     (if \<not> en_listen_http env then (Some ErrCreateHTTPListener, s)
      else
        let s1 = s\<lparr>ss_http := Open\<rparr>
        in if \<not> en_TLSEnabled env then (None, s1)
           else if \<not> en_listen_https env
             then (Some ErrCreateHTTPSListener, s1\<lparr>ss_http := close_listener (ss_http s1)\<rparr>)
           else (None, s1\<lparr>ss_https := Open\<rparr>))"

text \<open>What ends the wait, and the result of \<open>waitForCompletion\<close>.\<close>

datatype wait_event = CtxDone | StopCalled | HTTPFailed string | HTTPSFailed string

definition waitForCompletion :: "wait_event \<Rightarrow> server_error option" where
  "waitForCompletion ev =
     (case ev of
        CtxDone \<Rightarrow> Some ErrContextCancelled
      | StopCalled \<Rightarrow> None
      | HTTPFailed e \<Rightarrow> Some (ErrServe e)
      | HTTPSFailed e \<Rightarrow> Some (ErrServe e))"

text \<open>The time a shutdown has: the configured timeout, or what is left of the context it is given.\<close>

definition shutdown_time :: "server_env \<Rightarrow> int option \<Rightarrow> int" where
  "shutdown_time env left =
     (case left of None \<Rightarrow> en_ShutdownTimeout env | Some t \<Rightarrow> min (en_ShutdownTimeout env) t)"

definition shutdown_errors :: "server_env \<Rightarrow> int \<Rightarrow> server_error list" where
  "shutdown_errors env time =
     (let http = (if en_drain_http env \<le> time then [] else [ErrShutdown ''HTTP'']);
          https = (if \<not> en_TLSEnabled env \<or> en_drain_https env \<le> time then [] else [ErrShutdown ''HTTPS''])
      in if en_https_first env then https @ http else http @ https)"

text \<open>Closing a listener the shutdown has closed reports the use of a closed connection, which is not an error.\<close>

definition closeListener :: "server_env \<Rightarrow> string \<Rightarrow> listener \<Rightarrow> server_error list \<times> listener" where
  "closeListener env name l =
     (case l of
        NoListener \<Rightarrow> ([], l)
      | Closed \<Rightarrow> ([], l)
      | Open \<Rightarrow> (if en_close_fails env name then [ErrCloseListener name] else [], Closed))"

text \<open>
  The listeners a server has begun to serve on are closed by its shutdown; \<open>served\<close> says whether it had.
\<close>

definition Stop :: "server_env \<Rightarrow> bool \<Rightarrow> int option \<Rightarrow> server_state \<Rightarrow> server_error option \<times> server_state" where
  "Stop env served left s =
     (if ss_stopped s then (None, s)
      else
        let shut = (\<lambda>l. if served then close_listener l else l);
            errs1 = shutdown_errors env (shutdown_time env left);
            (e1, http) = closeListener env ''HTTP'' (shut (ss_http s));
            (e2, https) = closeListener env ''HTTPS'' (if en_TLSEnabled env then shut (ss_https s) else ss_https s);
            errs = errs1 @ e1 @ e2
        in (if errs = [] then None else Some (hd errs),
            s\<lparr>ss_http := http, ss_https := https, ss_done := True, ss_stopped := True\<rparr>))"

text \<open>
  \<open>Start\<close>: the routes, the TLS check, then the listeners and the wait with the deferred stop. The result
  is the error, the error of the deferred stop (which is only logged) and the state; \<open>None\<close> is the panic
  of the route set-up.
\<close>

definition Start ::
    "server_env \<Rightarrow> router option \<Rightarrow> server_routes \<Rightarrow> wait_event \<Rightarrow> int option \<Rightarrow> server_state
      \<Rightarrow> (server_error option \<times> server_error option \<times> server_state) option" where
  "Start env router routes ev left s =
     (case setupRouter router routes of
        None \<Rightarrow> None
      | Some _ \<Rightarrow>
          (case validateTLSConfig env of
             Some e \<Rightarrow> Some (Some e, None, s)
           | None \<Rightarrow>
               (case createListeners env s of
                  (Some e, s1) \<Rightarrow>
                    (let (stop_err, s2) = Stop env False left s1 in Some (Some e, stop_err, s2))
                | (None, s1) \<Rightarrow>
                    (let ctx_left = (if ev = CtxDone then Some 0 else left);
                         (stop_err, s2) = Stop env True ctx_left s1
                     in Some (waitForCompletion ev, stop_err, s2)))))"

definition GetHTTPListenerAddr :: "server_state \<Rightarrow> bool" where
  "GetHTTPListenerAddr s \<longleftrightarrow> ss_http s \<noteq> NoListener"

definition GetHTTPSListenerAddr :: "server_state \<Rightarrow> bool" where
  "GetHTTPSListenerAddr s \<longleftrightarrow> ss_https s \<noteq> NoListener"

section \<open>Properties\<close>

lemma Stop_closes:
  "\<not> ss_stopped s \<Longrightarrow> ss_http (snd (Stop env served left s)) \<noteq> Open
    \<and> ss_https (snd (Stop env served left s)) \<noteq> Open \<and> ss_stopped (snd (Stop env served left s))
    \<and> ss_done (snd (Stop env served left s))"
  by (auto simp: Stop_def Let_def closeListener_def close_listener_def split: listener.splits)

text \<open>
  A stopped server stays as it is: a second stop does nothing and reports nothing, and the first
  leaves no listener open and releases whoever waits for the end, whatever fails.
\<close>

theorem stop_once:
  "ss_stopped (snd (Stop env served left s))
   \<and> Stop env' served' left' (snd (Stop env served left s)) = (None, snd (Stop env served left s))
   \<and> (ss_stopped s \<or> ss_http (snd (Stop env served left s)) \<noteq> Open
        \<and> ss_https (snd (Stop env served left s)) \<noteq> Open \<and> ss_done (snd (Stop env served left s)))"
proof (cases "ss_stopped s")
  case True
  then show ?thesis by (simp add: Stop_def)
next
  case False
  have s: "ss_stopped (snd (Stop env served left s))" using Stop_closes [OF False] by blast
  then have "Stop env' served' left' (snd (Stop env served left s)) = (None, snd (Stop env served left s))"
    by (simp only: Stop_def [of env' served' left'] if_True)
  with s Stop_closes [OF False] show ?thesis by blast
qed

text \<open>
  A server that has not been stopped and has no listener has none open when \<open>Start\<close> returns: not
  when a TLS file is missing, nor when only one of the two listeners could be created, nor after any
  end of the wait.
\<close>

theorem start_leaves_nothing_open:
  assumes "\<not> ss_stopped s" and "ss_http s = NoListener" and "ss_https s = NoListener"
    and "Start env router routes ev left s = Some (err, stop_err, s')"
  shows "ss_http s' \<noteq> Open \<and> ss_https s' \<noteq> Open"
proof (cases "validateTLSConfig env")
  case (Some e)
  then show ?thesis using assms(2-4) by (auto simp: Start_def split: option.splits)
next
  case None
  obtain r s1 where c: "createListeners env s = (r, s1)" by fastforce
  have ns: "\<not> ss_stopped s1" using c assms(1) by (auto simp: createListeners_def Let_def split: if_splits)
  have "\<exists>served l. s' = snd (Stop env served l s1)"
    using assms(4) None c by (cases r) (auto simp: Start_def Let_def split: option.splits prod.splits,
        (metis snd_conv)+)
  then show ?thesis using Stop_closes [OF ns] by auto
qed

definition quiet_env :: server_env where
  "quiet_env = \<lparr>en_TLSEnabled = True, en_TLSCertFile = ''c'', en_TLSKeyFile = ''k'', en_ShutdownTimeout = 10,
     en_accessible = (\<lambda>_. True), en_listen_http = True, en_listen_https = False, en_drain_http = 5,
     en_drain_https = 0, en_https_first = False, en_close_fails = (\<lambda>_. False)\<rparr>"

lemma start_leaves_nothing_open_witness:
  "\<exists>err stop_err s'. Start quiet_env None new_server CtxDone None NewServer = Some (err, stop_err, s')
    \<and> ss_http s' \<noteq> Open \<and> ss_https s' \<noteq> Open"
proof -
  obtain err stop_err s' where r: "Start quiet_env None new_server CtxDone None NewServer = Some (err, stop_err, s')"
    by (simp add: Start_def setupRouter_def validateTLSConfig_def quiet_env_def createListeners_def Let_def
        split: prod.splits) (metis surj_pair)
  moreover have "ss_http s' \<noteq> Open \<and> ss_https s' \<noteq> Open"
    by (rule start_leaves_nothing_open [OF _ _ _ r]) (simp_all add: NewServer_def)
  ultimately show ?thesis by blast
qed

text \<open>
  Cancelling the context of \<open>Start\<close> is not a graceful shutdown: the deferred stop is given the
  cancelled context, so connections still active are not waited for, although the same connections
  finish within the configured timeout when \<open>Stop\<close> is called with a live context.
\<close>

theorem cancel_is_not_graceful:
  assumes "0 < en_drain_http env" and "en_drain_http env \<le> en_ShutdownTimeout env"
    and "\<not> en_TLSEnabled env" and "en_listen_http env" and "\<not> ss_stopped s"
    and "\<And>l. \<not> en_close_fails env l" and "setupRouter router routes \<noteq> None"
  shows "(\<exists>s'. Start env router routes CtxDone None s
        = Some (Some ErrContextCancelled, Some (ErrShutdown ''HTTP''), s'))
    \<and> fst (Stop env True None (s\<lparr>ss_http := Open\<rparr>)) = None"
proof
  show "\<exists>s'. Start env router routes CtxDone None s = Some (Some ErrContextCancelled, Some (ErrShutdown ''HTTP''), s')"
    using assms
    by (auto simp: Start_def validateTLSConfig_def createListeners_def waitForCompletion_def Stop_def Let_def
        shutdown_errors_def shutdown_time_def close_listener_def closeListener_def split: listener.splits)
  show "fst (Stop env True None (s\<lparr>ss_http := Open\<rparr>)) = None"
    using assms
    by (auto simp: Stop_def Let_def shutdown_errors_def shutdown_time_def close_listener_def closeListener_def
        split: listener.splits)
qed

lemma cancel_is_not_graceful_witness:
  "(\<exists>s'. Start (quiet_env\<lparr>en_TLSEnabled := False\<rparr>) None new_server CtxDone None NewServer
        = Some (Some ErrContextCancelled, Some (ErrShutdown ''HTTP''), s'))
    \<and> fst (Stop (quiet_env\<lparr>en_TLSEnabled := False\<rparr>) True None (NewServer\<lparr>ss_http := Open\<rparr>)) = None"
  by (rule cancel_is_not_graceful) (simp_all add: quiet_env_def NewServer_def setupRouter_def)

end
