(* ===== verification/Go_Sync.thy ===== *)
theory Go_Sync imports Go_Prelude "HOL-Library.Multiset" begin

text \<open>
  What the source uses of Go's channels and of \<open>sync.WaitGroup\<close>, as operations on their state. An
  operation blocks, goes on with a new state, or panics: a send on a closed channel, a second close,
  and the two misuses of a wait group its documentation forbids, which the library turns into panics (a
  counter below zero, and a use of the group before a wait that was woken has returned). A channel here
  has a buffer; the rendezvous of a channel without one is not modelled. The second half is what the
  models of interleaved threads share: runs, reachable states, invariants and termination.
\<close>

datatype 'a outcome = Blocks | Goes 'a | Panics string

fun goes :: "'a outcome \<Rightarrow> 'a option" where
  "goes (Goes x) = Some x"
| "goes Blocks = None"
| "goes (Panics v) = None"

fun panics :: "'a outcome \<Rightarrow> string option" where
  "panics (Panics v) = Some v"
| "panics (Goes x) = None"
| "panics Blocks = None"

fun then_go :: "'a outcome \<Rightarrow> ('a \<Rightarrow> 'b outcome) \<Rightarrow> 'b outcome" where
  "then_go (Goes x) f = f x"
| "then_go Blocks f = Blocks"
| "then_go (Panics v) f = Panics v"

section \<open>Channels\<close>

record 'a channel =
  ch_buf :: "'a list"
  ch_cap :: nat
  ch_closed :: bool

definition SendOnClosed :: string where
  "SendOnClosed = ''send on closed channel''"

definition CloseOfClosed :: string where
  "CloseOfClosed = ''close of closed channel''"

definition make_channel :: "nat \<Rightarrow> 'a channel" where
  "make_channel n = \<lparr>ch_buf = [], ch_cap = n, ch_closed = False\<rparr>"

definition chan_send :: "'a \<Rightarrow> 'a channel \<Rightarrow> 'a channel outcome" where
  "chan_send x c =
     (if ch_closed c then Panics SendOnClosed
      else if length (ch_buf c) < ch_cap c then Goes (c\<lparr>ch_buf := ch_buf c @ [x]\<rparr>)
      else Blocks)"

text \<open>A receive gives an element, or \<open>None\<close> from a channel that is closed and empty.\<close>

definition chan_recv :: "'a channel \<Rightarrow> ('a option \<times> 'a channel) outcome" where
  "chan_recv c =
     (case ch_buf c of
        x # xs \<Rightarrow> Goes (Some x, c\<lparr>ch_buf := xs\<rparr>)
      | [] \<Rightarrow> if ch_closed c then Goes (None, c) else Blocks)"

definition chan_close :: "'a channel \<Rightarrow> 'a channel outcome" where
  "chan_close c = (if ch_closed c then Panics CloseOfClosed else Goes (c\<lparr>ch_closed := True\<rparr>))"

section \<open>Wait groups\<close>

text \<open>
  \<open>wg_woken\<close> counts the waiters that were released and have not yet run again. \<open>Wait\<close> returns at once if
  the counter is zero; otherwise it registers (\<open>wg_wait\<close>) and returns by \<open>wg_wake\<close>.
\<close>

record wait_group =
  wg_count :: nat
  wg_waiters :: nat
  wg_woken :: nat

definition NegativeCounter :: string where
  "NegativeCounter = ''sync: negative WaitGroup counter''"

definition AddDuringWait :: string where
  "AddDuringWait = ''sync: WaitGroup misuse: Add called concurrently with Wait''"

definition ReusedWaitGroup :: string where
  "ReusedWaitGroup = ''sync: WaitGroup is reused before previous Wait has returned''"

definition new_wait_group :: wait_group where
  "new_wait_group = \<lparr>wg_count = 0, wg_waiters = 0, wg_woken = 0\<rparr>"

definition wg_add :: "wait_group \<Rightarrow> wait_group outcome" where
  "wg_add w =
     (if wg_waiters w \<noteq> 0 \<and> wg_count w = 0 then Panics AddDuringWait
      else Goes (w\<lparr>wg_count := wg_count w + 1\<rparr>))"

definition wg_done :: "wait_group \<Rightarrow> wait_group outcome" where
  "wg_done w =
     (if wg_count w = 0 then Panics NegativeCounter
      else if wg_count w = 1
        then Goes \<lparr>wg_count = 0, wg_waiters = 0, wg_woken = wg_woken w + wg_waiters w\<rparr>
      else Goes (w\<lparr>wg_count := wg_count w - 1\<rparr>))"

definition wg_wait :: "wait_group \<Rightarrow> wait_group" where
  "wg_wait w = w\<lparr>wg_waiters := wg_waiters w + 1\<rparr>"

definition wg_wake :: "wait_group \<Rightarrow> wait_group outcome" where
  "wg_wake w =
     (if wg_woken w = 0 then Blocks
      else if wg_count w \<noteq> 0 \<or> wg_waiters w \<noteq> 0 then Panics ReusedWaitGroup
      else Goes (w\<lparr>wg_woken := wg_woken w - 1\<rparr>))"

lemma then_go_Goes: "then_go x f = Goes y \<longleftrightarrow> (\<exists>z. x = Goes z \<and> f z = Goes y)"
  by (cases x) auto

lemma then_go_Panics: "then_go x f = Panics v \<longleftrightarrow> x = Panics v \<or> (\<exists>z. x = Goes z \<and> f z = Panics v)"
  by (cases x) auto

lemma then_go_Blocks: "then_go x f = Blocks \<longleftrightarrow> x = Blocks \<or> (\<exists>z. x = Goes z \<and> f z = Blocks)"
  by (cases x) auto

lemma panics_Some: "panics r = Some v \<longleftrightarrow> r = Panics v"
  by (cases r) auto

lemma goes_mapD: "map_option f (goes r) = Some y \<Longrightarrow> \<exists>x. r = Goes x \<and> f x = y"
  by (cases r) auto

lemmas then_go_simps = then_go_Goes then_go_Panics then_go_Blocks

lemmas sync_defs = chan_send_def chan_recv_def chan_close_def wg_add_def wg_done_def wg_wait_def wg_wake_def

section \<open>Lists of threads\<close>

lemma filter_length_update:
  assumes "i < length xs"
  shows "length (filter P (xs[i := y])) + (if P (xs ! i) then 1 else 0)
    = length (filter P xs) + (if P y then 1 else 0)"
proof -
  have xs: "xs = take i xs @ xs ! i # drop (Suc i) xs" using assms by (rule id_take_nth_drop)
  have "length (filter P xs) = length (filter P (take i xs @ xs ! i # drop (Suc i) xs))"
    using xs by (rule arg_cong)
  moreover have "xs[i := y] = take i xs @ y # drop (Suc i) xs" using assms by (rule upd_conv_take_nth_drop)
  ultimately show ?thesis by simp
qed

lemma nth_filter_length: "i < length xs \<Longrightarrow> P (xs ! i) \<Longrightarrow> 0 < length (filter P xs)"
  by (metis filter_empty_conv length_greater_0_conv nth_mem)

lemma filter_single_others:
  assumes "length (filter P xs) \<le> 1" and "i < length xs" and "P (xs ! i)" and "u \<in> set (xs[i := y])"
  shows "u = y \<or> u \<in> set xs \<and> \<not> P u"
proof -
  have "xs = take i xs @ xs ! i # drop (Suc i) xs" using assms(2) by (rule id_take_nth_drop)
  then have "filter P xs = filter P (take i xs) @ xs ! i # filter P (drop (Suc i) xs)"
    using assms(3) by (metis filter.simps(2) filter_append)
  then have "filter P (take i xs @ drop (Suc i) xs) = []" using assms(1) by simp
  moreover have "set (xs[i := y]) = insert y (set (take i xs @ drop (Suc i) xs))"
    using assms(2) by (simp add: upd_conv_take_nth_drop)
  ultimately show ?thesis
    using assms(4) by (auto simp: filter_empty_conv dest: in_set_takeD in_set_dropD)
qed

lemma set_update_other:
  assumes "i < length xs" and "u \<noteq> xs ! i" and "u \<noteq> y"
  shows "u \<in> set (xs[i := y]) \<longleftrightarrow> u \<in> set xs"
  using assms by (metis in_set_conv_nth length_list_update nth_list_update_eq nth_list_update_neq)

lemma nth_update_or_old: "i < length xs \<Longrightarrow> u \<in> set xs \<Longrightarrow> u \<in> set (xs[i := y]) \<or> u = xs ! i"
  by (metis in_set_conv_nth length_list_update nth_list_update_neq)

lemma set_update_cases: "u \<in> set (xs[i := y]) \<Longrightarrow> u = y \<or> u \<in> set xs"
  using set_update_subset_insert [of xs i y] by auto

lemma mset_filter_update:
  assumes "i < length xs"
  shows "mset (filter P (xs[i := y])) + (if P (xs ! i) then {#xs ! i#} else {#})
    = mset (filter P xs) + (if P y then {#y#} else {#})"
proof -
  have xs: "xs = take i xs @ xs ! i # drop (Suc i) xs" using assms by (rule id_take_nth_drop)
  have "mset (filter P xs) = mset (filter P (take i xs @ xs ! i # drop (Suc i) xs))"
    using xs by (rule arg_cong)
  moreover have "xs[i := y] = take i xs @ y # drop (Suc i) xs" using assms by (rule upd_conv_take_nth_drop)
  ultimately show ?thesis by simp
qed

lemma sum_list_map_update:
  fixes f :: "'a \<Rightarrow> 'b :: comm_monoid_add"
  assumes "i < length xs"
  shows "sum_list (map f (xs[i := y])) + f (xs ! i) = sum_list (map f xs) + f y"
proof -
  have xs: "xs = take i xs @ xs ! i # drop (Suc i) xs" using assms by (rule id_take_nth_drop)
  have "sum_list (map f xs) = sum_list (map f (take i xs @ xs ! i # drop (Suc i) xs))"
    using xs by (rule arg_cong)
  moreover have "xs[i := y] = take i xs @ y # drop (Suc i) xs" using assms by (rule upd_conv_take_nth_drop)
  ultimately show ?thesis by (simp add: ac_simps)
qed

section \<open>Interleaved threads\<close>

text \<open>
  A system is a function \<open>step\<close> from a move (one step of one thread, with the choices of the environment)
  and a state to its outcome. A panic ends the process, so only steps that go on lead further.
\<close>

primrec run :: "('m \<Rightarrow> 's \<Rightarrow> 's outcome) \<Rightarrow> 'm list \<Rightarrow> 's \<Rightarrow> 's outcome" where
  "run step [] s = Goes s"
| "run step (m # ms) s = then_go (step m s) (run step ms)"

inductive reaches :: "('m \<Rightarrow> 's \<Rightarrow> 's outcome) \<Rightarrow> 's \<Rightarrow> 's \<Rightarrow> bool" for step init where
  reaches_init: "reaches step init init"
| reaches_step: "reaches step init s \<Longrightarrow> step m s = Goes s' \<Longrightarrow> reaches step init s'"

lemma run_reaches: "reaches step init s \<Longrightarrow> run step ms s = Goes s' \<Longrightarrow> reaches step init s'"
proof (induction ms arbitrary: s)
  case (Cons m ms)
  then obtain t where "step m s = Goes t" "run step ms t = Goes s'" by (auto simp: then_go_Goes)
  with Cons show ?case by (blast intro: reaches_step)
qed simp

lemma run_append: "run step (ms @ ns) s = then_go (run step ms s) (run step ns)"
proof (induction ms arbitrary: s)
  case (Cons m ms)
  then show ?case by (cases "step m s") auto
qed simp

lemmas run_from_init = run_reaches [OF reaches_init]

locale threads =
  fixes step :: "'m \<Rightarrow> 's \<Rightarrow> 's outcome" and init :: 's and inv :: "'s \<Rightarrow> bool"
  assumes inv_init: "inv init"
    and inv_step: "inv s \<Longrightarrow> step m s = Goes s' \<Longrightarrow> inv s'"
begin

lemma reaches_inv: "reaches step init s \<Longrightarrow> inv s"
  by (induction rule: reaches.induct) (auto intro: inv_init inv_step)

end

text \<open>
  Threads that finish by themselves: from a state in which \<open>started\<close> holds, until \<open>finished\<close> holds one of
  their own moves goes on, and each own move leaves less work.
\<close>

locale finishing = threads step init inv
  for step :: "'m \<Rightarrow> 's \<Rightarrow> 's outcome" and init :: 's and inv :: "'s \<Rightarrow> bool" +
  fixes own :: "'m \<Rightarrow> bool" and started finished :: "'s \<Rightarrow> bool" and work :: "'s \<Rightarrow> nat"
  assumes enabled: "inv s \<Longrightarrow> started s \<Longrightarrow> \<not> finished s \<Longrightarrow> \<exists>m s'. own m \<and> step m s = Goes s'"
    and own_step: "inv s \<Longrightarrow> started s \<Longrightarrow> own m \<Longrightarrow> step m s = Goes s' \<Longrightarrow> started s' \<and> work s' < work s"
begin

lemma own_run_bounded:
  "inv s \<Longrightarrow> started s \<Longrightarrow> list_all own ms \<Longrightarrow> run step ms s = Goes s' \<Longrightarrow> length ms + work s' \<le> work s"
proof (induction ms arbitrary: s)
  case (Cons m ms)
  then obtain t where t: "step m s = Goes t" "run step ms t = Goes s'" by (auto simp: then_go_Goes)
  have "inv t" "started t" "work t < work s" using Cons.prems t inv_step own_step by auto
  with Cons t(2) show ?case by force
qed simp

lemma own_run_finishes:
  "inv s \<Longrightarrow> started s \<Longrightarrow> \<exists>ms s'. list_all own ms \<and> run step ms s = Goes s' \<and> finished s'"
proof (induction "work s" arbitrary: s rule: less_induct)
  case less
  show ?case
  proof (cases "finished s")
    case True
    then have "list_all own [] \<and> run step [] s = Goes s \<and> finished s" by simp
    then show ?thesis by blast
  next
    case False
    with less enabled obtain m t where m: "own m" "step m s = Goes t" by blast
    with less own_step inv_step have "work t < work s" "inv t" "started t" by blast+
    with less obtain ms s' where "list_all own ms" "run step ms t = Goes s'" "finished s'" by blast
    with m have "list_all own (m # ms) \<and> run step (m # ms) s = Goes s' \<and> finished s'" by simp
    then show ?thesis by blast
  qed
qed

end

end
