(* ===== verification/Ws_Connection.thy ===== *)
theory Ws_Connection imports Go_Sync begin

text \<open>
  One WebSocket connection of the hub (\<open>wshub/connection.go\<close>) as the interleaving of its threads: any
  number of calls of \<open>Send\<close>, one \<open>Stop\<close> (the others wait for it, \<open>stopOnce\<close>), the write pump and the read
  pump. A thread is a program counter, a step is one access to shared state, and a step of the whole is
  a step of one thread. The choices of the environment (which ready case a \<open>select\<close> takes, whether a read
  or write of the socket works, the ping ticker) are part of the move. The socket is what was written
  to it; \<open>co_queued\<close> records, for the statements only, what \<open>Send\<close> put into the channel. Deadlines and
  log lines are left out.
\<close>

section \<open>Threads and state\<close>

datatype send_pc = SendStart | SendAdd | SendRecheck | SendSelect | SendDone | SendEnd

record 'e sender =
  sd_event :: 'e
  sd_pc :: send_pc

datatype stop_pc = NotStopped | StopFlagged | StopSignalled | StopWaiting | StopWaited | StopClosed | StopEnd

datatype 'e write_pc = WriteOff | WriteStart | WriteLoop | WriteSelect | WriteEvent 'e | WritePing | WriteBye | WriteEnd

datatype 'e read_pc = ReadOff | ReadStart | ReadLoop | ReadPoll | ReadWait | ReadCheck 'e | ReadProcess 'e | ReadEnd

datatype 'e frame = EventFrame 'e | PingFrame | CloseFrame

record 'e connection =
  co_isDone :: bool
  co_sendCh :: "'e channel"
  co_doneCh :: "unit channel"
  co_sendWg :: wait_group
  co_senders :: "'e sender list"
  co_stop :: stop_pc
  co_writer :: "'e write_pc"
  co_reader :: "'e read_pc"
  co_open :: bool
  co_written :: "'e frame list"
  co_processed :: "'e list"
  co_queued :: "'e list"

definition NewConnection :: "nat \<Rightarrow> 'e connection" where
  "NewConnection bufferSize =
     \<lparr>co_isDone = False, co_sendCh = make_channel bufferSize, co_doneCh = make_channel 0,
      co_sendWg = new_wait_group, co_senders = [], co_stop = NotStopped, co_writer = WriteOff,
      co_reader = ReadOff, co_open = True, co_written = [], co_processed = [], co_queued = []\<rparr>"

section \<open>Send\<close>

definition set_sender :: "nat \<Rightarrow> send_pc \<Rightarrow> 'e connection \<Rightarrow> 'e connection" where
  "set_sender i pc c = c\<lparr>co_senders := (co_senders c)[i := (co_senders c ! i)\<lparr>sd_pc := pc\<rparr>]\<rparr>"

definition call_send :: "'e \<Rightarrow> 'e connection \<Rightarrow> 'e connection" where
  "call_send e c = c\<lparr>co_senders := co_senders c @ [\<lparr>sd_event = e, sd_pc = SendStart\<rparr>]\<rparr>"

text \<open>The steps of one call; at the \<open>select\<close> the two cases are \<open>send_queue\<close> and \<open>send_stopped\<close>.\<close>

definition send_step :: "nat \<Rightarrow> 'e connection \<Rightarrow> 'e connection outcome" where
  "send_step i c =
     (if length (co_senders c) \<le> i then Blocks
      else (case sd_pc (co_senders c ! i) of
        SendStart \<Rightarrow> Goes (set_sender i (if co_isDone c then SendEnd else SendAdd) c)
      | SendAdd \<Rightarrow> then_go (wg_add (co_sendWg c))
            (\<lambda>w. Goes (set_sender i SendRecheck (c\<lparr>co_sendWg := w\<rparr>)))
      | SendRecheck \<Rightarrow> Goes (set_sender i (if co_isDone c then SendDone else SendSelect) c)
      | SendSelect \<Rightarrow> Blocks
      | SendDone \<Rightarrow> then_go (wg_done (co_sendWg c))
            (\<lambda>w. Goes (set_sender i SendEnd (c\<lparr>co_sendWg := w\<rparr>)))
      | SendEnd \<Rightarrow> Blocks))"

definition send_queue :: "nat \<Rightarrow> 'e connection \<Rightarrow> 'e connection outcome" where
  "send_queue i c =
     (if length (co_senders c) \<le> i \<or> sd_pc (co_senders c ! i) \<noteq> SendSelect then Blocks
      else let e = sd_event (co_senders c ! i)
           in then_go (chan_send e (co_sendCh c))
                (\<lambda>ch. Goes (set_sender i SendDone
                   (c\<lparr>co_sendCh := ch, co_queued := co_queued c @ [e]\<rparr>))))"

definition send_stopped :: "nat \<Rightarrow> 'e connection \<Rightarrow> 'e connection outcome" where
  "send_stopped i c =
     (if length (co_senders c) \<le> i \<or> sd_pc (co_senders c ! i) \<noteq> SendSelect \<or> \<not> ch_closed (co_doneCh c)
      then Blocks else Goes (set_sender i SendDone c))"

section \<open>Stop\<close>

definition call_stop :: "'e connection \<Rightarrow> 'e connection" where
  "call_stop c = (if co_stop c = NotStopped then c\<lparr>co_isDone := True, co_stop := StopFlagged\<rparr> else c)"

definition stop_step :: "'e connection \<Rightarrow> 'e connection outcome" where
  "stop_step c =
     (case co_stop c of
        NotStopped \<Rightarrow> Blocks
      | StopFlagged \<Rightarrow> then_go (chan_close (co_doneCh c))
            (\<lambda>ch. Goes (c\<lparr>co_doneCh := ch, co_stop := StopSignalled\<rparr>))
      | StopSignalled \<Rightarrow>
            (if wg_count (co_sendWg c) = 0 then Goes (c\<lparr>co_stop := StopWaited\<rparr>)
             else Goes (c\<lparr>co_sendWg := wg_wait (co_sendWg c), co_stop := StopWaiting\<rparr>))
      | StopWaiting \<Rightarrow> then_go (wg_wake (co_sendWg c))
            (\<lambda>w. Goes (c\<lparr>co_sendWg := w, co_stop := StopWaited\<rparr>))
      | StopWaited \<Rightarrow> then_go (chan_close (co_sendCh c))
            (\<lambda>ch. Goes (c\<lparr>co_sendCh := ch, co_stop := StopClosed\<rparr>))
      | StopClosed \<Rightarrow> Goes (c\<lparr>co_open := False, co_stop := StopEnd\<rparr>)
      | StopEnd \<Rightarrow> Blocks)"

section \<open>The write pump\<close>

text \<open>
  The cases of its \<open>select\<close>: an event (or the end of the channel), the ping ticker, the closed \<open>doneCh\<close>. A
  frame reaches the socket if \<open>works\<close>, which a closed socket does not; an error ends the pump. The
  closing frame is written without looking at the error.
\<close>

datatype write_choice = FromChannel | FromTicker | FromDone

definition write_step :: "write_choice \<Rightarrow> bool \<Rightarrow> 'e connection \<Rightarrow> 'e connection outcome" where
  "write_step choice works c =
     (let ok = (works \<and> co_open c);
          put = (\<lambda>f next_pc. Goes (if ok then c\<lparr>co_written := co_written c @ [f], co_writer := next_pc\<rparr>
                               else c\<lparr>co_writer := WriteEnd\<rparr>))
      in case co_writer c of
           WriteOff \<Rightarrow> Blocks
         | WriteStart \<Rightarrow> Goes (c\<lparr>co_writer := if co_isDone c then WriteEnd else WriteLoop\<rparr>)
         | WriteLoop \<Rightarrow> Goes (c\<lparr>co_writer := if co_isDone c then WriteEnd else WriteSelect\<rparr>)
         | WriteSelect \<Rightarrow>
             (case choice of
                FromChannel \<Rightarrow> then_go (chan_recv (co_sendCh c))
                    (\<lambda>(got, ch). Goes (c\<lparr>co_sendCh := ch,
                       co_writer := (case got of Some e \<Rightarrow> WriteEvent e | None \<Rightarrow> WriteBye)\<rparr>))
              | FromTicker \<Rightarrow> Goes (c\<lparr>co_writer := WritePing\<rparr>)
              | FromDone \<Rightarrow> if ch_closed (co_doneCh c) then Goes (c\<lparr>co_writer := WriteEnd\<rparr>) else Blocks)
         | WriteEvent e \<Rightarrow> put (EventFrame e) WriteLoop
         | WritePing \<Rightarrow> put PingFrame WriteLoop
         | WriteBye \<Rightarrow> put CloseFrame WriteEnd
         | WriteEnd \<Rightarrow> Blocks)"

section \<open>The read pump\<close>

text \<open>
  What the socket gives is the choice: \<open>Some e\<close> for an event that could be decoded, \<open>None\<close> for an error,
  which ends the pump. An event is handed to the hub unless the connection is done by then.
\<close>

definition read_step :: "'e option \<Rightarrow> 'e connection \<Rightarrow> 'e connection outcome" where
  "read_step got c =
     (case co_reader c of
        ReadOff \<Rightarrow> Blocks
      | ReadStart \<Rightarrow> Goes (c\<lparr>co_reader := if co_isDone c then ReadEnd else ReadLoop\<rparr>)
      | ReadLoop \<Rightarrow> Goes (c\<lparr>co_reader := if co_isDone c then ReadEnd else ReadPoll\<rparr>)
      | ReadPoll \<Rightarrow> Goes (c\<lparr>co_reader := if ch_closed (co_doneCh c) then ReadEnd else ReadWait\<rparr>)
      | ReadWait \<Rightarrow> Goes (c\<lparr>co_reader := (case got of Some e \<Rightarrow> ReadCheck e | None \<Rightarrow> ReadEnd)\<rparr>)
      | ReadCheck e \<Rightarrow> Goes (c\<lparr>co_reader := if co_isDone c then ReadEnd else ReadProcess e\<rparr>)
      | ReadProcess e \<Rightarrow> Goes (c\<lparr>co_reader := ReadLoop, co_processed := co_processed c @ [e]\<rparr>)
      | ReadEnd \<Rightarrow> Blocks)"

text \<open>\<open>AddConnection\<close> starts the two pumps.\<close>

definition start_pumps :: "'e connection \<Rightarrow> 'e connection outcome" where
  "start_pumps c =
     (if co_writer c = WriteOff \<and> co_reader c = ReadOff
      then Goes (c\<lparr>co_writer := WriteStart, co_reader := ReadStart\<rparr>) else Blocks)"

section \<open>Runs\<close>

datatype 'e conn_move =
    CallSend 'e
  | CallStop
  | StartPumps
  | SendStep nat
  | SendQueue nat
  | SendStopped nat
  | StopStep
  | WriteStep write_choice bool
  | ReadStep "'e option"

primrec conn_step :: "'e conn_move \<Rightarrow> 'e connection \<Rightarrow> 'e connection outcome" where
  "conn_step (CallSend e) c = Goes (call_send e c)"
| "conn_step CallStop c = Goes (call_stop c)"
| "conn_step StartPumps c = start_pumps c"
| "conn_step (SendStep i) c = send_step i c"
| "conn_step (SendQueue i) c = send_queue i c"
| "conn_step (SendStopped i) c = send_stopped i c"
| "conn_step StopStep c = stop_step c"
| "conn_step (WriteStep choice works) c = write_step choice works c"
| "conn_step (ReadStep got) c = read_step got c"

section \<open>The invariant\<close>

definition active :: "'e sender \<Rightarrow> bool" where
  "active s \<longleftrightarrow> sd_pc s \<in> {SendRecheck, SendSelect, SendDone}"

definition conn_inv :: "'e connection \<Rightarrow> bool" where
  "conn_inv c \<longleftrightarrow>
     wg_count (co_sendWg c) = length (filter active (co_senders c))
   \<and> (co_isDone c \<longleftrightarrow> co_stop c \<noteq> NotStopped)
   \<and> (ch_closed (co_doneCh c) \<longleftrightarrow> co_stop c \<notin> {NotStopped, StopFlagged})
   \<and> (ch_closed (co_sendCh c) \<longleftrightarrow> co_stop c \<in> {StopClosed, StopEnd})
   \<and> (co_stop c \<in> {StopWaited, StopClosed, StopEnd} \<longrightarrow> (\<forall>s \<in> set (co_senders c). sd_pc s \<noteq> SendSelect))
   \<and> wg_waiters (co_sendWg c) + wg_woken (co_sendWg c) = (if co_stop c = StopWaiting then 1 else 0)
   \<and> wg_waiters (co_sendWg c) \<le> wg_count (co_sendWg c)"

lemma conn_inv_new: "conn_inv (NewConnection cap)"
  by (simp add: conn_inv_def NewConnection_def make_channel_def new_wait_group_def)

lemma set_sender_simps [simp]:
  "co_isDone (set_sender i pc c) = co_isDone c"
  "co_sendCh (set_sender i pc c) = co_sendCh c"
  "co_doneCh (set_sender i pc c) = co_doneCh c"
  "co_sendWg (set_sender i pc c) = co_sendWg c"
  "co_stop (set_sender i pc c) = co_stop c"
  "co_writer (set_sender i pc c) = co_writer c"
  "co_written (set_sender i pc c) = co_written c"
  "co_queued (set_sender i pc c) = co_queued c"
  "length (co_senders (set_sender i pc c)) = length (co_senders c)"
  by (simp_all add: set_sender_def)

lemma active_count_set:
  assumes "i < length (co_senders c)"
  shows "length (filter active (co_senders (set_sender i pc c))) + (if active (co_senders c ! i) then 1 else 0)
    = length (filter active (co_senders c)) + (if pc \<in> {SendRecheck, SendSelect, SendDone} then 1 else 0)"
  using filter_length_update [OF assms, of active "(co_senders c ! i)\<lparr>sd_pc := pc\<rparr>"]
  by (simp add: set_sender_def active_def)

lemma no_select_set:
  assumes "\<forall>s \<in> set (co_senders c). sd_pc s \<noteq> SendSelect" and "pc \<noteq> SendSelect"
  shows "\<forall>s \<in> set (co_senders (set_sender i pc c)). sd_pc s \<noteq> SendSelect"
  using assms set_update_subset_insert [of "co_senders c" i "(co_senders c ! i)\<lparr>sd_pc := pc\<rparr>"]
  by (auto simp: set_sender_def)

lemma set_sender_inv:
  assumes inv: "conn_inv c" and i: "i < length (co_senders c)"
    and sel: "pc = SendSelect \<Longrightarrow> \<not> co_isDone c"
    and cnt: "wg_count w + (if active (co_senders c ! i) then 1 else 0)
      = wg_count (co_sendWg c) + (if pc \<in> {SendRecheck, SendSelect, SendDone} then 1 else 0)"
    and wait: "wg_waiters w + wg_woken w = wg_waiters (co_sendWg c) + wg_woken (co_sendWg c)"
      "wg_waiters w \<le> wg_count w"
  shows "conn_inv (set_sender i pc (c\<lparr>co_sendWg := w\<rparr>))" (is "conn_inv ?c'")
proof -
  have "co_senders ?c' = co_senders (set_sender i pc c)" by (simp add: set_sender_def)
  then have "wg_count w = length (filter active (co_senders ?c'))"
    using active_count_set [OF i, of pc] cnt inv by (simp add: conn_inv_def)
  moreover have "\<forall>s \<in> set (co_senders ?c'). sd_pc s \<noteq> SendSelect"
    if "co_stop c \<in> {StopWaited, StopClosed, StopEnd}"
  proof -
    have "pc \<noteq> SendSelect" using sel inv that by (auto simp: conn_inv_def)
    then have "\<forall>s \<in> set (co_senders (set_sender i pc c)). sd_pc s \<noteq> SendSelect"
      using inv that by (intro no_select_set) (auto simp: conn_inv_def)
    then show ?thesis by (simp only: \<open>co_senders ?c' = _\<close>)
  qed
  ultimately show ?thesis using inv wait unfolding conn_inv_def by simp
qed

lemma set_sender_same_inv:
  assumes "conn_inv c" and "i < length (co_senders c)" and "pc = SendSelect \<Longrightarrow> \<not> co_isDone c"
    and "active (co_senders c ! i) \<longleftrightarrow> pc \<in> {SendRecheck, SendSelect, SendDone}"
  shows "conn_inv (set_sender i pc c)"
  using set_sender_inv [OF assms(1,2,3), where w = "co_sendWg c"] assms(1,4) by (simp add: conn_inv_def)

lemma send_step_inv:
  assumes "conn_inv c" and "send_step i c = Goes c'"
  shows "conn_inv c'"
proof -
  have i: "i < length (co_senders c)" using assms(2) by (auto simp: send_step_def split: if_splits)
  have le: "wg_waiters (co_sendWg c) \<le> wg_count (co_sendWg c)" "wg_waiters (co_sendWg c) \<le> 1"
    using assms(1) by (auto simp: conn_inv_def split: if_splits)
  note step = set_sender_inv [OF assms(1) i] and same = set_sender_same_inv [OF assms(1) i]
  show ?thesis
  proof (cases "sd_pc (co_senders c ! i)")
    case SendStart
    then show ?thesis using assms(2) i by (auto simp: send_step_def active_def intro!: same split: if_splits)
  next
    case SendAdd
    with assms(2) i obtain w where w: "wg_add (co_sendWg c) = Goes w"
      and c': "c' = set_sender i SendRecheck (c\<lparr>co_sendWg := w\<rparr>)"
      by (auto simp: send_step_def then_go_simps)
    show ?thesis unfolding c' using w SendAdd
      by (intro step) (use le in \<open>auto simp: wg_add_def active_def split: if_splits\<close>)
  next
    case SendRecheck
    then show ?thesis using assms(2) i by (auto simp: send_step_def active_def intro!: same split: if_splits)
  next
    case SendDone
    with assms(2) i obtain w where w: "wg_done (co_sendWg c) = Goes w"
      and c': "c' = set_sender i SendEnd (c\<lparr>co_sendWg := w\<rparr>)"
      by (auto simp: send_step_def then_go_simps)
    show ?thesis unfolding c' using w SendDone
      by (intro step) (use le in \<open>auto simp: wg_done_def active_def split: if_splits\<close>)
  qed (use assms(2) i in \<open>simp_all add: send_step_def\<close>)
qed

lemma send_case_inv:
  assumes "conn_inv c"
  shows "send_stopped i c = Goes c' \<Longrightarrow> conn_inv c'" and "send_queue i c = Goes c' \<Longrightarrow> conn_inv c'"
proof -
  show "send_stopped i c = Goes c' \<Longrightarrow> conn_inv c'"
    using assms by (auto simp: send_stopped_def active_def split: if_splits intro!: set_sender_same_inv)
  assume q: "send_queue i c = Goes c'"
  then obtain ch where ch: "chan_send (sd_event (co_senders c ! i)) (co_sendCh c) = Goes ch"
    and i: "i < length (co_senders c)" "sd_pc (co_senders c ! i) = SendSelect"
    and c': "c' = set_sender i SendDone (c\<lparr>co_sendCh := ch, co_queued := co_queued c @ [sd_event (co_senders c ! i)]\<rparr>)"
    by (auto simp: send_queue_def Let_def then_go_simps split: if_splits)
  have "ch_closed ch = ch_closed (co_sendCh c)" using ch by (auto simp: chan_send_def split: if_splits)
  then have "conn_inv (c\<lparr>co_sendCh := ch, co_queued := co_queued c @ [sd_event (co_senders c ! i)]\<rparr>)"
    using assms by (simp add: conn_inv_def)
  then show "conn_inv c'" unfolding c' using i by (intro set_sender_same_inv) (auto simp: active_def)
qed

lemma stop_step_inv:
  assumes "conn_inv c" and "stop_step c = Goes c'"
  shows "conn_inv c'"
proof -
  have free: "\<forall>s \<in> set (co_senders c). sd_pc s \<noteq> SendSelect" if "wg_count (co_sendWg c) = 0"
    using assms(1) that by (auto simp: conn_inv_def active_def filter_empty_conv)
  show ?thesis
  proof (cases "co_stop c")
    case StopSignalled
    show ?thesis
    proof (cases "wg_count (co_sendWg c) = 0")
      case True
      then have "c' = c\<lparr>co_stop := StopWaited\<rparr>" using assms(2) StopSignalled by (simp add: stop_step_def)
      then show ?thesis using assms(1) free [OF True] StopSignalled by (simp add: conn_inv_def)
    next
      case False
      then have "c' = c\<lparr>co_sendWg := wg_wait (co_sendWg c), co_stop := StopWaiting\<rparr>"
        using assms(2) StopSignalled by (simp add: stop_step_def)
      then show ?thesis using assms(1) False StopSignalled by (simp add: conn_inv_def wg_wait_def Suc_le_eq)
    qed
  next
    case StopWaiting
    with assms(2) obtain w where w: "wg_wake (co_sendWg c) = Goes w" and c': "c' = c\<lparr>co_sendWg := w, co_stop := StopWaited\<rparr>"
      by (auto simp: stop_step_def then_go_simps)
    have "wg_count (co_sendWg c) = 0" "wg_waiters (co_sendWg c) = 0" "wg_woken (co_sendWg c) \<noteq> 0"
      "w = (co_sendWg c)\<lparr>wg_woken := wg_woken (co_sendWg c) - 1\<rparr>"
      using w by (auto simp: wg_wake_def split: if_splits)
    then show ?thesis using assms(1) free StopWaiting unfolding c' by (simp add: conn_inv_def)
  qed (use assms in \<open>auto simp: conn_inv_def stop_step_def then_go_simps chan_close_def split: if_splits\<close>)
qed

text \<open>The pumps change nothing the invariant speaks of; the channel stays open or closed.\<close>

lemma pump_frame:
  assumes "write_step ch ok c = Goes c' \<or> read_step got c = Goes c' \<or> start_pumps c = Goes c'"
  shows "co_isDone c' = co_isDone c \<and> co_stop c' = co_stop c \<and> co_doneCh c' = co_doneCh c
    \<and> co_sendWg c' = co_sendWg c \<and> co_senders c' = co_senders c \<and> co_queued c' = co_queued c
    \<and> ch_closed (co_sendCh c') = ch_closed (co_sendCh c)"
  using assms
proof (elim disjE)
  assume "write_step ch ok c = Goes c'"
  then show ?thesis
    by (cases "co_writer c"; cases ch)
      (auto simp: write_step_def then_go_simps chan_recv_def split: if_splits list.splits)
next
  assume "read_step got c = Goes c'"
  then show ?thesis by (cases "co_reader c") (auto simp: read_step_def)
qed (auto simp: start_pumps_def split: if_splits)

lemma call_inv: "conn_inv c \<Longrightarrow> conn_inv (call_send e c)" "conn_inv c \<Longrightarrow> conn_inv (call_stop c)"
  by (auto simp: conn_inv_def call_send_def call_stop_def active_def)

lemma conn_step_inv: "conn_inv c \<Longrightarrow> conn_step m c = Goes c' \<Longrightarrow> conn_inv c'"
proof (cases m)
  case StartPumps
  then show "conn_inv c \<Longrightarrow> conn_step m c = Goes c' \<Longrightarrow> ?thesis"
    using pump_frame [of _ _ c c'] by (simp add: conn_inv_def)
next
  case (WriteStep ch ok)
  then show "conn_inv c \<Longrightarrow> conn_step m c = Goes c' \<Longrightarrow> ?thesis"
    using pump_frame [of ch ok c c'] by (simp add: conn_inv_def)
next
  case (ReadStep got)
  then show "conn_inv c \<Longrightarrow> conn_step m c = Goes c' \<Longrightarrow> ?thesis"
    using pump_frame [of _ _ c c' got] by (simp add: conn_inv_def)
qed (auto intro: call_inv send_step_inv send_case_inv stop_step_inv)

interpretation conn: threads conn_step "NewConnection cap" conn_inv
  by unfold_locales (auto intro: conn_inv_new conn_step_inv)

section \<open>Delivery\<close>

definition frame_events :: "'e frame list \<Rightarrow> 'e list" where
  "frame_events fs = concat (map (\<lambda>f. case f of EventFrame e \<Rightarrow> [e] | _ \<Rightarrow> []) fs)"

lemma frame_events_simps [simp]:
  "frame_events [] = []"
  "frame_events (fs @ gs) = frame_events fs @ frame_events gs"
  "frame_events [EventFrame e] = [e]"
  "frame_events [PingFrame] = []"
  "frame_events [CloseFrame] = []"
  by (simp_all add: frame_events_def)

text \<open>What the write pump may have taken from the channel and not written.\<close>

definition in_hand :: "'e write_pc \<Rightarrow> 'e list \<Rightarrow> bool" where
  "in_hand w lost = (case w of WriteEvent e \<Rightarrow> lost = [e] | WriteEnd \<Rightarrow> length lost \<le> 1 | _ \<Rightarrow> lost = [])"

definition conn_fifo :: "'e connection \<Rightarrow> bool" where
  "conn_fifo c \<longleftrightarrow>
     (\<exists>lost. co_queued c = frame_events (co_written c) @ lost @ ch_buf (co_sendCh c) \<and> in_hand (co_writer c) lost)"

definition called :: "'e sender \<Rightarrow> bool" where
  "called s \<longleftrightarrow> sd_pc s \<in> {SendDone, SendEnd}"

definition conn_once :: "'e connection \<Rightarrow> bool" where
  "conn_once c \<longleftrightarrow> mset (co_queued c) \<subseteq># mset (map sd_event (filter called (co_senders c)))"

lemma conn_fifo_frame:
  "conn_fifo c \<Longrightarrow> co_queued c' = co_queued c \<Longrightarrow> co_written c' = co_written c
    \<Longrightarrow> ch_buf (co_sendCh c') = ch_buf (co_sendCh c) \<Longrightarrow> co_writer c' = co_writer c \<Longrightarrow> conn_fifo c'"
  by (simp add: conn_fifo_def)

lemma write_fifo:
  assumes "conn_fifo c" and "write_step ch ok c = Goes c'"
  shows "conn_fifo c'"
  using assms
  by (cases "co_writer c"; cases ch)
    (auto simp: conn_fifo_def in_hand_def write_step_def then_go_simps chan_recv_def split: if_splits list.splits)

lemma conn_step_fifo:
  assumes "conn_fifo c" and "conn_step m c = Goes c'"
  shows "conn_fifo c'"
proof (cases m)
  case (SendQueue i)
  then show ?thesis using assms
    by (auto simp: send_queue_def Let_def then_go_simps chan_send_def conn_fifo_def split: if_splits)
next
  case StartPumps
  then show ?thesis using assms by (auto simp: start_pumps_def conn_fifo_def in_hand_def split: if_splits)
next
  case (SendStep i)
  then show ?thesis using assms
    by (auto simp: send_step_def then_go_simps split: if_splits send_pc.splits intro: conn_fifo_frame)
next
  case StopStep
  then show ?thesis using assms
    by (auto simp: stop_step_def then_go_simps chan_close_def split: if_splits stop_pc.splits intro: conn_fifo_frame)
next
  case (ReadStep got)
  then show ?thesis using assms
    by (cases "co_reader c") (auto simp: read_step_def intro: conn_fifo_frame)
qed (use assms in \<open>auto simp: call_send_def call_stop_def send_stopped_def split: if_splits
      intro: conn_fifo_frame write_fifo\<close>)

lemma called_set:
  assumes "i < length (co_senders c)"
  shows "mset (map sd_event (filter called (co_senders (set_sender i pc c))))
    + (if called (co_senders c ! i) then {#sd_event (co_senders c ! i)#} else {#})
    = mset (map sd_event (filter called (co_senders c)))
    + (if pc \<in> {SendDone, SendEnd} then {#sd_event (co_senders c ! i)#} else {#})"
  using mset_filter_update [OF assms, of called "(co_senders c ! i)\<lparr>sd_pc := pc\<rparr>"]
  by (auto simp: set_sender_def called_def split: if_splits dest: arg_cong [of _ _ "image_mset sd_event"])

lemma called_mono:
  assumes "i < length (co_senders c)" and "called (co_senders c ! i) \<Longrightarrow> pc \<in> {SendDone, SendEnd}"
  shows "mset (map sd_event (filter called (co_senders c)))
    \<subseteq># mset (map sd_event (filter called (co_senders (set_sender i pc c))))"
  using called_set [OF assms(1), of pc] assms(2)
  by (cases "called (co_senders c ! i)") (auto split: if_splits simp: subset_mset.add_increasing2)

lemma conn_once_set:
  assumes "conn_once c" and "i < length (co_senders c)"
    and "called (co_senders c ! i) \<Longrightarrow> pc \<in> {SendDone, SendEnd}"
    and "c' = set_sender i pc (c\<lparr>co_sendWg := w\<rparr>)"
  shows "conn_once c'"
proof -
  have "co_senders c' = co_senders (set_sender i pc c)" "co_queued c' = co_queued c"
    by (simp_all add: assms(4) set_sender_def)
  then show ?thesis
    using called_mono [OF assms(2,3)] assms(1) unfolding conn_once_def by (metis subset_mset.trans)
qed

lemma conn_step_once:
  assumes "conn_once c" and "conn_step m c = Goes c'"
  shows "conn_once c'"
proof -
  have same: "conn_once (set_sender i pc c)"
    if "i < length (co_senders c)" "called (co_senders c ! i) \<Longrightarrow> pc \<in> {SendDone, SendEnd}" for i pc
    using conn_once_set [OF assms(1) that, of _ "co_sendWg c"] by simp
  have frame: "conn_once c'" if "co_queued c' = co_queued c" "co_senders c' = co_senders c"
    using that assms(1) by (simp add: conn_once_def)
  show ?thesis
  proof (cases m)
    case (CallSend e)
    then show ?thesis using assms by (auto simp: conn_once_def call_send_def called_def)
  next
    case (SendStep i)
    then have i: "i < length (co_senders c)" using assms(2) by (auto simp: send_step_def split: if_splits)
    show ?thesis
      by (cases "sd_pc (co_senders c ! i)")
        (use SendStep assms(2) i in \<open>auto simp: send_step_def then_go_simps called_def
          intro: same conn_once_set [OF assms(1) i] split: if_splits\<close>)
  next
    case (SendQueue i)
    with assms(2) obtain ch where i: "i < length (co_senders c)" "sd_pc (co_senders c ! i) = SendSelect"
      and c': "c' = set_sender i SendDone (c\<lparr>co_sendCh := ch, co_queued := co_queued c @ [sd_event (co_senders c ! i)]\<rparr>)"
      by (auto simp: send_queue_def Let_def then_go_simps split: if_splits)
    have "co_senders c' = co_senders (set_sender i SendDone c)" by (simp add: c' set_sender_def)
    then show ?thesis
      using called_set [OF i(1), of SendDone] i(2) assms(1) by (simp add: conn_once_def c' called_def)
  next
    case (SendStopped i)
    then show ?thesis using assms(2) by (auto simp: send_stopped_def called_def split: if_splits intro!: same)
  next
    case StopStep
    then show ?thesis using assms(2)
      by (intro frame) (auto simp: stop_step_def then_go_simps split: if_splits stop_pc.splits)
  next
    case CallStop
    then show ?thesis using assms(2) by (intro frame) (auto simp: call_stop_def)
  next
    case StartPumps
    then show ?thesis using assms(2) pump_frame [of _ _ c c'] by (intro frame) auto
  next
    case (WriteStep ch ok)
    then show ?thesis using assms(2) pump_frame [of ch ok c c'] by (intro frame) auto
  next
    case (ReadStep got)
    then show ?thesis using assms(2) pump_frame [of _ _ c c' got] by (intro frame) auto
  qed
qed

lemma conn_room_step:
  assumes "ch_cap (co_sendCh c) = cap \<and> length (ch_buf (co_sendCh c)) \<le> cap" and "conn_step m c = Goes c'"
  shows "ch_cap (co_sendCh c') = cap \<and> length (ch_buf (co_sendCh c')) \<le> cap"
proof (cases m)
  case (WriteStep ch ok)
  then show ?thesis using assms
    by (cases "co_writer c"; cases ch) (auto simp: write_step_def then_go_simps chan_recv_def split: if_splits list.splits)
next
  case (ReadStep got)
  then show ?thesis using assms by (cases "co_reader c") (auto simp: read_step_def)
next
  case StopStep
  then show ?thesis using assms
    by (cases "co_stop c") (auto simp: stop_step_def then_go_simps chan_close_def split: if_splits)
next
  case (SendStep i)
  then show ?thesis using assms
    by (cases "sd_pc (co_senders c ! i)") (auto simp: send_step_def then_go_simps split: if_splits)
qed (use assms in \<open>auto simp: call_send_def call_stop_def start_pumps_def send_queue_def send_stopped_def
      Let_def then_go_simps chan_send_def split: if_splits\<close>)

lemma conn_order_new: "conn_fifo (NewConnection cap)" "conn_once (NewConnection cap)"
  by (simp_all add: NewConnection_def conn_fifo_def conn_once_def in_hand_def make_channel_def)

interpretation conn_order: threads conn_step "NewConnection cap" "\<lambda>c. conn_fifo c \<and> conn_once c"
  by unfold_locales (blast intro: conn_order_new conn_step_fifo conn_step_once)+

interpretation conn_room: threads conn_step "NewConnection cap"
    "\<lambda>c. ch_cap (co_sendCh c) = cap \<and> length (ch_buf (co_sendCh c)) \<le> cap"
  by unfold_locales (use conn_room_step in \<open>auto simp: NewConnection_def make_channel_def\<close>)

lemma conn_closed_step:
  assumes "co_stop c = StopEnd \<longrightarrow> \<not> co_open c" and "conn_step m c = Goes c'"
  shows "co_stop c' = StopEnd \<longrightarrow> \<not> co_open c'"
proof (cases m)
  case (WriteStep ch ok)
  then show ?thesis using assms
    by (cases "co_writer c"; cases ch) (auto simp: write_step_def then_go_simps split: if_splits)
next
  case (ReadStep got)
  then show ?thesis using assms by (cases "co_reader c") (auto simp: read_step_def)
next
  case StopStep
  then show ?thesis using assms
    by (cases "co_stop c") (auto simp: stop_step_def then_go_simps split: if_splits)
next
  case (SendStep i)
  then show ?thesis using assms
    by (cases "sd_pc (co_senders c ! i)") (auto simp: send_step_def then_go_simps set_sender_def split: if_splits)
qed (use assms in \<open>auto simp: call_send_def call_stop_def start_pumps_def send_queue_def send_stopped_def
      set_sender_def Let_def then_go_simps split: if_splits\<close>)

interpretation conn_closed: threads conn_step "NewConnection cap" "\<lambda>c. co_stop c = StopEnd \<longrightarrow> \<not> co_open c"
  by unfold_locales (use conn_closed_step in \<open>auto simp: NewConnection_def\<close>)

section \<open>Properties\<close>


text \<open>
  The panic can happen: a call of \<open>Send\<close> that passed the first check joins the group between the moment
  the last call in flight leaves it and the moment \<open>Stop\<close> runs again.
\<close>

definition reuse_trace :: "nat conn_move list" where
  "reuse_trace =
     [CallSend 1, SendStep 0, SendStep 0, SendStep 0, CallSend 2, SendStep 1, CallStop, StopStep, StopStep,
      SendStopped 0, SendStep 0, SendStep 1]"

lemma connection_reuse_panic: "run conn_step (reuse_trace @ [StopStep]) (NewConnection 4) = Panics ReusedWaitGroup"
  by code_simp


text \<open>
  C11: what a connection writes to its socket are events queued by calls of \<open>Send\<close>, in the order they were
  queued, none twice and none invented: the events written, then at most one the write pump has taken
  and lost (it ended), then what waits in the channel, are exactly the events queued, and each of those
  is from a call of its own. The channel never holds more than its capacity.
\<close>

theorem connection_delivers_in_order:
  assumes "reaches conn_step (NewConnection cap) c"
  shows "\<exists>lost. co_queued c = frame_events (co_written c) @ lost @ ch_buf (co_sendCh c) \<and> in_hand (co_writer c) lost
    \<and> mset (co_queued c) \<subseteq># mset (map sd_event (filter called (co_senders c)))
    \<and> length (ch_buf (co_sendCh c)) \<le> cap"
proof -
  have "conn_fifo c \<and> conn_once c"
    using assms
    by (rule conn_order.reaches_inv)
  moreover have "length (ch_buf (co_sendCh c)) \<le> cap"
    using conn_room.reaches_inv [OF assms] by simp
  ultimately show ?thesis by (auto simp: conn_fifo_def conn_once_def)
qed

lemma connection_delivers_in_order_witness:
  "\<exists>c. run conn_step [CallSend (7::nat), SendStep 0, SendStep 0, SendStep 0, SendQueue 0, StartPumps,
      WriteStep FromChannel True, WriteStep FromChannel True, WriteStep FromChannel True] (NewConnection 4) = Goes c
    \<and> co_queued c = [7] \<and> (\<exists>lost. co_queued c = frame_events (co_written c) @ lost @ ch_buf (co_sendCh c))"
proof -
  let ?r = "run conn_step [CallSend (7::nat), SendStep 0, SendStep 0, SendStep 0, SendQueue 0, StartPumps,
      WriteStep FromChannel True, WriteStep FromChannel True, WriteStep FromChannel True] (NewConnection 4)"
  have "map_option co_queued (goes ?r) = Some [7]" by code_simp
  then obtain c where c: "?r = Goes c" "co_queued c = [7]" by (cases ?r) auto
  with connection_delivers_in_order [OF run_from_init [OF c(1)]] show ?thesis by blast
qed

section \<open>Termination of Stop\<close>

definition stop_move :: "'e conn_move \<Rightarrow> bool" where
  "stop_move m = (case m of SendStep i \<Rightarrow> True | SendQueue i \<Rightarrow> True | SendStopped i \<Rightarrow> True | StopStep \<Rightarrow> True | _ \<Rightarrow> False)"

fun send_work :: "send_pc \<Rightarrow> nat" where
  "send_work SendStart = 1"
| "send_work SendAdd = 3"
| "send_work SendRecheck = 2"
| "send_work SendSelect = 2"
| "send_work SendDone = 1"
| "send_work SendEnd = 0"

fun stop_pc_work :: "stop_pc \<Rightarrow> nat" where
  "stop_pc_work StopFlagged = 5"
| "stop_pc_work StopSignalled = 4"
| "stop_pc_work StopWaiting = 3"
| "stop_pc_work StopWaited = 2"
| "stop_pc_work StopClosed = 1"
| "stop_pc_work _ = 0"

definition stop_work :: "'e connection \<Rightarrow> nat" where
  "stop_work c = stop_pc_work (co_stop c) + sum_list (map (\<lambda>s. send_work (sd_pc s)) (co_senders c))"

lemma send_work_set:
  assumes "i < length (co_senders c)"
  shows "sum_list (map (\<lambda>s. send_work (sd_pc s)) (co_senders (set_sender i pc c))) + send_work (sd_pc (co_senders c ! i))
    = sum_list (map (\<lambda>s. send_work (sd_pc s)) (co_senders c)) + send_work pc"
  using sum_list_map_update [OF assms, of "\<lambda>s. send_work (sd_pc s)" "(co_senders c ! i)\<lparr>sd_pc := pc\<rparr>"]
  by (simp add: set_sender_def)

lemma send_work_mono:
  assumes "i < length (co_senders c)" and "send_work pc < send_work (sd_pc (co_senders c ! i))"
    and "c' = set_sender i pc (c\<lparr>co_sendWg := w, co_sendCh := ch, co_queued := q\<rparr>)"
  shows "stop_work c' < stop_work c"
proof -
  have "co_senders c' = co_senders (set_sender i pc c)" "co_stop c' = co_stop c"
    by (simp_all add: assms(3) set_sender_def)
  then show ?thesis using send_work_set [OF assms(1), of pc] assms(2) by (simp add: stop_work_def)
qed

lemma stop_move_done:
  assumes "co_isDone c" and "stop_move m" and "conn_step m c = Goes c'"
  shows "co_isDone c' \<and> stop_work c' < stop_work c"
proof (cases m)
  case (SendStep i)
  then have i: "i < length (co_senders c)" using assms(3) by (auto simp: send_step_def split: if_splits)
  note less = send_work_mono [OF i]
  have same: "stop_work (set_sender i pc c) < stop_work c" if "send_work pc < send_work (sd_pc (co_senders c ! i))" for pc
    using less [OF that, where w = "co_sendWg c" and ch = "co_sendCh c" and q = "co_queued c"] by simp
  have wg: "stop_work (set_sender i pc (c\<lparr>co_sendWg := w\<rparr>)) < stop_work c"
    if "send_work pc < send_work (sd_pc (co_senders c ! i))" for pc w
    using less [OF that, where w = w and ch = "co_sendCh c" and q = "co_queued c"] by simp
  show ?thesis
    by (cases "sd_pc (co_senders c ! i)")
      (use SendStep assms i in \<open>auto simp: send_step_def then_go_simps intro!: same wg\<close>)
next
  case (SendQueue i)
  with assms(3) obtain ch where i: "i < length (co_senders c)" "sd_pc (co_senders c ! i) = SendSelect"
    and c': "c' = set_sender i SendDone (c\<lparr>co_sendCh := ch, co_queued := co_queued c @ [sd_event (co_senders c ! i)]\<rparr>)"
    by (auto simp: send_queue_def Let_def then_go_simps split: if_splits)
  then show ?thesis
    using assms(1) send_work_mono [OF i(1), where pc = SendDone and c' = c' and w = "co_sendWg c" and ch = ch] by simp
next
  case (SendStopped i)
  with assms(3) have i: "i < length (co_senders c)" "sd_pc (co_senders c ! i) = SendSelect"
    and c': "c' = set_sender i SendDone c"
    by (auto simp: send_stopped_def split: if_splits)
  then show ?thesis
    using assms(1) send_work_mono [OF i(1), where pc = SendDone and c' = c' and w = "co_sendWg c" and ch = "co_sendCh c"
        and q = "co_queued c"] by simp
next
  case StopStep
  then show ?thesis using assms
    by (cases "co_stop c") (auto simp: stop_step_def then_go_simps stop_work_def split: if_splits)
qed (use assms(2) in \<open>simp_all add: stop_move_def\<close>)

lemma stop_enabled:
  assumes inv: "conn_inv c" and "co_isDone c" and "co_stop c \<noteq> StopEnd"
  shows "\<exists>m c'. stop_move m \<and> conn_step m c = Goes c'"
proof -
  have stop: "\<exists>c'. stop_step c = Goes c'"
    if "\<not> (co_stop c = StopWaiting \<and> wg_count (co_sendWg c) \<noteq> 0)"
    using assms that
    by (cases "co_stop c") (auto simp: conn_inv_def stop_step_def then_go_simps chan_close_def wg_wake_def)
  show ?thesis
  proof (cases "co_stop c = StopWaiting \<and> wg_count (co_sendWg c) \<noteq> 0")
    case True
    then obtain s where "s \<in> set (co_senders c)" "active s"
      using inv by (auto simp: conn_inv_def filter_empty_conv)
    then obtain i where i: "i < length (co_senders c)" "active (co_senders c ! i)" by (auto simp: in_set_conv_nth)
    have "ch_closed (co_doneCh c)" using inv True by (simp add: conn_inv_def)
    then have "(\<exists>c'. send_step i c = Goes c') \<or> (\<exists>c'. send_stopped i c = Goes c')"
      using i True
      by (cases "sd_pc (co_senders c ! i)")
        (auto simp: active_def send_step_def send_stopped_def then_go_simps wg_done_def)
    moreover have "stop_move (SendStep i)" "stop_move (SendStopped i)" by (simp_all add: stop_move_def)
    ultimately show ?thesis by (metis conn_step.simps(4,6))
  next
    case False
    with stop have "stop_move StopStep \<and> (\<exists>c'. conn_step StopStep c = Goes c')" by (simp add: stop_move_def)
    then show ?thesis by blast
  qed
qed

interpretation conn_stop: finishing conn_step "NewConnection cap" conn_inv
    stop_move co_isDone "\<lambda>c. co_stop c = StopEnd" stop_work
  by unfold_locales (use stop_enabled stop_move_done in blast)+

text \<open>
  C15: once \<open>Stop\<close> has flagged the connection, it comes to its end: the calls of \<open>Send\<close> in flight and \<open>Stop\<close>
  never block one another for ever, some schedule of their own steps ends with the socket closed, and
  every schedule of them is bounded, by five steps of \<open>Stop\<close> and at most three of each call.
\<close>

theorem connection_stop_terminates:
  assumes "reaches conn_step (NewConnection cap) c" and "co_isDone c"
  shows "(\<exists>ms c'. list_all stop_move ms \<and> run conn_step ms c = Goes c' \<and> co_stop c' = StopEnd \<and> \<not> co_open c')
    \<and> (list_all stop_move ns \<and> run conn_step ns c = Goes d \<longrightarrow> length ns \<le> 5 + 3 * length (co_senders c))"
proof
  obtain ms c' where "list_all stop_move ms" "run conn_step ms c = Goes c'" "co_stop c' = StopEnd"
    using conn_stop.own_run_finishes [OF conn.reaches_inv [OF assms(1)] assms(2)] by blast
  moreover have "\<not> co_open c'"
    using conn_closed.reaches_inv [OF run_reaches [OF assms(1)]] calculation by blast
  ultimately show "\<exists>ms c'. list_all stop_move ms \<and> run conn_step ms c = Goes c' \<and> co_stop c' = StopEnd \<and> \<not> co_open c'"
    by blast
  have "sum_list (map (\<lambda>s. send_work (sd_pc s)) xs) \<le> 3 * length xs" for xs :: "'a sender list"
  proof (induction xs)
    case (Cons x xs)
    then show ?case by (cases "sd_pc x") simp_all
  qed simp
  moreover have "stop_pc_work (co_stop c) \<le> 5" by (cases "co_stop c") simp_all
  ultimately have "stop_work c \<le> 5 + 3 * length (co_senders c)"
    unfolding stop_work_def by (meson add_mono)
  then show "list_all stop_move ns \<and> run conn_step ns c = Goes d \<longrightarrow> length ns \<le> 5 + 3 * length (co_senders c)"
    using conn_stop.own_run_bounded [OF conn.reaches_inv [OF assms(1)] assms(2), of ns d] by linarith
qed

lemma connection_stop_terminates_witness:
  "\<exists>c ms d. run conn_step [CallSend (7::nat), SendStep 0, SendStep 0, SendStep 0, CallStop] (NewConnection 4) = Goes c
    \<and> co_open c \<and> run conn_step ms c = Goes d \<and> co_stop d = StopEnd \<and> \<not> co_open d"
proof -
  let ?r = "run conn_step [CallSend (7::nat), SendStep 0, SendStep 0, SendStep 0, CallStop] (NewConnection 4)"
  have "map_option (\<lambda>c. (co_isDone c, co_open c)) (goes ?r) = Some (True, True)" by code_simp
  from goes_mapD [OF this] obtain c where c: "?r = Goes c" "co_isDone c" "co_open c" by auto
  with connection_stop_terminates [OF run_from_init [OF c(1)] c(2)] show ?thesis by blast
qed

end
