(* ===== verification/Ws_Maps.thy ===== *)
theory Ws_Maps imports Go_Prelude begin

text \<open>
  The three locked maps of the WebSocket hub (\<open>wshub/connections_map.go\<close>, \<open>clients_map.go\<close>,
  \<open>event_handlers_map.go\<close>). Each operation holds the map's lock, so it is one step. The values are
  pointers (or functions), of any type here. \<open>keyed_store\<close> is what the hub, its clients and the event
  dispatch rely on; the three maps are its instances.
\<close>

section \<open>The interface\<close>

locale keyed_store =
  fixes new :: 's and add :: "'k \<Rightarrow> 'v \<Rightarrow> 's \<Rightarrow> 's" and del :: "'k \<Rightarrow> 's \<Rightarrow> 's" and get :: "'k \<Rightarrow> 's \<Rightarrow> 'v option"
  assumes get_new: "get k new = None"
    and get_add: "get k' (add k v s) = (if k' = k then Some v else get k' s)"
    and get_del: "get k' (del k s) = (if k' = k then None else get k' s)"
begin

lemma del_add: "get k' (del k (add k v s)) = get k' (del k s)"
  by (simp add: get_add get_del)

lemma add_all:
  "distinct (map fst kvs) \<Longrightarrow> get k (foldl (\<lambda>s (k, v). add k v s) s kvs) = (case map_of kvs k of Some v \<Rightarrow> Some v | None \<Rightarrow> get k s)"
proof (induction kvs arbitrary: s)
  case (Cons p kvs)
  obtain k' v where p: "p = (k', v)" by (cases p)
  with Cons have "get k (foldl (\<lambda>s (k, v). add k v s) s (p # kvs))
      = (case map_of kvs k of Some v \<Rightarrow> Some v | None \<Rightarrow> get k (add k' v s))" by simp
  moreover have "map_of kvs k' = None" using Cons.prems p by (simp add: map_of_eq_None_iff)
  ultimately show ?case using p by (auto simp: get_add split: option.splits)
qed simp

end

locale listed_store = keyed_store new add del get
  for new :: 's and add :: "'k \<Rightarrow> 'v \<Rightarrow> 's \<Rightarrow> 's" and del :: "'k \<Rightarrow> 's \<Rightarrow> 's" and get :: "'k \<Rightarrow> 's \<Rightarrow> 'v option" +
  fixes take_out :: "'k \<Rightarrow> 's \<Rightarrow> 'v option \<times> 's" and all :: "'s \<Rightarrow> ('k, 'v) gomap" and count :: "'s \<Rightarrow> nat"
    and ok :: "'s \<Rightarrow> bool"
  assumes ok_new: "ok new" and ok_add: "ok s \<Longrightarrow> ok (add k v s)" and ok_del: "ok s \<Longrightarrow> ok (del k s)"
    and take_del: "get k s \<noteq> None \<Longrightarrow> take_out k s = (get k s, del k s)"
    and take_none: "get k s = None \<Longrightarrow> take_out k s = (None, s)"
    and get_all: "map_get (all s) k = get k s"
    and all_ok: "ok s \<Longrightarrow> gomap_ok (all s)"
    and count_all: "count s = length (all s)"
begin

lemma take_get: "fst (take_out k s) = get k s"
  by (cases "get k s") (simp_all add: take_del take_none)

lemma get_take: "get k' (snd (take_out k s)) = (if k' = k then None else get k' s)"
  by (cases "get k s") (auto simp: take_del take_none get_del)

lemma ok_take: "ok s \<Longrightarrow> ok (snd (take_out k s))"
  by (cases "get k s") (auto simp: take_del take_none ok_del)

lemma take_twice: "fst (take_out k (snd (take_out k s))) = None"
  by (simp add: take_get get_take)

lemma count_zero: "count s = 0 \<longleftrightarrow> (\<forall>k. get k s = None)"
proof -
  have "all s = [] \<longleftrightarrow> (\<forall>k. map_get (all s) k = None)"
    by (cases "all s") (auto simp: map_get_None_iff)
  then show ?thesis by (simp add: count_all get_all)
qed

lemma in_all: "ok s \<Longrightarrow> (k, v) \<in> set (all s) \<longleftrightarrow> get k s = Some v"
  by (simp add: map_get_iff [symmetric] all_ok get_all)

end

section \<open>Connections\<close>

type_synonym 'c connections_map = "(string, 'c) gomap"

definition newConnectionsMap :: "'c connections_map" where
  "newConnectionsMap = []"

definition cm_Add :: "string \<Rightarrow> 'c \<Rightarrow> 'c connections_map \<Rightarrow> 'c connections_map" where
  "cm_Add connID conn cm = map_set cm connID conn"

definition cm_Remove :: "string \<Rightarrow> 'c connections_map \<Rightarrow> 'c option \<times> 'c connections_map" where
  "cm_Remove connID cm =
     (case map_get cm connID of Some conn \<Rightarrow> (Some conn, map_del cm connID) | None \<Rightarrow> (None, cm))"

definition cm_Get :: "string \<Rightarrow> 'c connections_map \<Rightarrow> 'c option" where
  "cm_Get connID cm = map_get cm connID"

definition cm_GetAll :: "'c connections_map \<Rightarrow> (string, 'c) gomap" where
  "cm_GetAll cm = cm"

definition cm_Count :: "'c connections_map \<Rightarrow> nat" where
  "cm_Count cm = length cm"

definition cm_IsEmpty :: "'c connections_map \<Rightarrow> bool" where
  "cm_IsEmpty cm \<longleftrightarrow> length cm = 0"

interpretation conns: listed_store newConnectionsMap cm_Add "\<lambda>k cm. snd (cm_Remove k cm)" cm_Get
    cm_Remove cm_GetAll cm_Count gomap_ok
  by unfold_locales
    (auto simp: newConnectionsMap_def cm_Add_def cm_Remove_def cm_Get_def cm_GetAll_def cm_Count_def
      split: option.splits)

lemma cm_IsEmpty_iff: "cm_IsEmpty cm \<longleftrightarrow> (\<forall>k. cm_Get k cm = None)"
  using conns.count_zero [of cm] by (simp add: cm_IsEmpty_def cm_Count_def)

section \<open>Clients\<close>

type_synonym 'c clients_map = "(string, 'c) gomap"

definition newClientsMap :: "'c clients_map" where
  "newClientsMap = []"

definition clients_Add :: "string \<Rightarrow> 'c \<Rightarrow> 'c clients_map \<Rightarrow> 'c clients_map" where
  "clients_Add clientID client cm = map_set cm clientID client"

definition clients_GetOrAdd :: "string \<Rightarrow> 'c \<Rightarrow> 'c clients_map \<Rightarrow> 'c \<times> bool \<times> 'c clients_map" where
  "clients_GetOrAdd clientID client cm =
     (case map_get cm clientID of
        Some existingClient \<Rightarrow> (existingClient, False, cm)
      | None \<Rightarrow> (client, True, map_set cm clientID client))"

definition clients_Remove :: "string \<Rightarrow> 'c clients_map \<Rightarrow> 'c option \<times> 'c clients_map" where
  "clients_Remove clientID cm =
     (case map_get cm clientID of Some client \<Rightarrow> (Some client, map_del cm clientID) | None \<Rightarrow> (None, cm))"

definition clients_Get :: "string \<Rightarrow> 'c clients_map \<Rightarrow> 'c option" where
  "clients_Get clientID cm = map_get cm clientID"

definition clients_GetAll :: "'c clients_map \<Rightarrow> (string, 'c) gomap" where
  "clients_GetAll cm = cm"

definition clients_Count :: "'c clients_map \<Rightarrow> nat" where
  "clients_Count cm = length cm"

interpretation clients: listed_store newClientsMap clients_Add "\<lambda>k cm. snd (clients_Remove k cm)" clients_Get
    clients_Remove clients_GetAll clients_Count gomap_ok
  by unfold_locales
    (auto simp: newClientsMap_def clients_Add_def clients_Remove_def clients_Get_def clients_GetAll_def
      clients_Count_def split: option.splits)

lemma get_or_add:
  "clients_GetOrAdd k c cm = (c', added, cm') \<Longrightarrow>
     clients_Get k cm' = Some c' \<and> (added \<longleftrightarrow> clients_Get k cm = None)
     \<and> (\<forall>k'. k' \<noteq> k \<longrightarrow> clients_Get k' cm' = clients_Get k' cm)
     \<and> clients_GetOrAdd k d cm' = (c', False, cm')"
  by (auto simp: clients_GetOrAdd_def clients_Get_def split: option.splits)

section \<open>Event handlers\<close>

type_synonym 'h handlers_map = "(string, 'h) gomap"

definition NewEventHandlersMap :: "'h handlers_map" where
  "NewEventHandlersMap = []"

definition ehm_Add :: "string \<Rightarrow> 'h \<Rightarrow> 'h handlers_map \<Rightarrow> 'h handlers_map" where
  "ehm_Add eventType handler ehm = map_set ehm eventType handler"

definition ehm_Remove :: "string \<Rightarrow> 'h handlers_map \<Rightarrow> 'h handlers_map" where
  "ehm_Remove eventType ehm = map_del ehm eventType"

definition ehm_Get :: "string \<Rightarrow> 'h handlers_map \<Rightarrow> 'h option" where
  "ehm_Get eventType ehm = map_get ehm eventType"

interpretation event_handlers: keyed_store NewEventHandlersMap ehm_Add ehm_Remove ehm_Get
  by unfold_locales (auto simp: NewEventHandlersMap_def ehm_Add_def ehm_Remove_def ehm_Get_def)

end
