(* ===== verification/Ws_Client.thy ===== *)
theory Ws_Client imports Go_Sync Ws_Maps begin

text \<open>
  A client of the hub (\<open>wshub/client.go\<close>) as the interleaving of its threads: calls of \<open>Send\<close>, \<open>Stop\<close>,
  \<open>Run\<close>, \<open>AddConnection\<close> and \<open>RemoveConnection\<close>, and the distribution pump \<open>Run\<close> starts. A step is one
  access to shared state by one thread; \<open>choice\<close> is the case a \<open>select\<close> takes. A connection is known by
  its id: handing it an event is an entry of \<open>cl_sent\<close>, stopping it an entry of \<open>cl_stopped\<close>, what happens
  inside it is the model of one connection. \<open>cl_queued\<close> and \<open>cl_taken\<close> record, for the statements, what
  went through the client's channel. The snapshot of a Go map has some order; here it is that of the
   list. \<open>Stop\<close> starts a goroutine that waits for the pumps (\<open>cl_waiter\<close>, one per client, since it is
  inside \<open>stopOnce\<close>) and waits for it or five seconds, so its wait never blocks. Of the pumps of the
  connections only their number is kept (\<open>cl_pumps\<close>): one may end at any time. Log lines are left out.
\<close>

section \<open>Configuration\<close>

record client_config =
  kc_SendBufferSize :: int
  kc_ReadBufferSize :: int
  kc_WriteBufferSize :: int
  kc_ReadLimit :: int
  kc_ReadTimeout :: int
  kc_WriteTimeout :: int
  kc_PingInterval :: int
  kc_PongTimeout :: int

type_synonym client_option = "client_config \<Rightarrow> client_config"

definition NewClientConfig :: client_config where
  "NewClientConfig =
     \<lparr>kc_SendBufferSize = 256, kc_ReadBufferSize = 1024, kc_WriteBufferSize = 1024,
      kc_ReadLimit = 1048576, kc_ReadTimeout = 60000000000, kc_WriteTimeout = 10000000000,
      kc_PingInterval = 54000000000, kc_PongTimeout = 60000000000\<rparr>"

definition WithSendBufferSize :: "int \<Rightarrow> client_option" where
  "WithSendBufferSize n c = c\<lparr>kc_SendBufferSize := n\<rparr>"

definition WithReadBufferSize :: "int \<Rightarrow> client_option" where
  "WithReadBufferSize n c = c\<lparr>kc_ReadBufferSize := n\<rparr>"

definition WithWriteBufferSize :: "int \<Rightarrow> client_option" where
  "WithWriteBufferSize n c = c\<lparr>kc_WriteBufferSize := n\<rparr>"

definition WithReadLimit :: "int \<Rightarrow> client_option" where
  "WithReadLimit limit c = c\<lparr>kc_ReadLimit := limit\<rparr>"

definition WithReadTimeout :: "int \<Rightarrow> client_option" where
  "WithReadTimeout timeout c = c\<lparr>kc_ReadTimeout := timeout\<rparr>"

definition WithWriteTimeout :: "int \<Rightarrow> client_option" where
  "WithWriteTimeout timeout c = c\<lparr>kc_WriteTimeout := timeout\<rparr>"

definition WithPingInterval :: "int \<Rightarrow> client_option" where
  "WithPingInterval interval c = c\<lparr>kc_PingInterval := interval\<rparr>"

definition WithPongTimeout :: "int \<Rightarrow> client_option" where
  "WithPongTimeout timeout c = c\<lparr>kc_PongTimeout := timeout\<rparr>"

section \<open>State and threads\<close>

datatype once = OnceFree | OnceBusy | OnceUsed

datatype close_pc =
    CloseCheck | CloseReady | CloseOnce | CloseFlag | CloseSignal | CloseSendCh | CloseSnapshot
  | CloseConns "string list" | CloseGo | CloseWait | CloseEnd

datatype wait_pc = WaitOff | WaitStart | WaitParked | WaitOver

datatype run_pc = RunStart | RunHub | RunStopped | RunPump | RunReady | RunWait | RunStop close_pc | RunExit | RunEnd

datatype post_pc = PostStart | PostSelect | PostEnd

datatype add_pc = AddCheck | AddPut | AddGoRead | AddGoWrite | AddEnd

datatype remove_pc = RemoveCheck | RemoveOut | RemoveCount | RemoveStop bool | RemoveLast | RemoveEnd

datatype 'e dist_pc =
    DistLoop | DistSelect | DistCheck 'e | DistSnapshot 'e | DistEach 'e "string list"
  | DistSend 'e string "string list" | DistEnd | DistGone

datatype 'e thread =
    PostT 'e post_pc
  | CloseT close_pc
  | RunT run_pc
  | AddT string add_pc
  | RemoveT string remove_pc
  | DistT "'e dist_pc"

record 'e client =
  cl_id :: string
  cl_hasHub :: bool
  cl_hubDone :: bool
  cl_connections :: "string connections_map"
  cl_sendCh :: "'e channel"
  cl_doneCh :: "unit channel"
  cl_wg :: wait_group
  cl_stopOnce :: once
  cl_isStopped :: bool
  cl_isRunning :: bool
  cl_readyToStopCh :: "unit channel"
  cl_threads :: "'e thread list"
  cl_waiter :: wait_pc
  cl_pumps :: nat
  cl_stopped :: "string list"
  cl_sent :: "(string \<times> 'e) list"
  cl_queued :: "'e list"
  cl_taken :: "'e list"

definition new_client :: "nat \<Rightarrow> string \<Rightarrow> 'e client" where
  "new_client bufferSize clientID =
     \<lparr>cl_id = clientID, cl_hasHub = False, cl_hubDone = False, cl_connections = newConnectionsMap,
       cl_sendCh = make_channel bufferSize, cl_doneCh = make_channel 0,
       cl_wg = new_wait_group, cl_stopOnce = OnceFree, cl_isStopped = False,
       cl_isRunning = False, cl_readyToStopCh = make_channel 0, cl_threads = [],
       cl_waiter = WaitOff, cl_pumps = 0, cl_stopped = [], cl_sent = [],
       cl_queued = [], cl_taken = []\<rparr>"

text \<open>A negative buffer size makes \<open>make\<close> panic (\<open>None\<close>).\<close>

definition NewClientWithID :: "string \<Rightarrow> client_option list \<Rightarrow> 'e client option" where
  "NewClientWithID clientID opts =
     (let config = foldl (\<lambda>c opt. opt c) NewClientConfig opts
      in if kc_SendBufferSize config < 0 then None
         else Some (new_client (nat (kc_SendBufferSize config)) clientID))"

definition NewClient :: "string \<Rightarrow> client_option list \<Rightarrow> 'e client option" where
  "NewClient uuid opts = NewClientWithID uuid opts"

definition SetHub :: "'e client \<Rightarrow> 'e client" where
  "SetHub c = c\<lparr>cl_hasHub := True\<rparr>"

definition GetConnections :: "'e client \<Rightarrow> (string, string) gomap" where
  "GetConnections c = cm_GetAll (cl_connections c)"

definition ConnectionCount :: "'e client \<Rightarrow> nat" where
  "ConnectionCount c = cm_Count (cl_connections c)"

definition IsSubscribedTo :: "string \<Rightarrow> 'e client \<Rightarrow> bool" where
  "IsSubscribedTo eventType c = True"

section \<open>The steps of a thread\<close>

text \<open>A step gives the thread's next point, the shared state and the threads it starts.\<close>

datatype choice = TakeChannel | TakeDone | TakeHub | TakeDefault

definition close_step :: "close_pc \<Rightarrow> 'e client \<Rightarrow> (close_pc \<times> 'e client) outcome" where
  "close_step pc c =
     (case pc of
        CloseCheck \<Rightarrow> Goes (if cl_isRunning c then CloseReady else CloseEnd, c)
      | CloseReady \<Rightarrow> if ch_closed (cl_readyToStopCh c) then Goes (CloseOnce, c) else Blocks
      | CloseOnce \<Rightarrow>
          (case cl_stopOnce c of
             OnceFree \<Rightarrow> Goes (CloseFlag, c\<lparr>cl_stopOnce := OnceBusy\<rparr>)
           | OnceBusy \<Rightarrow> Blocks
           | OnceUsed \<Rightarrow> Goes (CloseEnd, c))
      | CloseFlag \<Rightarrow> Goes (CloseSignal, c\<lparr>cl_isStopped := True\<rparr>)
      | CloseSignal \<Rightarrow> then_go (chan_close (cl_doneCh c)) (\<lambda>ch. Goes (CloseSendCh, c\<lparr>cl_doneCh := ch\<rparr>))
      | CloseSendCh \<Rightarrow> then_go (chan_close (cl_sendCh c)) (\<lambda>ch. Goes (CloseSnapshot, c\<lparr>cl_sendCh := ch\<rparr>))
      | CloseSnapshot \<Rightarrow> Goes (CloseConns (map fst (GetConnections c)), c)
      | CloseConns [] \<Rightarrow> Goes (CloseGo, c)
      | CloseConns (connID # rest) \<Rightarrow> Goes (CloseConns rest, c\<lparr>cl_stopped := cl_stopped c @ [connID]\<rparr>)
      | CloseGo \<Rightarrow> Goes (CloseWait, c\<lparr>cl_waiter := WaitStart\<rparr>)
      | CloseWait \<Rightarrow> Goes (CloseEnd, c\<lparr>cl_stopOnce := OnceUsed\<rparr>)
      | CloseEnd \<Rightarrow> Blocks)"

definition run_step :: "choice \<Rightarrow> run_pc \<Rightarrow> 'e client \<Rightarrow> (run_pc \<times> 'e client \<times> 'e thread list) outcome" where
  "run_step ch pc c =
     (case pc of
        RunStart \<Rightarrow> Goes (RunHub, c\<lparr>cl_isRunning := True\<rparr>, [])
      | RunHub \<Rightarrow> Goes (if cl_hasHub c then RunStopped else RunExit, c, [])
      | RunStopped \<Rightarrow> Goes (if cl_isStopped c then RunExit else RunPump, c, [])
      | RunPump \<Rightarrow> then_go (wg_add (cl_wg c)) (\<lambda>w. Goes (RunReady, c\<lparr>cl_wg := w\<rparr>, [DistT DistLoop]))
      | RunReady \<Rightarrow> then_go (chan_close (cl_readyToStopCh c)) (\<lambda>r. Goes (RunWait, c\<lparr>cl_readyToStopCh := r\<rparr>, []))
      | RunWait \<Rightarrow>
          (if ch = TakeDone \<and> ch_closed (cl_doneCh c) \<or> ch = TakeHub \<and> cl_hubDone c
           then Goes (RunStop CloseCheck, c, []) else Blocks)
      | RunStop CloseEnd \<Rightarrow> Goes (RunExit, c, [])
      | RunStop pc' \<Rightarrow> then_go (close_step pc' c) (\<lambda>(pc'', c'). Goes (RunStop pc'', c', []))
      | RunExit \<Rightarrow> Goes (RunEnd, c\<lparr>cl_isRunning := False\<rparr>, [])
      | RunEnd \<Rightarrow> Blocks)"

text \<open>
  \<open>Send\<close>: the default case is taken only when neither of the others is ready; a send case on a closed
  channel is ready, and panics when it is chosen.
\<close>

definition post_step :: "choice \<Rightarrow> 'e \<Rightarrow> post_pc \<Rightarrow> 'e client \<Rightarrow> (post_pc \<times> 'e client) outcome" where
  "post_step ch e pc c =
     (case pc of
        PostStart \<Rightarrow> Goes (if cl_isStopped c then PostEnd else PostSelect, c)
      | PostSelect \<Rightarrow>
          (case ch of
             TakeChannel \<Rightarrow> then_go (chan_send e (cl_sendCh c))
                 (\<lambda>s. Goes (PostEnd, c\<lparr>cl_sendCh := s, cl_queued := cl_queued c @ [e]\<rparr>))
           | TakeDone \<Rightarrow> if ch_closed (cl_doneCh c) then Goes (PostEnd, c) else Blocks
           | TakeDefault \<Rightarrow>
               if chan_send e (cl_sendCh c) = Blocks \<and> \<not> ch_closed (cl_doneCh c) then Goes (PostEnd, c) else Blocks
           | TakeHub \<Rightarrow> Blocks)
      | PostEnd \<Rightarrow> Blocks)"

definition add_step :: "string \<Rightarrow> add_pc \<Rightarrow> 'e client \<Rightarrow> (add_pc \<times> 'e client) outcome" where
  "add_step connID pc c =
     (case pc of
        AddCheck \<Rightarrow> Goes (if cl_isStopped c then AddEnd else AddPut, c)
      | AddPut \<Rightarrow> Goes (AddGoRead, c\<lparr>cl_connections := cm_Add connID connID (cl_connections c)\<rparr>)
      | AddGoRead \<Rightarrow> then_go (wg_add (cl_wg c)) (\<lambda>w. Goes (AddGoWrite, c\<lparr>cl_wg := w, cl_pumps := cl_pumps c + 1\<rparr>))
      | AddGoWrite \<Rightarrow> then_go (wg_add (cl_wg c)) (\<lambda>w. Goes (AddEnd, c\<lparr>cl_wg := w, cl_pumps := cl_pumps c + 1\<rparr>))
      | AddEnd \<Rightarrow> Blocks)"

definition remove_step ::
    "string \<Rightarrow> remove_pc \<Rightarrow> 'e client \<Rightarrow> (remove_pc \<times> 'e client \<times> 'e thread list) outcome" where
  "remove_step connID pc c =
     (case pc of
        RemoveCheck \<Rightarrow> Goes (if cl_isStopped c then RemoveEnd else RemoveOut, c, [])
      | RemoveOut \<Rightarrow>
          (case cm_Remove connID (cl_connections c) of
             (Some _, cm) \<Rightarrow> Goes (RemoveCount, c\<lparr>cl_connections := cm\<rparr>, [])
           | (None, _) \<Rightarrow> Goes (RemoveEnd, c, []))
      | RemoveCount \<Rightarrow> Goes (RemoveStop (ConnectionCount c = 0), c, [])
      | RemoveStop none_left \<Rightarrow> Goes (if none_left then RemoveLast else RemoveEnd, c\<lparr>cl_stopped := cl_stopped c @ [connID]\<rparr>, [])
      | RemoveLast \<Rightarrow> Goes (RemoveEnd, c, [CloseT CloseCheck])
      | RemoveEnd \<Rightarrow> Blocks)"

definition dist_step :: "choice \<Rightarrow> 'e dist_pc \<Rightarrow> 'e client \<Rightarrow> ('e dist_pc \<times> 'e client) outcome" where
  "dist_step ch pc c =
     (case pc of
        DistLoop \<Rightarrow> Goes (if cl_isStopped c then DistEnd else DistSelect, c)
      | DistSelect \<Rightarrow>
          (case ch of
             TakeChannel \<Rightarrow> then_go (chan_recv (cl_sendCh c))
                 (\<lambda>(got, s). case got of
                    None \<Rightarrow> Goes (DistEnd, c)
                  | Some e \<Rightarrow> Goes (DistCheck e, c\<lparr>cl_sendCh := s, cl_taken := cl_taken c @ [e]\<rparr>))
           | TakeDone \<Rightarrow> if ch_closed (cl_doneCh c) then Goes (DistEnd, c) else Blocks
           | _ \<Rightarrow> Blocks)
      | DistCheck e \<Rightarrow> Goes (if cl_isStopped c then DistEnd else DistSnapshot e, c)
      | DistSnapshot e \<Rightarrow> Goes (DistEach e (map fst (GetConnections c)), c)
      | DistEach e [] \<Rightarrow> Goes (DistLoop, c)
      | DistEach e (connID # rest) \<Rightarrow> Goes (if cl_isStopped c then DistEnd else DistSend e connID rest, c)
      | DistSend e connID rest \<Rightarrow> Goes (DistEach e rest, c\<lparr>cl_sent := cl_sent c @ [(connID, e)]\<rparr>)
      | DistEnd \<Rightarrow> then_go (wg_done (cl_wg c)) (\<lambda>w. Goes (DistGone, c\<lparr>cl_wg := w\<rparr>))
      | DistGone \<Rightarrow> Blocks)"

text \<open>The goroutine \<open>Stop\<close> starts, and the end of a pump of a connection.\<close>

definition waiter_step :: "'e client \<Rightarrow> 'e client outcome" where
  "waiter_step c =
     (case cl_waiter c of
        WaitOff \<Rightarrow> Blocks
      | WaitStart \<Rightarrow>
          (if wg_count (cl_wg c) = 0 then Goes (c\<lparr>cl_waiter := WaitOver\<rparr>)
           else Goes (c\<lparr>cl_wg := wg_wait (cl_wg c), cl_waiter := WaitParked\<rparr>))
      | WaitParked \<Rightarrow> then_go (wg_wake (cl_wg c)) (\<lambda>w. Goes (c\<lparr>cl_wg := w, cl_waiter := WaitOver\<rparr>))
      | WaitOver \<Rightarrow> Blocks)"

definition pump_ends :: "'e client \<Rightarrow> 'e client outcome" where
  "pump_ends c =
     (if cl_pumps c = 0 then Blocks
      else then_go (wg_done (cl_wg c)) (\<lambda>w. Goes (c\<lparr>cl_wg := w, cl_pumps := cl_pumps c - 1\<rparr>)))"

definition thread_step :: "choice \<Rightarrow> 'e thread \<Rightarrow> 'e client \<Rightarrow> ('e thread \<times> 'e client \<times> 'e thread list) outcome" where
  "thread_step ch t c =
     (case t of
        PostT e pc \<Rightarrow> then_go (post_step ch e pc c) (\<lambda>(pc', c'). Goes (PostT e pc', c', []))
      | CloseT pc \<Rightarrow> then_go (close_step pc c) (\<lambda>(pc', c'). Goes (CloseT pc', c', []))
      | RunT pc \<Rightarrow> then_go (run_step ch pc c) (\<lambda>(pc', c', ts). Goes (RunT pc', c', ts))
      | AddT connID pc \<Rightarrow> then_go (add_step connID pc c) (\<lambda>(pc', c'). Goes (AddT connID pc', c', []))
      | RemoveT connID pc \<Rightarrow> then_go (remove_step connID pc c) (\<lambda>(pc', c', ts). Goes (RemoveT connID pc', c', ts))
      | DistT pc \<Rightarrow> then_go (dist_step ch pc c) (\<lambda>(pc', c'). Goes (DistT pc', c', [])))"

section \<open>The system\<close>

datatype 'e call = AskSend 'e | AskStop | AskRun | AskAddConnection string | AskRemoveConnection string

primrec thread_of :: "'e call \<Rightarrow> 'e thread" where
  "thread_of (AskSend e) = PostT e PostStart"
| "thread_of AskStop = CloseT CloseCheck"
| "thread_of AskRun = RunT RunStart"
| "thread_of (AskAddConnection connID) = AddT connID AddCheck"
| "thread_of (AskRemoveConnection connID) = RemoveT connID RemoveCheck"

datatype 'e client_move = Call "'e call" | HubCloses | WaiterStep | PumpEnds | Step nat choice

definition client_step :: "'e client_move \<Rightarrow> 'e client \<Rightarrow> 'e client outcome" where
  "client_step m c =
     (case m of
        Call k \<Rightarrow> Goes (c\<lparr>cl_threads := cl_threads c @ [thread_of k]\<rparr>)
      | HubCloses \<Rightarrow> Goes (c\<lparr>cl_hubDone := True\<rparr>)
      | WaiterStep \<Rightarrow> waiter_step c
      | PumpEnds \<Rightarrow> pump_ends c
      | Step i ch \<Rightarrow>
          (if length (cl_threads c) \<le> i then Blocks
           else then_go (thread_step ch (cl_threads c ! i) c)
             (\<lambda>(t', c', ts). Goes (c'\<lparr>cl_threads := (cl_threads c)[i := t'] @ ts\<rparr>))))"

text \<open>A client as the hub makes it.\<close>

definition hub_client :: "nat \<Rightarrow> string \<Rightarrow> 'e client" where
  "hub_client bufferSize clientID = SetHub (new_client bufferSize clientID)"

end
