(* ===== verification/Ws_Client_Safety.thy ===== *)
theory Ws_Client_Safety imports Ws_Client begin

text \<open>
  The invariants of one client under every interleaving: who may be inside \<open>stopOnce\<close> and what is closed
  there, that nothing stops before the one run is ready, and what the wait group counts. From them, the
  only two panics a client can end in.
\<close>

section \<open>Who closes the client\<close>

fun closing :: "'e thread \<Rightarrow> close_pc option" where
  "closing (CloseT pc) = Some pc"
| "closing (RunT (RunStop pc)) = Some pc"
| "closing t = None"

fun in_section :: "close_pc \<Rightarrow> bool" where
  "in_section CloseCheck = False"
| "in_section CloseReady = False"
| "in_section CloseOnce = False"
| "in_section CloseEnd = False"
| "in_section pc = True"

definition owner :: "'e thread \<Rightarrow> bool" where
  "owner t = (case closing t of None \<Rightarrow> False | Some pc \<Rightarrow> in_section pc)"

text \<open>What is closed, and whether the waiting goroutine has been started, when the closing thread stands at a point.\<close>

fun closed_at :: "close_pc \<Rightarrow> bool \<times> bool \<times> bool \<times> bool \<Rightarrow> bool" where
  "closed_at CloseFlag f = (f = (False, False, False, False))"
| "closed_at CloseSignal f = (f = (True, False, False, False))"
| "closed_at CloseSendCh f = (f = (True, True, False, False))"
| "closed_at CloseWait f = (f = (True, True, True, True))"
| "closed_at pc f = (in_section pc \<longrightarrow> f = (True, True, True, False))"

definition closed :: "'e client \<Rightarrow> bool \<times> bool \<times> bool \<times> bool" where
  "closed c = (cl_isStopped c, ch_closed (cl_doneCh c), ch_closed (cl_sendCh c), cl_waiter c \<noteq> WaitOff)"

definition once_inv :: "'e client \<Rightarrow> bool" where
  "once_inv c \<longleftrightarrow>
     length (filter owner (cl_threads c)) = (if cl_stopOnce c = OnceBusy then 1 else 0)
   \<and> (cl_stopOnce c = OnceFree \<longrightarrow> closed c = (False, False, False, False))
   \<and> (cl_stopOnce c = OnceUsed \<longrightarrow> closed c = (True, True, True, True))
   \<and> (\<forall>t \<in> set (cl_threads c). \<forall>pc. closing t = Some pc \<longrightarrow> closed_at pc (closed c))"

text \<open>A step of closing: what it does to the parts the invariant speaks of.\<close>

lemma close_step_cases:
  assumes "close_step pc c = Goes (pc', c')"
    and "closed_at pc (closed c)"
  shows "(\<not> in_section pc \<and> \<not> in_section pc' \<and> closed c' = closed c \<and> cl_stopOnce c' = cl_stopOnce c)
    \<or> (pc = CloseOnce \<and> pc' = CloseFlag \<and> closed c' = closed c \<and> cl_stopOnce c = OnceFree \<and> cl_stopOnce c' = OnceBusy)
    \<or> (in_section pc \<and> in_section pc' \<and> closed_at pc' (closed c') \<and> cl_stopOnce c' = cl_stopOnce c)
    \<or> (pc = CloseWait \<and> pc' = CloseEnd \<and> closed c' = closed c \<and> cl_stopOnce c' = OnceUsed)"
proof -
  have conns: ?thesis if "pc = CloseConns ids" for ids
    using assms that by (cases ids) (auto simp: close_step_def closed_def)
  show ?thesis
    using assms conns
    by (cases pc) (auto simp: close_step_def closed_def then_go_simps chan_close_def split: if_splits once.splits)
qed

lemma close_step_frame:
  assumes "close_step pc c = Goes (pc', c')"
  shows "cl_threads c' = cl_threads c \<and> cl_isRunning c' = cl_isRunning c \<and> cl_hasHub c' = cl_hasHub c
    \<and> cl_readyToStopCh c' = cl_readyToStopCh c \<and> cl_connections c' = cl_connections c
    \<and> cl_sent c' = cl_sent c \<and> cl_taken c' = cl_taken c \<and> cl_queued c' = cl_queued c
    \<and> ch_buf (cl_sendCh c') = ch_buf (cl_sendCh c) \<and> cl_wg c' = cl_wg c \<and> cl_pumps c' = cl_pumps c
    \<and> (cl_waiter c' = cl_waiter c \<or> pc = CloseGo \<and> pc' = CloseWait \<and> cl_waiter c' = WaitStart)"
proof -
  have conns: ?thesis if "pc = CloseConns ids" for ids
    using assms that by (cases ids) (auto simp: close_step_def)
  show ?thesis
    using assms conns
    by (cases pc) (auto simp: close_step_def then_go_simps chan_close_def split: if_splits once.splits)
qed

lemma dist_step_closed:
  assumes "dist_step ch pc c = Goes (pc', c')"
  shows "closed c' = closed c \<and> cl_stopOnce c' = cl_stopOnce c"
proof (cases pc)
  case DistSelect
  then show ?thesis using assms
    by (cases ch) (auto simp: dist_step_def then_go_Goes closed_def chan_recv_def split: if_splits list.splits)
next
  case (DistEach e ids)
  then show ?thesis using assms by (cases ids) (auto simp: dist_step_def)
qed (use assms in \<open>auto simp: dist_step_def closed_def then_go_Goes\<close>)

text \<open>A step of a thread that is not closing leaves all that alone.\<close>

lemma other_step_closed:
  assumes "thread_step ch t c = Goes (t', c', ts)" and "closing t = None"
  shows "closed c' = closed c \<and> cl_stopOnce c' = cl_stopOnce c \<and> \<not> owner t' \<and> filter owner ts = []
    \<and> (\<forall>u \<in> set (t' # ts). \<forall>pc. closing u = Some pc \<longrightarrow> \<not> in_section pc)"
proof (cases t)
  case (PostT e pc)
  then show ?thesis using assms
    by (cases pc; cases ch)
      (auto simp: thread_step_def post_step_def then_go_simps closed_def owner_def chan_send_def split: if_splits)
next
  case (RunT pc)
  then show ?thesis using assms
    by (cases pc) (auto simp: thread_step_def run_step_def then_go_simps closed_def owner_def chan_close_def split: if_splits)
next
  case (AddT k pc)
  then show ?thesis using assms
    by (cases pc) (auto simp: thread_step_def add_step_def then_go_simps closed_def owner_def)
next
  case (RemoveT k pc)
  then show ?thesis using assms
    by (cases pc) (auto simp: thread_step_def remove_step_def then_go_simps closed_def owner_def
        split: option.splits prod.splits)
next
  case (DistT pc)
  then show ?thesis using assms dist_step_closed [of ch pc c]
    by (auto simp: thread_step_def then_go_Goes owner_def)
qed (use assms in simp)

lemma not_in_section_at [simp]: "\<not> in_section pc \<Longrightarrow> closed_at pc f"
  by (cases pc) simp_all

lemma client_step_StepD:
  assumes "client_step (Step i ch) c = Goes d"
  obtains t' c' ts where "i < length (cl_threads c)" and "thread_step ch (cl_threads c ! i) c = Goes (t', c', ts)"
    and "d = c'\<lparr>cl_threads := (cl_threads c)[i := t'] @ ts\<rparr>"
  using assms by (auto simp: client_step_def then_go_Goes split: if_splits)

lemma closed_threads [simp]: "closed (c\<lparr>cl_threads := ts\<rparr>) = closed c"
  by (simp add: closed_def)

text \<open>A step of a closing thread.\<close>

lemma closing_stepD:
  assumes "thread_step ch t c = Goes (t', c', ts)" and "closing t = Some pc"
  shows "(pc = CloseEnd \<and> t = RunT (RunStop CloseEnd) \<and> t' = RunT RunExit \<and> c' = c \<and> ts = [])
    \<or> (\<exists>pc'. close_step pc c = Goes (pc', c') \<and> closing t' = Some pc' \<and> ts = [])"
proof (cases t)
  case (RunT rpc)
  then obtain "rpc = RunStop pc" using assms(2) by (cases rpc) auto
  with RunT assms(1) show ?thesis
    by (cases pc) (auto simp: thread_step_def run_step_def then_go_Goes)
qed (use assms in \<open>auto simp: thread_step_def then_go_Goes\<close>)

lemma quiet_stepD:
  assumes "client_step m c = Goes d" and "m = WaiterStep \<or> m = PumpEnds"
  obtains w x n where "d = c\<lparr>cl_wg := w, cl_waiter := x, cl_pumps := n\<rparr>" and "x \<noteq> WaitOff \<longleftrightarrow> cl_waiter c \<noteq> WaitOff"
proof -
  have "\<exists>w x n. d = c\<lparr>cl_wg := w, cl_waiter := x, cl_pumps := n\<rparr> \<and> (x \<noteq> WaitOff \<longleftrightarrow> cl_waiter c \<noteq> WaitOff)"
  proof (cases "m = WaiterStep")
    case True
    have "d = c\<lparr>cl_wg := cl_wg d, cl_waiter := cl_waiter d, cl_pumps := cl_pumps d\<rparr>
        \<and> (cl_waiter d \<noteq> WaitOff \<longleftrightarrow> cl_waiter c \<noteq> WaitOff)"
      using assms(1) True
      by (auto simp: client_step_def waiter_step_def then_go_Goes split: wait_pc.splits if_splits)
    then show ?thesis by blast
  next
    case False
    then have "d = c\<lparr>cl_wg := cl_wg d, cl_waiter := cl_waiter c, cl_pumps := cl_pumps d\<rparr>"
      using assms by (auto simp: client_step_def pump_ends_def then_go_Goes split: if_splits)
    then show ?thesis by blast
  qed
  with that show ?thesis by blast
qed

lemma once_inv_closing_step:
  assumes inv: "once_inv c" and i: "i < length (cl_threads c)"
    and pc: "closing (cl_threads c ! i) = Some pc" and step: "close_step pc c = Goes (pc', c')"
    and t': "closing t' = Some pc'"
  shows "once_inv (c'\<lparr>cl_threads := (cl_threads c)[i := t']\<rparr>)"
proof -
  let ?ts = "cl_threads c" and ?ts' = "(cl_threads c)[i := t']"
  have at: "closed_at q (closed c)" if "u \<in> set ?ts" "closing u = Some q" for u q
    using inv that by (auto simp: once_inv_def)
  have o: "owner (?ts ! i) = in_section pc" "owner t' = in_section pc'" using pc t' by (simp_all add: owner_def)
  note len = filter_length_update [OF i, of owner t', unfolded o]
  have others: "u = t' \<or> u \<in> set ?ts \<and> \<not> owner u" if "in_section pc" "u \<in> set ?ts'" for u
    using filter_single_others [of owner ?ts i u t'] inv i o that by (auto simp: once_inv_def split: if_splits)
  have sub: "u = t' \<or> u \<in> set ?ts" if "u \<in> set ?ts'" for u
    using that set_update_subset_insert [of ?ts i t'] by auto
  have new: "closed_at q (closed c')" if "u \<in> set ?ts'" "closing u = Some q" "closed_at pc' (closed c')"
    "in_section pc \<or> closed c' = closed c" for u q
  proof (cases "in_section pc")
    case True
    with others [OF True that(1)] that t' show ?thesis by (auto simp: owner_def)
  next
    case False
    with sub [OF that(1)] that t' at show ?thesis by auto
  qed
  have inv_at: "closed_at pc (closed c)" using at [OF nth_mem [OF i] pc] .
  from close_step_cases [OF step inv_at]
  show ?thesis
  proof (elim disjE conjE)
    assume "\<not> in_section pc" "\<not> in_section pc'" "closed c' = closed c" "cl_stopOnce c' = cl_stopOnce c"
    then show ?thesis using inv len new unfolding once_inv_def by simp
  next
    assume "pc = CloseOnce" "pc' = CloseFlag" "closed c' = closed c" "cl_stopOnce c = OnceFree" "cl_stopOnce c' = OnceBusy"
    then show ?thesis using inv len new unfolding once_inv_def by simp
  next
    assume a: "in_section pc" "in_section pc'" "closed_at pc' (closed c')" "cl_stopOnce c' = cl_stopOnce c"
    then have "cl_stopOnce c = OnceBusy"
      using inv len nth_filter_length [OF i, of owner] o by (auto simp: once_inv_def split: if_splits)
    with a show ?thesis using inv len new unfolding once_inv_def by simp
  next
    assume a: "pc = CloseWait" "pc' = CloseEnd" "closed c' = closed c" "cl_stopOnce c' = OnceUsed"
    then have "cl_stopOnce c = OnceBusy" "closed c = (True, True, True, True)"
      using inv inv_at nth_filter_length [OF i, of owner] o by (auto simp: once_inv_def split: if_splits)
    with a show ?thesis using inv len new unfolding once_inv_def by simp
  qed
qed

lemma once_inv_step:
  assumes inv: "once_inv c" and step: "client_step m c = Goes d"
  shows "once_inv d"
proof (cases m)
  case (Step i ch)
  from step [unfolded Step] obtain t' c' ts where i: "i < length (cl_threads c)"
    and t: "thread_step ch (cl_threads c ! i) c = Goes (t', c', ts)"
    and d: "d = c'\<lparr>cl_threads := (cl_threads c)[i := t'] @ ts\<rparr>"
    by (rule client_step_StepD)
  show ?thesis
  proof (cases "closing (cl_threads c ! i)")
    case None
    note o = other_step_closed [OF t None]
    have "length (filter owner ((cl_threads c)[i := t'])) = length (filter owner (cl_threads c))"
      using filter_length_update [OF i, of owner t'] o None by (simp add: owner_def)
    moreover have "closed_at pc (closed c)" if "u \<in> set ((cl_threads c)[i := t'] @ ts)" "closing u = Some pc" for u pc
      using that o inv set_update_subset_insert [of "cl_threads c" i t'] by (auto simp: once_inv_def)
    ultimately show ?thesis using inv o unfolding once_inv_def d by simp
  next
    case (Some pc)
    from closing_stepD [OF t Some] show ?thesis
    proof (elim disjE exE conjE)
      assume a: "pc = CloseEnd" "cl_threads c ! i = RunT (RunStop CloseEnd)" "t' = RunT RunExit" "c' = c" "ts = []"
      have "length (filter owner ((cl_threads c)[i := t'])) = length (filter owner (cl_threads c))"
        using filter_length_update [OF i, of owner t'] a by (simp add: owner_def)
      then show ?thesis
        using inv a set_update_subset_insert [of "cl_threads c" i t'] unfolding once_inv_def d by auto
    qed (use once_inv_closing_step [OF inv i Some] d in auto)
  qed
next
  case (Call k)
  with step have d: "d = c\<lparr>cl_threads := cl_threads c @ [thread_of k]\<rparr>" by (simp add: client_step_def)
  have "\<not> owner (thread_of k)" "closing (thread_of k) = Some pc \<Longrightarrow> closed_at pc (closed c)" for pc
    by (cases k; auto simp: owner_def)+
  with inv show ?thesis unfolding once_inv_def d by auto
next
  case HubCloses
  with inv step show ?thesis by (auto simp: client_step_def once_inv_def closed_def)
qed (use step inv in \<open>auto simp: once_inv_def closed_def elim!: quiet_stepD\<close>)

section \<open>The one run of a client\<close>

text \<open>The hub calls \<open>Run\<close> once per client; what follows is about clients with at most one run.\<close>

fun is_run :: "'e thread \<Rightarrow> bool" where
  "is_run (RunT pc) = True"
| "is_run t = False"

lemma is_run_iff: "is_run t \<longleftrightarrow> (\<exists>pc. t = RunT pc)"
  by (cases t) auto

definition single_run :: "'e client \<Rightarrow> bool" where
  "single_run c \<longleftrightarrow> length (filter is_run (cl_threads c)) \<le> 1"

fun past_ready :: "run_pc \<Rightarrow> bool" where
  "past_ready RunStart = False"
| "past_ready RunHub = False"
| "past_ready RunStopped = False"
| "past_ready RunPump = False"
| "past_ready RunReady = False"
| "past_ready pc = True"

definition ready :: "'e client \<Rightarrow> bool" where
  "ready c = ch_closed (cl_readyToStopCh c)"

definition begun :: "'e client \<Rightarrow> bool" where
  "begun c \<longleftrightarrow> (\<exists>pc. RunT pc \<in> set (cl_threads c) \<and> pc \<noteq> RunStart)"

definition thread_ready :: "bool \<Rightarrow> bool \<Rightarrow> 'e thread \<Rightarrow> bool" where
  "thread_ready r b t \<longleftrightarrow>
     (\<forall>pc. t = RunT pc \<longrightarrow> (past_ready pc \<longleftrightarrow> r))
   \<and> (\<forall>pc. closing t = Some pc \<and> pc \<noteq> CloseCheck \<and> pc \<noteq> CloseReady \<and> pc \<noteq> CloseEnd \<longrightarrow> r)
   \<and> (closing t = Some CloseReady \<longrightarrow> b)"

definition ready_inv :: "'e client \<Rightarrow> bool" where
  "ready_inv c \<longleftrightarrow> cl_hasHub c \<and>
     (single_run c \<longrightarrow>
        (\<forall>t \<in> set (cl_threads c). thread_ready (ready c) (begun c) t)
      \<and> (ready c \<longrightarrow> (\<exists>t \<in> set (cl_threads c). is_run t))
      \<and> (cl_stopOnce c \<noteq> OnceFree \<longrightarrow> ready c)
      \<and> (cl_isRunning c \<longrightarrow> begun c))"

lemma thread_ready_mono:
  "thread_ready r b t \<Longrightarrow> (b \<Longrightarrow> b') \<Longrightarrow> (r \<Longrightarrow> r') \<Longrightarrow> r' = r \<or> \<not> is_run t \<Longrightarrow> thread_ready r' b' t"
  by (auto simp: thread_ready_def)

text \<open>A step keeps runs runs, and starts none.\<close>

lemma step_is_run:
  assumes "thread_step ch t c = Goes (t', c', ts)"
  shows "is_run t' = is_run t \<and> filter is_run ts = [] \<and> cl_hasHub c' = cl_hasHub c"
proof (cases t)
  case (PostT e pc)
  then show ?thesis using assms
    by (cases pc; cases ch) (auto simp: thread_step_def post_step_def then_go_Goes split: if_splits)
next
  case (CloseT pc)
  then show ?thesis using assms close_step_frame [of pc c] by (auto simp: thread_step_def then_go_Goes)
next
  case (RunT pc)
  have "cl_hasHub c' = cl_hasHub c \<and> filter is_run ts = []" if "pc = RunStop q" for q
    using that RunT assms close_step_frame [of q c]
    by (cases q) (auto simp: thread_step_def run_step_def then_go_Goes)
  then show ?thesis using RunT assms
    by (cases pc) (auto simp: thread_step_def run_step_def then_go_Goes split: if_splits)
next
  case (AddT k pc)
  then show ?thesis using assms by (cases pc) (auto simp: thread_step_def add_step_def then_go_Goes)
next
  case (RemoveT k pc)
  then show ?thesis using assms
    by (cases pc) (auto simp: thread_step_def remove_step_def then_go_Goes split: option.splits prod.splits)
next
  case (DistT pc)
  have "cl_hasHub d = cl_hasHub c" if "dist_step ch pc c = Goes (pc', d)" for pc' d
  proof (cases pc)
    case DistSelect
    then show ?thesis using that
      by (cases ch) (auto simp: dist_step_def then_go_Goes split: if_splits option.splits)
  next
    case (DistEach e ids)
    then show ?thesis using that by (cases ids) (auto simp: dist_step_def)
  qed (use that in \<open>auto simp: dist_step_def then_go_Goes\<close>)
  with DistT assms show ?thesis by (auto simp: thread_step_def then_go_Goes)
qed

lemma single_run_step:
  assumes "i < length (cl_threads c)" and "thread_step ch (cl_threads c ! i) c = Goes (t', c', ts)"
  shows "single_run (c'\<lparr>cl_threads := (cl_threads c)[i := t'] @ ts\<rparr>) = single_run c"
  using filter_length_update [OF assms(1), of is_run t'] step_is_run [OF assms(2)]
  by (auto simp: single_run_def split: if_splits)

lemma close_step_ready:
  assumes "close_step pc c = Goes (pc', c')" and "cl_isRunning c \<longrightarrow> b"
    and "pc \<noteq> CloseCheck \<and> pc \<noteq> CloseReady \<and> pc \<noteq> CloseEnd \<longrightarrow> ready c"
  shows "(pc' \<noteq> CloseCheck \<and> pc' \<noteq> CloseReady \<and> pc' \<noteq> CloseEnd \<longrightarrow> ready c) \<and> (pc' = CloseReady \<longrightarrow> b)
    \<and> (cl_stopOnce c' = cl_stopOnce c \<or> ready c)"
proof -
  have conns: ?thesis if "pc = CloseConns ids" for ids
    using assms that by (cases ids) (auto simp: close_step_def)
  show ?thesis
    using assms conns
    by (cases pc) (auto simp: close_step_def ready_def then_go_Goes chan_close_def split: if_splits once.splits)
qed

lemma dist_step_frame:
  assumes "dist_step ch pc c = Goes (pc', c')"
  shows "cl_readyToStopCh c' = cl_readyToStopCh c \<and> cl_isRunning c' = cl_isRunning c \<and> cl_stopOnce c' = cl_stopOnce c
    \<and> cl_connections c' = cl_connections c \<and> cl_queued c' = cl_queued c"
proof (cases pc)
  case DistSelect
  then show ?thesis using assms
    by (cases ch) (auto simp: dist_step_def then_go_Goes split: if_splits option.splits)
next
  case (DistEach e ids)
  then show ?thesis using assms by (cases ids) (auto simp: dist_step_def)
qed (use assms in \<open>auto simp: dist_step_def then_go_Goes\<close>)

lemma nonrun_step_ready:
  assumes "thread_step ch t c = Goes (t', c', ts)" and "\<not> is_run t" and "thread_ready (ready c) b t"
    and "cl_isRunning c \<longrightarrow> b"
  shows "ready c' = ready c \<and> cl_isRunning c' = cl_isRunning c \<and> (\<forall>u \<in> set (t' # ts). thread_ready (ready c) b u)
    \<and> (cl_stopOnce c' = cl_stopOnce c \<or> ready c)"
proof (cases t)
  case (PostT e pc)
  then show ?thesis using assms
    by (cases pc; cases ch) (auto simp: thread_step_def post_step_def then_go_Goes ready_def thread_ready_def split: if_splits)
next
  case (CloseT pc)
  then show ?thesis using assms close_step_frame [of pc c] close_step_ready [of pc c _ _ b]
    by (fastforce simp: thread_step_def then_go_Goes thread_ready_def ready_def)
next
  case (AddT k pc)
  then show ?thesis using assms
    by (cases pc) (auto simp: thread_step_def add_step_def then_go_Goes ready_def thread_ready_def)
next
  case (RemoveT k pc)
  then show ?thesis using assms
    by (cases pc) (auto simp: thread_step_def remove_step_def then_go_Goes ready_def thread_ready_def
        split: option.splits prod.splits)
next
  case (DistT pc)
  then show ?thesis using assms dist_step_frame [of ch pc c]
    by (fastforce simp: thread_step_def then_go_Goes ready_def thread_ready_def)
qed (use assms in simp)

lemma run_step_ready:
  assumes "run_step ch pc c = Goes (pc', c', ts)" and "thread_ready (ready c) b (RunT pc)"
    and "cl_isRunning c \<longrightarrow> b" and "cl_hasHub c" and "cl_stopOnce c \<noteq> OnceFree \<longrightarrow> ready c"
    and "cl_isStopped c \<longrightarrow> cl_stopOnce c \<noteq> OnceFree"
  shows "pc' \<noteq> RunStart \<and> thread_ready (ready c') True (RunT pc') \<and> (ready c \<longrightarrow> ready c')
    \<and> (cl_stopOnce c' \<noteq> OnceFree \<longrightarrow> ready c') \<and> (\<forall>u \<in> set ts. thread_ready (ready c') True u)"
proof -
  have stop: ?thesis if pc: "pc = RunStop q" for q
  proof (cases "q = CloseEnd")
    case True
    then show ?thesis using assms pc by (auto simp: run_step_def thread_ready_def ready_def)
  next
    case False
    then obtain q' where q: "close_step q c = Goes (q', c')" "pc' = RunStop q'" "ts = []"
      using assms(1) pc by (cases q) (auto simp: run_step_def then_go_Goes)
    have r: "ready c" using assms(2) pc by (simp add: thread_ready_def)
    then have "ready c'" using close_step_frame [OF q(1)] by (simp add: ready_def)
    with q show ?thesis by (auto simp: thread_ready_def)
  qed
  show ?thesis
    using assms stop
    by (cases pc) (auto simp: run_step_def then_go_Goes chan_close_def thread_ready_def ready_def split: if_splits)
qed

lemma ready_inv_step:
  assumes inv: "ready_inv c" "once_inv c" and step: "client_step m c = Goes d"
  shows "ready_inv d"
proof (cases m)
  case (Step i ch)
  from step [unfolded Step] obtain t' c' ts where i: "i < length (cl_threads c)"
    and t: "thread_step ch (cl_threads c ! i) c = Goes (t', c', ts)"
    and d: "d = c'\<lparr>cl_threads := (cl_threads c)[i := t'] @ ts\<rparr>"
    by (rule client_step_StepD)
  have sr: "single_run d = single_run c" using single_run_step [OF i t] d by simp
  have hub: "cl_hasHub d" using inv(1) step_is_run [OF t] by (simp add: ready_inv_def d)
  show ?thesis
  proof (cases "single_run c")
    case True
    let ?old = "cl_threads c ! i"
    have old: "thread_ready (ready c) (begun c) u" if "u \<in> set (cl_threads c)" for u
      using inv(1) True that by (simp add: ready_inv_def)
    have rd: "ready d = ready c'" by (simp add: d ready_def)
    show ?thesis
    proof (cases "is_run ?old")
      case False
      note n = nonrun_step_ready [OF t False old [OF nth_mem [OF i]]]
      have n': "ready d = ready c" "cl_isRunning d = cl_isRunning c" "\<forall>u \<in> set (t' # ts). thread_ready (ready c) (begun c) u"
        "cl_stopOnce d = cl_stopOnce c \<or> ready c"
        using n inv(1) True rd by (auto simp: ready_inv_def d)
      have runs: "RunT pc \<in> set (cl_threads d) \<longleftrightarrow> RunT pc \<in> set (cl_threads c)" for pc
      proof -
        have "RunT pc \<noteq> ?old" "RunT pc \<noteq> t'" "RunT pc \<notin> set ts"
          using False step_is_run [OF t] by (metis is_run.simps(1), metis is_run.simps(1), auto simp: filter_empty_conv)
        then show ?thesis using set_update_other [OF i, of "RunT pc" t'] by (simp add: d)
      qed
      then have b: "begun d = begun c" by (simp add: begun_def)
      have "\<forall>u \<in> set (cl_threads d). thread_ready (ready d) (begun d) u"
        using n' b old set_update_cases [of _ "cl_threads c" i t'] by (auto simp: d)
      moreover have "ready d \<longrightarrow> (\<exists>t \<in> set (cl_threads d). is_run t)"
        using n' inv(1) True runs by (auto simp: ready_inv_def is_run_iff)
      ultimately show ?thesis using inv(1) True hub n' b by (auto simp: ready_inv_def)
    next
      case run: True
      then obtain pc where pc: "?old = RunT pc" by (auto simp: is_run_iff)
      then obtain pc' where pc': "run_step ch pc c = Goes (pc', c', ts)" "t' = RunT pc'"
        using t by (auto simp: thread_step_def then_go_Goes)
      have stopped: "cl_isStopped c \<longrightarrow> cl_stopOnce c \<noteq> OnceFree" using inv(2) by (auto simp: once_inv_def closed_def)
      have r: "pc' \<noteq> RunStart" "thread_ready (ready d) True t'" "ready c \<longrightarrow> ready d" "cl_stopOnce d \<noteq> OnceFree \<longrightarrow> ready d"
        "\<forall>u \<in> set ts. thread_ready (ready d) True u"
        using run_step_ready [OF pc'(1), of "begun c"] old [OF nth_mem [OF i]] pc stopped inv(1) True rd pc'(2)
        by (auto simp: ready_inv_def d)
      have "RunT pc' \<in> set (cl_threads d)" using pc' i by (simp add: d set_update_memI)
      with r(1) have b: "begun d" by (auto simp: begun_def)
      have "thread_ready (ready d) True u" if "u \<in> set ((cl_threads c)[i := t'])" for u
      proof -
        from filter_single_others [of is_run "cl_threads c" i u t'] True i run that
        have "u = t' \<or> u \<in> set (cl_threads c) \<and> \<not> is_run u" by (simp add: single_run_def)
        then show ?thesis using r old thread_ready_mono [of "ready c" "begun c" u True "ready d"] by auto
      qed
      then have "\<forall>u \<in> set (cl_threads d). thread_ready (ready d) (begun d) u"
        using r(5) b by (auto simp: d)
      moreover have "\<exists>t \<in> set (cl_threads d). is_run t" using b by (auto simp: begun_def is_run_iff)
      ultimately show ?thesis using hub r b by (auto simp: ready_inv_def)
    qed
  qed (use sr hub in \<open>simp add: ready_inv_def\<close>)
next
  case (Call k)
  with step have d: "d = c\<lparr>cl_threads := cl_threads c @ [thread_of k]\<rparr>" by (simp add: client_step_def)
  show ?thesis
  proof (cases "single_run d")
    case True
    then have s: "single_run c" by (simp add: single_run_def d)
    have b: "begun c \<Longrightarrow> begun d" by (auto simp: begun_def d)
    have bd: "begun d = begun c" by (cases k) (auto simp: begun_def d)
    have "thread_ready (ready c) (begun c) (thread_of k)"
    proof (cases "is_run (thread_of k)")
      case r: True
      then have "filter is_run (cl_threads c) = []" using True by (simp add: single_run_def d)
      then have "\<not> ready c" using inv(1) s by (auto simp: ready_inv_def filter_empty_conv)
      with r show ?thesis by (cases k) (auto simp: thread_ready_def)
    next
      case False
      then show ?thesis by (cases k) (auto simp: thread_ready_def)
    qed
    with inv(1) s bd show ?thesis by (auto simp: ready_inv_def d ready_def)
  next
    case False
    with inv(1) show ?thesis by (simp add: ready_inv_def d)
  qed
next
  case HubCloses
  with step have "d = c\<lparr>cl_hubDone := True\<rparr>" by (simp add: client_step_def)
  with inv(1) show ?thesis by (simp add: ready_inv_def single_run_def ready_def begun_def)
qed (use step inv(1) in \<open>auto simp: ready_inv_def single_run_def ready_def begun_def elim!: quiet_stepD\<close>)

section \<open>What the wait group counts\<close>

fun dist_live :: "'e thread \<Rightarrow> bool" where
  "dist_live (DistT pc) = (pc \<noteq> DistGone)"
| "dist_live t = False"

definition wg_inv :: "'e client \<Rightarrow> bool" where
  "wg_inv c \<longleftrightarrow>
     wg_count (cl_wg c) = cl_pumps c + length (filter dist_live (cl_threads c))
   \<and> wg_waiters (cl_wg c) + wg_woken (cl_wg c) = (if cl_waiter c = WaitParked then 1 else 0)
   \<and> wg_waiters (cl_wg c) \<le> wg_count (cl_wg c)"

definition wg_kept :: "wait_group \<Rightarrow> wait_group \<Rightarrow> bool" where
  "wg_kept w w' \<longleftrightarrow> wg_waiters w' + wg_woken w' = wg_waiters w + wg_woken w
   \<and> (wg_waiters w \<le> wg_count w \<and> wg_waiters w \<le> 1 \<longrightarrow> wg_waiters w' \<le> wg_count w')"

lemma wg_kept_same [simp]: "wg_kept w w"
  by (simp add: wg_kept_def)

lemma wg_add_kept: "wg_add w = Goes w' \<Longrightarrow> wg_kept w w' \<and> wg_count w' = wg_count w + 1"
  by (auto simp: wg_add_def wg_kept_def split: if_splits)

lemma wg_done_kept: "wg_done w = Goes w' \<Longrightarrow> wg_kept w w' \<and> wg_count w' + 1 = wg_count w"
  by (auto simp: wg_done_def wg_kept_def split: if_splits)

text \<open>A step of a thread changes the counter by what it starts and ends.\<close>

definition live :: "'e thread \<Rightarrow> nat" where
  "live t = (if dist_live t then 1 else 0)"

definition balanced :: "'e thread \<Rightarrow> 'e client \<Rightarrow> 'e thread \<Rightarrow> 'e client \<Rightarrow> 'e thread list \<Rightarrow> bool" where
  "balanced t c t' c' ts \<longleftrightarrow> wg_kept (cl_wg c) (cl_wg c')
   \<and> wg_count (cl_wg c') + cl_pumps c + live t
       = wg_count (cl_wg c) + cl_pumps c' + live t' + length (filter dist_live ts)
   \<and> (cl_waiter c' = cl_waiter c \<or> cl_waiter c' = WaitStart \<and> closing t = Some CloseGo)"

lemma dist_step_balanced:
  assumes "dist_step ch pc c = Goes (pc', c')"
  shows "balanced (DistT pc) c (DistT pc') c' []"
proof (cases pc)
  case DistSelect
  then show ?thesis using assms
    by (cases ch) (auto simp: balanced_def live_def dist_step_def then_go_Goes split: if_splits option.splits)
next
  case (DistEach e ids)
  then show ?thesis using assms by (cases ids) (auto simp: balanced_def live_def dist_step_def split: if_splits)
next
  case DistEnd
  then obtain w where "wg_done (cl_wg c) = Goes w" "c' = c\<lparr>cl_wg := w\<rparr>" "pc' = DistGone"
    using assms by (auto simp: dist_step_def then_go_Goes)
  with DistEnd wg_done_kept [of "cl_wg c" w] show ?thesis by (simp add: balanced_def live_def)
qed (use assms in \<open>auto simp: balanced_def live_def dist_step_def split: if_splits\<close>)

lemma run_step_balanced:
  assumes "run_step ch pc c = Goes (pc', c', ts)"
  shows "balanced (RunT pc) c (RunT pc') c' ts"
proof (cases pc)
  case RunPump
  then show ?thesis using assms wg_add_kept
    by (fastforce simp: balanced_def live_def run_step_def then_go_Goes)
next
  case (RunStop q)
  then show ?thesis using assms close_step_frame [of q c]
    by (cases q) (auto simp: balanced_def live_def run_step_def then_go_Goes)
qed (use assms in \<open>auto simp: balanced_def live_def run_step_def then_go_Goes split: if_splits\<close>)

lemma thread_step_balanced:
  assumes "thread_step ch t c = Goes (t', c', ts)"
  shows "balanced t c t' c' ts"
proof (cases t)
  case (PostT e pc)
  then show ?thesis using assms
    by (cases pc; cases ch) (auto simp: thread_step_def post_step_def balanced_def live_def then_go_Goes split: if_splits)
next
  case (CloseT pc)
  then show ?thesis using assms close_step_frame [of pc c]
    by (auto simp: thread_step_def balanced_def live_def then_go_Goes)
next
  case (RunT pc)
  then show ?thesis using assms by (auto simp: thread_step_def then_go_Goes dest!: run_step_balanced)
next
  case (AddT k pc)
  then show ?thesis using assms wg_add_kept
    by (cases pc) (fastforce simp: thread_step_def add_step_def balanced_def live_def then_go_Goes)+
next
  case (RemoveT k pc)
  then show ?thesis using assms
    by (cases pc) (auto simp: thread_step_def remove_step_def balanced_def live_def then_go_Goes
        split: option.splits prod.splits)
next
  case (DistT pc)
  then show ?thesis using assms by (auto simp: thread_step_def then_go_Goes dest!: dist_step_balanced)
qed

lemma wg_inv_step:
  assumes inv: "wg_inv c" "once_inv c" and step: "client_step m c = Goes d"
  shows "wg_inv d"
proof (cases m)
  case (Step i ch)
  from step [unfolded Step] obtain t' c' ts where i: "i < length (cl_threads c)"
    and t: "thread_step ch (cl_threads c ! i) c = Goes (t', c', ts)"
    and d: "d = c'\<lparr>cl_threads := (cl_threads c)[i := t'] @ ts\<rparr>"
    by (rule client_step_StepD)
  have b: "balanced (cl_threads c ! i) c t' c' ts" using t by (rule thread_step_balanced)
  have "cl_waiter c = WaitOff" if "closing (cl_threads c ! i) = Some CloseGo"
    using inv(2) nth_mem [OF i] that by (auto simp: once_inv_def closed_def)
  then have w: "cl_waiter c' = WaitParked \<longleftrightarrow> cl_waiter c = WaitParked" using b by (auto simp: balanced_def)
  show ?thesis
    using b w inv(1) filter_length_update [OF i, of dist_live t']
    by (auto simp: wg_inv_def d balanced_def live_def wg_kept_def split: if_splits)
next
  case (Call k)
  with step inv(1) show ?thesis by (cases k) (auto simp: client_step_def wg_inv_def)
next
  case HubCloses
  with step inv(1) show ?thesis by (auto simp: client_step_def wg_inv_def)
next
  case WaiterStep
  with step inv(1) show ?thesis
    by (auto simp: client_step_def waiter_step_def wg_inv_def then_go_Goes wg_wait_def wg_wake_def Suc_le_eq
        split: wait_pc.splits if_splits)
next
  case PumpEnds
  with step obtain w where w: "wg_done (cl_wg c) = Goes w" "d = c\<lparr>cl_wg := w, cl_pumps := cl_pumps c - 1\<rparr>" "cl_pumps c \<noteq> 0"
    by (auto simp: client_step_def pump_ends_def then_go_Goes split: if_splits)
  with wg_done_kept [OF w(1)] inv(1) show ?thesis by (auto simp: wg_inv_def wg_kept_def split: if_splits)
qed

definition client_inv :: "'e client \<Rightarrow> bool" where
  "client_inv c \<longleftrightarrow> once_inv c \<and> ready_inv c \<and> wg_inv c"

lemma client_inv_new: "client_inv (hub_client n clientID)"
  by (simp add: client_inv_def once_inv_def ready_inv_def hub_client_def SetHub_def new_client_def closed_def
      make_channel_def ready_def begun_def wg_inv_def new_wait_group_def)

interpretation hub_clients: threads client_step "hub_client n clientID" client_inv
  by unfold_locales (rule client_inv_new, auto simp: client_inv_def intro: once_inv_step ready_inv_step wg_inv_step)

section \<open>Panics\<close>

lemma close_step_safe: "closed_at pc (closed c) \<Longrightarrow> close_step pc c \<noteq> Panics v"
proof -
  assume "closed_at pc (closed c)"
  moreover have ?thesis if "pc = CloseConns ids" for ids
    using that by (cases ids) (auto simp: close_step_def)
  ultimately show ?thesis
    by (cases pc) (auto simp: close_step_def closed_def then_go_simps chan_close_def split: if_splits once.splits)
qed

lemma dist_step_safe:
  assumes "pc \<noteq> DistGone \<longrightarrow> wg_count (cl_wg c) \<noteq> 0"
  shows "dist_step ch pc c \<noteq> Panics v"
proof -
  have ?thesis if "pc = DistEach e ids" for e ids
    using that by (cases ids) (auto simp: dist_step_def)
  then show ?thesis using assms
    by (cases pc; cases ch)
      (auto simp: dist_step_def then_go_simps chan_recv_def wg_done_def split: if_splits list.splits option.splits)
qed

lemma remove_step_safe: "remove_step k pc c \<noteq> Panics v"
  by (cases pc) (auto simp: remove_step_def split: option.splits prod.splits)

lemma wg_add_safe: "wg_inv c \<Longrightarrow> wg_add (cl_wg c) \<noteq> Panics v"
  by (auto simp: wg_add_def wg_inv_def)

lemma add_step_safe: "wg_inv c \<Longrightarrow> add_step k pc c \<noteq> Panics v"
  using wg_add_safe [of c v] by (cases pc) (auto simp: add_step_def then_go_Panics)

lemma run_step_safe:
  assumes "thread_ready (ready c) b (RunT pc)" and "wg_inv c"
    and "\<And>q. pc = RunStop q \<Longrightarrow> closed_at q (closed c)"
  shows "run_step ch pc c \<noteq> Panics v"
proof -
  have "run_step ch (RunStop q) c \<noteq> Panics v" if "pc = RunStop q" for q
    using close_step_safe [OF assms(3) [OF that], of v] by (cases q) (auto simp: run_step_def then_go_Panics)
  then show ?thesis using assms(1,2) wg_add_safe [of c v]
    by (cases pc) (auto simp: run_step_def then_go_Panics chan_close_def thread_ready_def ready_def split: if_splits)
qed

lemma closed_all:
  assumes "once_inv c" and "ch_closed (cl_sendCh c) \<or> cl_waiter c \<noteq> WaitOff"
  shows "cl_isStopped c \<and> ch_closed (cl_doneCh c)"
proof (cases "cl_stopOnce c")
  case OnceBusy
  then have "filter owner (cl_threads c) \<noteq> []" using assms(1) by (auto simp: once_inv_def)
  then obtain u q where u: "u \<in> set (cl_threads c)" "closing u = Some q" "in_section q"
    by (auto simp: filter_empty_conv owner_def split: option.splits)
  then have "closed_at q (closed c)" using assms(1) by (auto simp: once_inv_def)
  with u(3) assms(2) show ?thesis by (cases q) (auto simp: closed_def)
qed (use assms in \<open>auto simp: once_inv_def closed_def\<close>)

lemma client_panic_cases:
  assumes "reaches client_step (hub_client n clientID) c" and "single_run c" and "client_step m c = Panics v"
  shows "cl_isStopped c \<and> ch_closed (cl_doneCh c) \<and>
    ((v = SendOnClosed \<and> (\<exists>i e. m = Step i TakeChannel \<and> cl_threads c ! i = PostT e PostSelect))
     \<or> (v = ReusedWaitGroup \<and> m = WaiterStep \<and> cl_waiter c = WaitParked \<and> wg_count (cl_wg c) \<noteq> 0))"
proof -
  have inv: "once_inv c" "ready_inv c" "wg_inv c"
    using hub_clients.reaches_inv [OF assms(1)] by (simp_all add: client_inv_def)
  show ?thesis
  proof (cases m)
    case (Step i ch)
    then obtain i: "i < length (cl_threads c)" and t: "thread_step ch (cl_threads c ! i) c = Panics v"
      using assms(3) by (auto simp: client_step_def then_go_Panics split: if_splits prod.splits)
    have at: "closed_at pc (closed c)" if "closing (cl_threads c ! i) = Some pc" for pc
      using inv(1) that nth_mem [OF i] by (simp add: once_inv_def)
    have run: "thread_ready (ready c) (begun c) (cl_threads c ! i)"
      using inv(2) assms(2) nth_mem [OF i] by (simp add: ready_inv_def)
    have runs: "run_step ch pc c \<noteq> Panics v" if "cl_threads c ! i = RunT pc" for pc
      using run_step_safe [of c _ pc, OF _ inv(3)] run at that by simp
    have dists: "dist_step ch pc c \<noteq> Panics v" if "cl_threads c ! i = DistT pc" for pc
      using dist_step_safe [of pc c ch v] nth_filter_length [OF i, of dist_live] inv(3) that
      by (auto simp: wg_inv_def)
    obtain e pc where p: "cl_threads c ! i = PostT e pc" "post_step ch e pc c = Panics v"
      using t close_step_safe [OF at] runs dists remove_step_safe add_step_safe [OF inv(3)]
      by (cases "cl_threads c ! i") (auto simp: thread_step_def then_go_Panics)
    then have "pc = PostSelect" "ch = TakeChannel" "chan_send e (cl_sendCh c) = Panics v"
      by (cases pc; cases ch; auto simp: post_step_def then_go_Panics split: if_splits)+
    then have "v = SendOnClosed" "ch_closed (cl_sendCh c)" by (auto simp: chan_send_def split: if_splits)
    with closed_all [OF inv(1)] Step p(1) \<open>pc = PostSelect\<close> \<open>ch = TakeChannel\<close> show ?thesis by simp
  next
    case WaiterStep
    then have "wg_wake (cl_wg c) = Panics v" "cl_waiter c = WaitParked"
      using assms(3) by (auto simp: client_step_def waiter_step_def then_go_Panics split: wait_pc.splits if_splits)
    with WaiterStep closed_all [OF inv(1)] inv(3) show ?thesis by (auto simp: wg_wake_def wg_inv_def split: if_splits)
  next
    case PumpEnds
    with assms(3) inv(3) show ?thesis
      by (auto simp: client_step_def pump_ends_def then_go_Panics wg_done_def wg_inv_def split: if_splits)
  qed (use assms(3) in \<open>auto simp: client_step_def\<close>)
qed


text \<open>Both ways happen: the threads are 0 the run, 1 the late call, 2 \<open>Stop\<close>, 3 the distribution pump.\<close>

definition steps :: "nat \<Rightarrow> nat \<Rightarrow> 'e client_move list" where
  "steps n i = replicate n (Step i TakeChannel)"

definition late_send :: "nat client_move list" where
  "late_send = [Call AskRun, Call (AskSend 7), Call AskStop] @ steps 5 0 @ steps 1 1 @ steps 6 2"

definition late_add :: "nat client_move list" where
  "late_add = [Call AskRun, Call (AskAddConnection ''a''), Call AskStop] @ steps 5 0 @ steps 1 1 @ steps 9 2
     @ [WaiterStep] @ steps 2 3 @ steps 2 1"

lemma late_send_panics: "run client_step (late_send @ [Step 1 TakeChannel]) (hub_client 4 ''c'') = Panics SendOnClosed"
  by code_simp

lemma late_add_panics: "run client_step (late_add @ [WaiterStep]) (hub_client 4 ''c'') = Panics ReusedWaitGroup"
  by code_simp


text \<open>
  Without a panic the late connection is left behind: \<open>Stop\<close> has taken its list of the connections before,
  has ended, and never stops it. A \<open>Stop\<close> before \<open>Run\<close> has set its flag does nothing.
\<close>

lemma late_connection_not_stopped:
  "map_option (\<lambda>c. (map fst (GetConnections c), cl_stopped c, cl_threads c ! 2 = CloseT CloseEnd))
     (goes (run client_step (late_add @ steps 1 2) (hub_client 4 ''c''))) = Some ([''a''], [], True)"
  by code_simp

lemma stop_before_run:
  "\<not> cl_isRunning c \<Longrightarrow> close_step CloseCheck c = Goes (CloseEnd, c)"
  by (simp add: close_step_def)

text \<open>A second \<open>Run\<close> closes \<open>readyToStopCh\<close> again.\<close>

lemma second_run_panics:
  "run client_step ([Call AskRun, Call AskRun] @ steps 5 0 @ steps 5 1) (hub_client 4 ''c'' :: nat client)
    = Panics CloseOfClosed"
  by code_simp

end
