(* ===== verification/Ws_Client_Order.thy ===== *)
theory Ws_Client_Order imports Ws_Client_Safety "HOL-Library.Sublist" begin

text \<open>
  What a client hands to its connections: the channel keeps the order of the calls of \<open>Send\<close>, and the one
  distribution pump hands each event to each connection at most once, in that order.
\<close>

section \<open>The channel\<close>

fun posted :: "'e thread \<Rightarrow> 'e multiset" where
  "posted (PostT e PostEnd) = {#e#}"
| "posted t = {#}"

definition all_posted :: "'e client \<Rightarrow> 'e multiset" where
  "all_posted c = sum_list (map posted (cl_threads c))"

definition queue_ok :: "'e client \<Rightarrow> bool" where
  "queue_ok c \<longleftrightarrow> cl_queued c = cl_taken c @ ch_buf (cl_sendCh c)
     \<and> length (ch_buf (cl_sendCh c)) \<le> ch_cap (cl_sendCh c) \<and> gomap_ok (cl_connections c)"

lemma close_step_cap:
  assumes "close_step pc c = Goes (pc', c')"
  shows "ch_cap (cl_sendCh c') = ch_cap (cl_sendCh c)"
proof -
  have ?thesis if "pc = CloseConns ids" for ids
    using assms that by (cases ids) (auto simp: close_step_def)
  with assms show ?thesis
    by (cases pc) (auto simp: close_step_def then_go_simps chan_close_def split: if_splits once.splits)
qed

lemma run_step_frame:
  assumes "run_step ch pc c = Goes (pc', c', ts)"
  shows "cl_queued c' = cl_queued c \<and> cl_taken c' = cl_taken c \<and> cl_sent c' = cl_sent c
    \<and> ch_buf (cl_sendCh c') = ch_buf (cl_sendCh c) \<and> ch_cap (cl_sendCh c') = ch_cap (cl_sendCh c)
    \<and> cl_connections c' = cl_connections c \<and> filter is_run ts = [] \<and> sum_list (map posted ts) = {#}"
proof (cases pc)
  case (RunStop q)
  then show ?thesis using assms close_step_frame [of q c] close_step_cap [of q c]
    by (cases q) (auto simp: run_step_def then_go_Goes)
qed (use assms in \<open>auto simp: run_step_def then_go_Goes split: if_splits\<close>)

lemma thread_step_queue:
  assumes "thread_step ch t c = Goes (t', c', ts)"
  shows "(queue_ok c \<longrightarrow> queue_ok c') \<and> ch_cap (cl_sendCh c') = ch_cap (cl_sendCh c)
    \<and> mset (cl_queued c') + posted t \<subseteq># mset (cl_queued c) + posted t' \<and> sum_list (map posted ts) = {#}"
proof (cases t)
  case (PostT e pc)
  then show ?thesis using assms
    by (cases pc; cases ch)
      (auto simp: thread_step_def post_step_def then_go_Goes queue_ok_def chan_send_def split: if_splits)
next
  case (CloseT pc)
  then show ?thesis using assms close_step_frame [of pc c] close_step_cap [of pc c]
    by (auto simp: thread_step_def then_go_Goes queue_ok_def)
next
  case (RunT pc)
  then show ?thesis using assms run_step_frame [of ch pc c]
    by (auto simp: thread_step_def then_go_Goes queue_ok_def)
next
  case (AddT k pc)
  then show ?thesis using assms
    by (cases pc) (auto simp: thread_step_def add_step_def then_go_Goes queue_ok_def intro: conns.ok_add)
next
  case (RemoveT k pc)
  then show ?thesis using assms conns.ok_take [of "cl_connections c" k]
    by (cases pc) (auto simp: thread_step_def remove_step_def then_go_Goes queue_ok_def split: option.splits prod.splits)
next
  case (DistT pc)
  have "queue_ok c' \<and> ch_cap (cl_sendCh c') = ch_cap (cl_sendCh c)" if "queue_ok c" "dist_step ch pc c = Goes (pc', c')" for pc'
  proof (cases pc)
    case DistSelect
    then show ?thesis using that
      by (cases ch) (auto simp: dist_step_def then_go_Goes queue_ok_def chan_recv_def split: if_splits list.splits)
  next
    case (DistEach e ids)
    then show ?thesis using that by (cases ids) (auto simp: dist_step_def queue_ok_def)
  qed (use that in \<open>auto simp: dist_step_def then_go_Goes queue_ok_def\<close>)
  moreover have "ch_cap (cl_sendCh c') = ch_cap (cl_sendCh c)" if "dist_step ch pc c = Goes (pc', c')" for pc'
  proof (cases pc)
    case DistSelect
    then show ?thesis using that
      by (cases ch) (auto simp: dist_step_def then_go_Goes chan_recv_def split: if_splits list.splits)
  next
    case (DistEach e ids)
    then show ?thesis using that by (cases ids) (auto simp: dist_step_def)
  qed (use that in \<open>auto simp: dist_step_def then_go_Goes\<close>)
  ultimately show ?thesis using DistT assms dist_step_frame [of ch pc c]
    by (auto simp: thread_step_def then_go_Goes)
qed

section \<open>The distribution pump\<close>

fun is_dist :: "'e thread \<Rightarrow> bool" where
  "is_dist (DistT pc) = True"
| "is_dist t = False"

fun pumped :: "'e thread \<Rightarrow> bool" where
  "pumped (RunT pc) = (pc \<notin> {RunStart, RunHub, RunStopped, RunPump})"
| "pumped t = False"

text \<open>What the pump still owes to a connection of the event in its hand, and the connections it has listed.\<close>

fun owed :: "'e dist_pc \<Rightarrow> string \<Rightarrow> 'e list" where
  "owed (DistCheck e) k = [e]"
| "owed (DistSnapshot e) k = [e]"
| "owed (DistEach e ks) k = (if k \<in> set ks then [e] else [])"
| "owed (DistSend e k' ks) k = (if k = k' \<or> k \<in> set ks then [e] else [])"
| "owed pc k = []"

fun listed :: "'e dist_pc \<Rightarrow> string list" where
  "listed (DistEach e ks) = ks"
| "listed (DistSend e k ks) = k # ks"
| "listed pc = []"

definition sent_to :: "string \<Rightarrow> 'e client \<Rightarrow> 'e list" where
  "sent_to connID c = map snd (filter (\<lambda>p. fst p = connID) (cl_sent c))"

definition dist_ok :: "'e client \<Rightarrow> 'e dist_pc \<Rightarrow> bool" where
  "dist_ok c pc \<longleftrightarrow> distinct (listed pc) \<and> (\<forall>k. subseq (sent_to k c @ owed pc k) (cl_taken c))"

lemma subseq_owed: "subseq (xs @ ys) zs \<Longrightarrow> subseq xs zs"
  by (meson subseq_order.trans list_emb_append2 subseq_order.refl subseq_rev_drop_many)

lemma dist_okD: "dist_ok c pc \<Longrightarrow> subseq (sent_to k c) (cl_taken c)"
  by (auto simp: dist_ok_def intro: subseq_owed)

lemma dist_step_ok:
  assumes "dist_step ch pc c = Goes (pc', c')" and "dist_ok c pc" and "gomap_ok (cl_connections c)"
  shows "dist_ok c' pc'"
proof (cases pc)
  case DistSelect
  then show ?thesis using assms(1,2)
    by (cases ch)
      (auto simp: dist_step_def then_go_Goes dist_ok_def sent_to_def split: if_splits option.splits intro: list_emb_append_mono)
next
  case (DistEach e ks)
  then show ?thesis using assms dist_okD [OF assms(2)]
    by (cases ks) (auto simp: dist_step_def dist_ok_def sent_to_def split: if_splits)
next
  case (DistSnapshot e)
  then show ?thesis using assms dist_okD [OF assms(2)]
    by (auto simp: dist_step_def dist_ok_def sent_to_def GetConnections_def cm_GetAll_def gomap_ok_def)
next
  case (DistSend e k ks)
  then have "sent_to j c' @ owed pc' j = sent_to j c @ owed pc j" for j
    using assms(1,2) by (auto simp: dist_step_def sent_to_def dist_ok_def)
  moreover have "distinct (listed pc')" "cl_taken c' = cl_taken c"
    using DistSend assms(1,2) by (auto simp: dist_step_def dist_ok_def)
  ultimately show ?thesis using assms(2) by (simp add: dist_ok_def)
qed (use assms dist_okD [OF assms(2)] in \<open>auto simp: dist_step_def then_go_Goes dist_ok_def sent_to_def split: if_splits\<close>)

text \<open>The other threads send nothing and take nothing, and only the run starts a pump.\<close>

lemma thread_step_dist:
  assumes "thread_step ch t c = Goes (t', c', ts)"
  shows "is_dist t' = is_dist t
    \<and> length (filter is_dist ts) + (if pumped t then 1 else 0) \<le> (if pumped t' then 1 else 0)
    \<and> filter pumped ts = [] \<and> (\<forall>u \<in> set ts. is_dist u \<longrightarrow> u = DistT DistLoop)
    \<and> (\<not> is_dist t \<longrightarrow> cl_sent c' = cl_sent c \<and> cl_taken c' = cl_taken c)"
proof (cases t)
  case (PostT e pc)
  then show ?thesis using assms
    by (cases pc; cases ch) (auto simp: thread_step_def post_step_def then_go_Goes split: if_splits)
next
  case (CloseT pc)
  then show ?thesis using assms close_step_frame [of pc c] by (auto simp: thread_step_def then_go_Goes)
next
  case (RunT pc)
  have "ts = [] \<or> ts = [DistT DistLoop] \<and> pc = RunPump \<and> t' = RunT RunReady" and "pumped t \<longrightarrow> pumped t'"
    using RunT assms by (cases pc; auto simp: thread_step_def run_step_def then_go_Goes split: if_splits close_pc.splits)+
  with RunT assms run_step_frame [of ch pc c] show ?thesis by (auto simp: thread_step_def then_go_Goes)
next
  case (AddT k pc)
  then show ?thesis using assms by (cases pc) (auto simp: thread_step_def add_step_def then_go_Goes)
next
  case (RemoveT k pc)
  then show ?thesis using assms
    by (cases pc) (auto simp: thread_step_def remove_step_def then_go_Goes split: option.splits prod.splits)
next
  case (DistT pc)
  then show ?thesis using assms by (auto simp: thread_step_def then_go_Goes)
qed

definition order_inv :: "nat \<Rightarrow> 'e client \<Rightarrow> bool" where
  "order_inv cap c \<longleftrightarrow> queue_ok c \<and> ch_cap (cl_sendCh c) = cap \<and> mset (cl_queued c) \<subseteq># all_posted c
   \<and> length (filter is_dist (cl_threads c)) \<le> length (filter pumped (cl_threads c))
   \<and> (single_run c \<longrightarrow> (\<forall>k. subseq (sent_to k c) (cl_taken c)) \<and> (\<forall>pc. DistT pc \<in> set (cl_threads c) \<longrightarrow> dist_ok c pc))"

lemma pumped_le: "length (filter pumped ts) \<le> length (filter is_run ts)"
proof (induction ts)
  case (Cons t ts)
  then show ?case by (cases t) auto
qed simp

lemma order_inv_step:
  assumes inv: "order_inv cap c" and step: "client_step m c = Goes d"
  shows "order_inv cap d"
proof (cases m)
  case (Step i ch)
  from step [unfolded Step] obtain t' c' ts where i: "i < length (cl_threads c)"
    and t: "thread_step ch (cl_threads c ! i) c = Goes (t', c', ts)"
    and d: "d = c'\<lparr>cl_threads := (cl_threads c)[i := t'] @ ts\<rparr>"
    by (rule client_step_StepD)
  let ?old = "cl_threads c ! i"
  note q = thread_step_queue [OF t] and p = thread_step_dist [OF t]
  have "all_posted d + posted ?old = all_posted c + posted t'"
    using sum_list_map_update [OF i, of posted t'] q by (simp add: all_posted_def d ac_simps)
  moreover have "mset (cl_queued c) + posted t' \<subseteq># all_posted c + posted t'"
    using inv by (simp add: order_inv_def)
  ultimately have "mset (cl_queued c') + posted ?old \<subseteq># all_posted d + posted ?old"
    using q subset_mset.order_trans by metis
  then have posted: "mset (cl_queued d) \<subseteq># all_posted d" by (simp add: d)
  have count: "length (filter is_dist (cl_threads d)) \<le> length (filter pumped (cl_threads d))"
    using filter_length_update [OF i, of is_dist t'] filter_length_update [OF i, of pumped t'] p inv
    by (auto simp: order_inv_def d split: if_splits)
  have order: "(\<forall>k. subseq (sent_to k d) (cl_taken d)) \<and> (\<forall>pc. DistT pc \<in> set (cl_threads d) \<longrightarrow> dist_ok d pc)"
    if "single_run d"
  proof -
    have s: "single_run c" using single_run_step [OF i t] d that by simp
    then have one: "length (filter is_dist (cl_threads c)) \<le> 1"
      using inv pumped_le [of "cl_threads c"] by (auto simp: order_inv_def single_run_def)
    have old: "\<forall>k. subseq (sent_to k c) (cl_taken c)" "\<And>pc. DistT pc \<in> set (cl_threads c) \<Longrightarrow> dist_ok c pc"
      using inv s by (auto simp: order_inv_def)
    show ?thesis
    proof (cases "is_dist ?old")
      case True
      then obtain pc where pc: "?old = DistT pc" by (cases ?old) auto
      then obtain pc' where pc': "dist_step ch pc c = Goes (pc', c')" "t' = DistT pc'" "ts = []"
        using t by (auto simp: thread_step_def then_go_Goes)
      have ok: "dist_ok c' pc'"
        using dist_step_ok [OF pc'(1)] old(2) nth_mem [OF i] pc inv by (auto simp: order_inv_def queue_ok_def)
      have "pc'' = pc'" if "DistT pc'' \<in> set ((cl_threads c)[i := t'])" for pc''
        using filter_single_others [of is_dist, OF one i True that] pc'(2) by auto
      with ok pc' dist_okD [OF ok] show ?thesis by (auto simp: d dist_ok_def sent_to_def)
    next
      case False
      have same: "dist_ok d = dist_ok c" "sent_to k d = sent_to k c" "cl_taken d = cl_taken c" for k
        using p False by (auto simp: d dist_ok_def sent_to_def fun_eq_iff)
      have "pc = DistLoop \<or> DistT pc \<in> set (cl_threads c)" if "DistT pc \<in> set (cl_threads d)" for pc
        using that p False set_update_cases [of _ "cl_threads c" i t'] by (fastforce simp: d)
      moreover have "dist_ok c DistLoop" using old(1) by (simp add: dist_ok_def)
      ultimately show ?thesis using old same by metis
    qed
  qed
  show ?thesis using q posted count order inv by (auto simp: order_inv_def d queue_ok_def)
next
  case (Call k)
  with step inv show ?thesis
    by (cases k) (auto simp: client_step_def order_inv_def all_posted_def single_run_def sent_to_def dist_ok_def queue_ok_def)
next
  case HubCloses
  with step inv show ?thesis
    by (auto simp: client_step_def order_inv_def all_posted_def single_run_def sent_to_def dist_ok_def queue_ok_def)
qed (use step inv in \<open>auto simp: order_inv_def all_posted_def single_run_def sent_to_def dist_ok_def queue_ok_def elim!: quiet_stepD\<close>)

lemma order_inv_new: "order_inv cap (hub_client cap clientID)"
  by (simp add: order_inv_def hub_client_def SetHub_def new_client_def queue_ok_def make_channel_def all_posted_def
      newConnectionsMap_def sent_to_def)

interpretation client_order: threads client_step "hub_client cap clientID" "order_inv cap"
  by unfold_locales (rule order_inv_new, rule order_inv_step)

text \<open>
  C13: a client the hub runs once hands each connection events in the order the calls of \<open>Send\<close> queued them, none
  twice: what was queued is what the pump took and then what waits in the channel, each queued event is
  from a call of its own, what was handed to a connection is a subsequence of what was taken, and the channel never
  holds more than its capacity.
\<close>

theorem client_hands_out_in_order:
  assumes "reaches client_step (hub_client cap clientID) c" and "single_run c"
  shows "cl_queued c = cl_taken c @ ch_buf (cl_sendCh c) \<and> mset (cl_queued c) \<subseteq># all_posted c
    \<and> subseq (sent_to connID c) (cl_taken c) \<and> length (ch_buf (cl_sendCh c)) \<le> cap"
  using client_order.reaches_inv [OF assms(1)] assms(2) by (auto simp: order_inv_def queue_ok_def)

lemma client_hands_out_in_order_witness:
  "\<exists>c. run client_step ([Call AskRun, Call (AskAddConnection ''a''), Call (AskSend 7), Call (AskSend 8)] @ steps 5 0
      @ steps 4 1 @ steps 2 2 @ steps 2 3 @ steps 6 4) (hub_client 4 ''c'' :: nat client) = Goes c
    \<and> cl_queued c = [7, 8] \<and> sent_to ''a'' c = [7] \<and> subseq (sent_to ''a'' c) (cl_taken c)"
proof -
  let ?r = "run client_step ([Call AskRun, Call (AskAddConnection ''a''), Call (AskSend 7), Call (AskSend 8)] @ steps 5 0
      @ steps 4 1 @ steps 2 2 @ steps 2 3 @ steps 6 4) (hub_client 4 ''c'' :: nat client)"
  have "map_option (\<lambda>c. (length (filter is_run (cl_threads c)), cl_queued c, sent_to ''a'' c)) (goes ?r)
      = Some (1, [7, 8], [7])"
    by code_simp
  then obtain c where c: "?r = Goes c" "single_run c" "cl_queued c = [7, 8]" "sent_to ''a'' c = [7]"
    by (cases ?r) (auto simp: single_run_def)
  with client_hands_out_in_order [OF run_from_init [OF c(1)] c(2)] show ?thesis by blast
qed

section \<open>Every connection is served\<close>

lemma pump_step:
  assumes "i < length (cl_threads c)" and "cl_threads c ! i = DistT pc" and "dist_step ch pc c = Goes (pc', c')"
  shows "client_step (Step i ch) c = Goes (c'\<lparr>cl_threads := (cl_threads c)[i := DistT pc']\<rparr>)"
  using assms by (simp add: client_step_def thread_step_def)

lemma pump_each:
  assumes "i < length (cl_threads c)" and "cl_threads c ! i = DistT (DistEach e ks)" and "\<not> cl_isStopped c"
  shows "run client_step (replicate (2 * length ks + 1) (Step i ch)) c
    = Goes (c\<lparr>cl_threads := (cl_threads c)[i := DistT DistLoop], cl_sent := cl_sent c @ map (\<lambda>k. (k, e)) ks\<rparr>)"
  using assms
proof (induction ks arbitrary: c)
  case Nil
  then show ?case by (simp add: pump_step dist_step_def)
next
  case (Cons k ks)
  let ?c = "c\<lparr>cl_threads := (cl_threads c)[i := DistT (DistSend e k ks)]\<rparr>"
  let ?d = "?c\<lparr>cl_threads := (cl_threads ?c)[i := DistT (DistEach e ks)], cl_sent := cl_sent c @ [(k, e)]\<rparr>"
  have a: "client_step (Step i ch) c = Goes ?c" using Cons.prems by (simp add: pump_step dist_step_def)
  have b: "client_step (Step i ch) ?c = Goes ?d"
    using Cons.prems pump_step [of i ?c "DistSend e k ks" ch] by (simp add: dist_step_def)
  have "run client_step (replicate (2 * length ks + 1) (Step i ch)) ?d
      = Goes (?d\<lparr>cl_threads := (cl_threads ?d)[i := DistT DistLoop], cl_sent := cl_sent ?d @ map (\<lambda>k. (k, e)) ks\<rparr>)"
    using Cons.prems by (intro Cons.IH) simp_all
  then show ?case using a b by simp
qed

text \<open>
  With an event in its hand, and the client not stopped meanwhile, the pump hands it to every connection the
  client has, each once, in the map's order, changes nothing else and is back at the top of its loop,
  whatever the channels offer. The bound on its steps is two for each connection and three more.
\<close>

theorem pump_serves_all:
  assumes "i < length (cl_threads c)" and "cl_threads c ! i = DistT (DistCheck e)" and "\<not> cl_isStopped c"
  shows "run client_step (replicate (2 * ConnectionCount c + 3) (Step i ch)) c
    = Goes (c\<lparr>cl_threads := (cl_threads c)[i := DistT DistLoop],
              cl_sent := cl_sent c @ map (\<lambda>k. (k, e)) (map fst (GetConnections c))\<rparr>)"
proof -
  let ?ks = "map fst (GetConnections c)"
  let ?c = "c\<lparr>cl_threads := (cl_threads c)[i := DistT (DistSnapshot e)]\<rparr>"
  let ?d = "c\<lparr>cl_threads := (cl_threads c)[i := DistT (DistEach e ?ks)]\<rparr>"
  have n: "2 * ConnectionCount c + 3 = Suc (Suc (2 * length ?ks + 1))"
    by (simp add: ConnectionCount_def GetConnections_def cm_Count_def cm_GetAll_def)
  have a: "client_step (Step i ch) c = Goes ?c" using assms by (simp add: pump_step dist_step_def)
  have b: "client_step (Step i ch) ?c = Goes ?d"
    using assms pump_step [of i ?c "DistSnapshot e" ch] by (simp add: dist_step_def GetConnections_def)
  have "run client_step (replicate (2 * length ?ks + 1) (Step i ch)) ?d
      = Goes (?d\<lparr>cl_threads := (cl_threads ?d)[i := DistT DistLoop], cl_sent := cl_sent ?d @ map (\<lambda>k. (k, e)) ?ks\<rparr>)"
    using assms by (intro pump_each) simp_all
  then show ?thesis using a b unfolding n by simp
qed

lemma pump_serves_all_witness:
  "\<exists>c. run client_step ([Call AskRun, Call (AskAddConnection ''a''), Call (AskAddConnection ''b''), Call (AskSend 7)]
      @ steps 5 0 @ steps 4 1 @ steps 4 2 @ steps 2 3 @ steps 2 4) (hub_client 4 ''c'' :: nat client) = Goes c
    \<and> map fst (GetConnections c) = [''a'', ''b'']
    \<and> run client_step (replicate (2 * ConnectionCount c + 3) (Step 4 TakeHub)) c
      = Goes (c\<lparr>cl_threads := (cl_threads c)[4 := DistT DistLoop],
                cl_sent := cl_sent c @ map (\<lambda>k. (k, 7)) (map fst (GetConnections c))\<rparr>)"
proof -
  let ?r = "run client_step ([Call AskRun, Call (AskAddConnection ''a''), Call (AskAddConnection ''b''), Call (AskSend 7)]
      @ steps 5 0 @ steps 4 1 @ steps 4 2 @ steps 2 3 @ steps 2 4) (hub_client 4 ''c'' :: nat client)"
  have "map_option (\<lambda>c. (length (cl_threads c), cl_threads c ! 4 = DistT (DistCheck 7), cl_isStopped c,
      map fst (GetConnections c))) (goes ?r) = Some (5, True, False, [''a'', ''b''])"
    by code_simp
  from goes_mapD [OF this] obtain c where c: "?r = Goes c" and e:
      "(length (cl_threads c), cl_threads c ! 4 = DistT (DistCheck 7), cl_isStopped c, map fst (GetConnections c))
        = (5, True, False, [''a'', ''b''])"
    by (elim exE conjE) (rule that)
  from e have h: "4 < length (cl_threads c)" "cl_threads c ! 4 = DistT (DistCheck 7)" "\<not> cl_isStopped c"
    and k: "map fst (GetConnections c) = [''a'', ''b'']"
    by simp_all
  show ?thesis by (rule exI [of _ c], intro conjI, rule c, rule k, rule pump_serves_all [OF h])
qed

end
