(* ===== verification/Ws_Client_Stop.thy ===== *)
theory Ws_Client_Stop imports Ws_Client_Safety begin

text \<open>
  Stopping a client ends: the calls of \<open>Stop\<close> and the run wait for one another (for \<open>readyToStopCh\<close> and
  inside \<open>stopOnce\<close>), but never for ever.
\<close>

fun closer :: "'e thread \<Rightarrow> bool" where
  "closer (CloseT pc) = True"
| "closer (RunT pc) = True"
| "closer t = False"

definition closers :: "'e client \<Rightarrow> nat set" where
  "closers c = {i. i < length (cl_threads c) \<and> closer (cl_threads c ! i)}"

definition own_move :: "nat set \<Rightarrow> 'e client_move \<Rightarrow> bool" where
  "own_move I m = (case m of Step i ch \<Rightarrow> i \<in> I | _ \<Rightarrow> False)"

definition stopping :: "nat set \<Rightarrow> 'e client \<Rightarrow> bool" where
  "stopping I c \<longleftrightarrow> single_run c \<and> closers c = I"

definition stops_over :: "'e client \<Rightarrow> bool" where
  "stops_over c \<longleftrightarrow> (\<forall>t \<in> set (cl_threads c). \<forall>pc. closing t = Some pc \<longrightarrow> pc = CloseEnd)"

text \<open>How many steps a thread can still make, with \<open>n\<close> connections to stop.\<close>

fun close_work :: "nat \<Rightarrow> close_pc \<Rightarrow> nat" where
  "close_work n CloseEnd = 0"
| "close_work n CloseWait = 1"
| "close_work n CloseGo = 2"
| "close_work n (CloseConns ids) = length ids + 3"
| "close_work n CloseSnapshot = n + 4"
| "close_work n CloseSendCh = n + 5"
| "close_work n CloseSignal = n + 6"
| "close_work n CloseFlag = n + 7"
| "close_work n CloseOnce = n + 8"
| "close_work n CloseReady = n + 9"
| "close_work n CloseCheck = n + 10"

fun run_work :: "nat \<Rightarrow> run_pc \<Rightarrow> nat" where
  "run_work n RunEnd = 0"
| "run_work n RunExit = 1"
| "run_work n (RunStop pc) = 2 + close_work n pc"
| "run_work n RunWait = n + 13"
| "run_work n RunReady = n + 14"
| "run_work n RunPump = n + 15"
| "run_work n RunStopped = n + 16"
| "run_work n RunHub = n + 17"
| "run_work n RunStart = n + 18"

fun thread_work :: "nat \<Rightarrow> 'e thread \<Rightarrow> nat" where
  "thread_work n (CloseT pc) = close_work n pc"
| "thread_work n (RunT pc) = run_work n pc"
| "thread_work n t = 0"

definition stopping_work :: "'e client \<Rightarrow> nat" where
  "stopping_work c = sum_list (map (thread_work (ConnectionCount c)) (cl_threads c))"

lemma close_step_work:
  assumes "close_step pc c = Goes (pc', c')"
  shows "close_work (ConnectionCount c) pc' < close_work (ConnectionCount c) pc"
proof -
  have ?thesis if "pc = CloseConns ids" for ids
    using that assms by (cases ids) (auto simp: close_step_def)
  then show ?thesis using assms
    by (cases pc)
      (auto simp: close_step_def then_go_Goes ConnectionCount_def GetConnections_def cm_Count_def cm_GetAll_def
        split: if_splits once.splits)
qed

lemma closer_step_work:
  assumes "thread_step ch t c = Goes (t', c', ts)" and "closer t"
  shows "thread_work (ConnectionCount c) t' < thread_work (ConnectionCount c) t \<and> cl_connections c' = cl_connections c
    \<and> closer t' \<and> filter closer ts = []"
proof (cases t)
  case (CloseT pc)
  then show ?thesis using assms close_step_frame [of pc c] close_step_work [of pc c]
    by (auto simp: thread_step_def then_go_Goes)
next
  case (RunT pc)
  have ?thesis if "pc = RunStop q" for q
  proof (cases "q = CloseEnd")
    case True
    with that RunT assms(1) show ?thesis by (auto simp: thread_step_def run_step_def)
  next
    case False
    with that RunT assms(1) have "thread_step ch (RunT (RunStop q)) c = Goes (t', c', ts)" by simp
    with False obtain q' where "close_step q c = Goes (q', c')" "t' = RunT (RunStop q')" "ts = []"
      by (cases q) (auto simp: thread_step_def run_step_def then_go_Goes)
    with close_step_frame [of q c] close_step_work [of q c] that RunT show ?thesis by auto
  qed
  with RunT assms(1) show ?thesis
    by (cases pc) (auto simp: thread_step_def run_step_def then_go_Goes split: if_splits)
qed (use assms in simp_all)

lemma closers_step:
  assumes "i < length (cl_threads c)" and "closer t' = closer (cl_threads c ! i)" and "filter closer ts = []"
  shows "closers (c'\<lparr>cl_threads := (cl_threads c)[i := t'] @ ts\<rparr>) = closers c"
proof -
  have "closer (((cl_threads c)[i := t'] @ ts) ! j) \<longleftrightarrow> j < length (cl_threads c) \<and> closer (cl_threads c ! j)"
    if "j < length (cl_threads c) + length ts" for j
    using that assms by (cases "j = i") (auto simp: nth_append filter_empty_conv)
  then show ?thesis using assms(1) by (auto simp: closers_def)
qed

lemma stopping_own_step:
  assumes s: "stopping I c" and own: "own_move I m" and step: "client_step m c = Goes d"
  shows "stopping I d \<and> stopping_work d < stopping_work c"
proof -
  obtain i ch where m: "m = Step i ch" and I: "i \<in> I" using own by (cases m) (auto simp: own_move_def)
  from step [unfolded m] obtain t' c' ts where i: "i < length (cl_threads c)"
    and t: "thread_step ch (cl_threads c ! i) c = Goes (t', c', ts)"
    and d: "d = c'\<lparr>cl_threads := (cl_threads c)[i := t'] @ ts\<rparr>"
    by (rule client_step_StepD)
  have cl: "closer (cl_threads c ! i)" using s I by (auto simp: stopping_def closers_def)
  note w = closer_step_work [OF t cl]
  have n: "ConnectionCount d = ConnectionCount c" using w by (simp add: ConnectionCount_def d)
  have idle: "filter closer us = [] \<Longrightarrow> sum_list (map (thread_work k) us) = 0" for k and us :: "'a thread list"
  proof (induction us)
    case (Cons u us)
    then show ?case by (cases u) auto
  qed simp
  then have "stopping_work d < stopping_work c"
    using sum_list_map_update [OF i, of "thread_work (ConnectionCount c)" t'] w idle [of ts "ConnectionCount c"]
    unfolding stopping_work_def n by (simp add: d del: sum_list_eq_0_iff)
  moreover have "closers d = closers c" using closers_step [OF i] w cl d by simp
  ultimately show ?thesis using s single_run_step [OF i t] d by (simp add: stopping_def)
qed

text \<open>Someone can go on.\<close>

lemma close_step_goes:
  assumes "closed_at pc (closed c)" and "pc \<noteq> CloseEnd" and "pc = CloseReady \<longrightarrow> ready c"
    and "pc = CloseOnce \<longrightarrow> cl_stopOnce c \<noteq> OnceBusy"
  shows "\<exists>pc' c'. close_step pc c = Goes (pc', c')"
proof -
  have ?thesis if "pc = CloseConns ids" for ids
    using that by (cases ids) (auto simp: close_step_def)
  with assms show ?thesis
    by (cases pc) (auto simp: close_step_def closed_def chan_close_def ready_def split: once.splits)
qed

lemma closing_thread_goes:
  assumes "closing t = Some pc" and "pc \<noteq> CloseEnd" and "close_step pc c = Goes (pc', c')"
  shows "\<exists>x. thread_step ch t c = Goes x"
proof (cases t)
  case (RunT q)
  then show ?thesis using assms by (cases q; cases pc) (auto simp: thread_step_def run_step_def)
qed (use assms in \<open>auto simp: thread_step_def\<close>)

lemma run_thread_goes:
  assumes "client_inv c" and "pc \<in> {RunHub, RunStopped, RunPump, RunReady}" and "\<not> ready c"
  shows "\<exists>x. thread_step ch (RunT pc) c = Goes x"
proof -
  have "wg_add (cl_wg c) = Goes ((cl_wg c)\<lparr>wg_count := wg_count (cl_wg c) + 1\<rparr>)"
    using assms(1) by (auto simp: client_inv_def wg_inv_def wg_add_def)
  with assms(2,3) show ?thesis by (auto simp: thread_step_def run_step_def chan_close_def ready_def)
qed

lemma someone_goes:
  assumes inv: "client_inv c" and s: "single_run c" and not_over: "\<not> stops_over c"
  shows "\<exists>t \<in> set (cl_threads c). closer t \<and> (\<exists>x. thread_step TakeDefault t c = Goes x)"
proof -
  have at: "closed_at pc (closed c)" if "t \<in> set (cl_threads c)" "closing t = Some pc" for t pc
    using inv that by (auto simp: client_inv_def once_inv_def)
  have tr: "thread_ready (ready c) (begun c) t" if "t \<in> set (cl_threads c)" for t
    using inv s that by (auto simp: client_inv_def ready_inv_def)
  have closer: "closer t" if "closing t = Some pc" for t :: "'a thread" and pc
    using that by (cases t) auto
  have go: ?thesis if "t \<in> set (cl_threads c)" "closing t = Some pc" "pc \<noteq> CloseEnd" "pc = CloseReady \<longrightarrow> ready c"
    "pc = CloseOnce \<longrightarrow> cl_stopOnce c \<noteq> OnceBusy" for t pc
    using close_step_goes [OF at [OF that(1,2)] that(3-5)] closing_thread_goes [OF that(2,3)] closer that(1,2) by blast
  obtain t pc where t: "t \<in> set (cl_threads c)" "closing t = Some pc" "pc \<noteq> CloseEnd"
    using not_over by (auto simp: stops_over_def)
  consider "pc = CloseReady" "\<not> ready c" | "pc = CloseOnce" "cl_stopOnce c = OnceBusy"
    | "pc = CloseReady \<longrightarrow> ready c" "pc = CloseOnce \<longrightarrow> cl_stopOnce c \<noteq> OnceBusy" by blast
  then show ?thesis
  proof cases
    case 1
    then have "begun c" using tr [OF t(1)] t(2) by (simp add: thread_ready_def)
    then obtain q where q: "RunT q \<in> set (cl_threads c)" "q \<noteq> RunStart" by (auto simp: begun_def)
    with tr [OF q(1)] 1 have "q \<in> {RunHub, RunStopped, RunPump, RunReady}"
      by (cases q) (auto simp: thread_ready_def)
    from run_thread_goes [OF inv this 1(2)] q show ?thesis by (meson closer.simps(2))
  next
    case 2
    then have "filter owner (cl_threads c) \<noteq> []" using inv by (auto simp: client_inv_def once_inv_def)
    then obtain u q where u: "u \<in> set (cl_threads c)" "closing u = Some q" "in_section q"
      by (auto simp: filter_empty_conv owner_def split: option.splits)
    then show ?thesis by (intro go [OF u(1,2)]) auto
  qed (use go t in blast)
qed

lemma stopping_enabled:
  assumes "client_inv c" and "stopping I c" and "\<not> stops_over c"
  shows "\<exists>m d. own_move I m \<and> client_step m c = Goes d"
proof -
  obtain t x where t: "t \<in> set (cl_threads c)" "closer t" "thread_step TakeDefault t c = Goes x"
    using someone_goes [OF assms(1) _ assms(3)] assms(2) unfolding stopping_def by blast
  then obtain i where i: "i < length (cl_threads c)" "cl_threads c ! i = t" by (auto simp: in_set_conv_nth)
  then have "own_move I (Step i TakeDefault)" using assms(2) t(2) by (auto simp: own_move_def stopping_def closers_def)
  moreover have "\<exists>d. client_step (Step i TakeDefault) c = Goes d"
    using i t(3) by (cases x) (auto simp: client_step_def)
  ultimately show ?thesis by blast
qed

interpretation client_stop: finishing client_step "hub_client n clientID" client_inv
    "own_move I" "stopping I" stops_over stopping_work
  by unfold_locales (use stopping_enabled stopping_own_step in blast)+

text \<open>A \<open>Stop\<close> that got past its check is not forgotten.\<close>

definition committed :: "'e client \<Rightarrow> bool" where
  "committed c \<longleftrightarrow> cl_stopOnce c \<noteq> OnceFree
     \<or> (\<exists>t \<in> set (cl_threads c). \<exists>pc. closing t = Some pc \<and> pc \<noteq> CloseCheck \<and> pc \<noteq> CloseEnd)"

lemma close_step_committed:
  assumes "close_step pc c = Goes (pc', c')"
  shows "(cl_stopOnce c \<noteq> OnceFree \<longrightarrow> cl_stopOnce c' \<noteq> OnceFree)
    \<and> (pc \<noteq> CloseCheck \<and> pc \<noteq> CloseEnd \<longrightarrow> cl_stopOnce c' \<noteq> OnceFree \<or> pc' \<noteq> CloseCheck \<and> pc' \<noteq> CloseEnd)"
proof -
  have ?thesis if "pc = CloseConns ids" for ids
    using that assms by (cases ids) (auto simp: close_step_def)
  with assms show ?thesis
    by (cases pc) (auto simp: close_step_def then_go_Goes split: if_splits once.splits)
qed

lemma committed_step:
  assumes "committed c" and "client_step m c = Goes d"
  shows "committed d"
proof (cases m)
  case (Step i ch)
  from assms(2) [unfolded Step] obtain t' c' ts where i: "i < length (cl_threads c)"
    and t: "thread_step ch (cl_threads c ! i) c = Goes (t', c', ts)"
    and d: "d = c'\<lparr>cl_threads := (cl_threads c)[i := t'] @ ts\<rparr>"
    by (rule client_step_StepD)
  have mem: "t' \<in> set (cl_threads d)" using i by (simp add: d set_update_memI)
  have kept: "u \<in> set (cl_threads d) \<or> u = cl_threads c ! i" if "u \<in> set (cl_threads c)" for u
    using nth_update_or_old [OF i that, of t'] by (auto simp: d)
  show ?thesis
  proof (cases "closing (cl_threads c ! i)")
    case None
    then have "cl_stopOnce d = cl_stopOnce c" using other_step_closed [OF t None] by (simp add: d)
    with kept assms(1) None show ?thesis by (fastforce simp: committed_def)
  next
    case (Some pc)
    from closing_stepD [OF t Some] show ?thesis
    proof (elim disjE exE conjE)
      fix pc' assume p: "close_step pc c = Goes (pc', c')" "closing t' = Some pc'" "ts = []"
      have "cl_stopOnce d = cl_stopOnce c'" by (simp add: d)
      with close_step_committed [OF p(1)] kept mem p(2) assms(1) Some show ?thesis
        by (fastforce simp: committed_def)
    next
      assume p: "pc = CloseEnd" "c' = c"
      then have "cl_stopOnce d = cl_stopOnce c" by (simp add: d)
      with kept assms(1) Some p show ?thesis by (fastforce simp: committed_def)
    qed
  qed
next
  case (Call k)
  with assms show ?thesis by (auto simp: client_step_def committed_def)
next
  case HubCloses
  with assms show ?thesis by (auto simp: client_step_def committed_def)
qed (use assms in \<open>auto simp: committed_def elim!: quiet_stepD\<close>)

lemma committed_run: "committed c \<Longrightarrow> run client_step ms c = Goes d \<Longrightarrow> committed d"
proof (induction ms arbitrary: c)
  case (Cons m ms)
  then show ?case by (auto simp: then_go_Goes intro: committed_step)
qed simp



end
