(* ===== verification/Ws_Event.thy ===== *)
theory Ws_Event imports Go_Json "HOL-Library.Word" "HOL-Library.Char_ord" "HOL-Library.List_Lexorder" begin

text \<open>
  WebSocket events and their metadata (\<open>dabluvee-es/event.go\<close>, \<open>event_metadata_map.go\<close>). An event holds
  a pointer to its metadata, so the metadata maps live in a store of addresses and a copy of an event
  shares them. Timestamps are 64-bit integers. The wire form of an event is a JSON tree; a UUID is its
  text, and \<open>uuid_of_json\<close> is the decoder of the \<open>uuid\<close> package. A metadata value is the tree it is
  encoded as.
\<close>

section \<open>Metadata maps\<close>

text \<open>One map: \<open>None\<close> is the nil Go map, which can be read but not written.\<close>

type_synonym metadata = "(string, json) gomap option"

type_synonym metadata_store = "metadata list"

definition newEventMetadataMap :: "metadata_store \<Rightarrow> nat \<times> metadata_store" where
  "newEventMetadataMap st = (length st, st @ [Some []])"

text \<open>\<open>None\<close> is the panic of an assignment to a nil map.\<close>

definition emm_Set :: "nat \<Rightarrow> string \<Rightarrow> json \<Rightarrow> metadata_store \<Rightarrow> metadata_store option" where
  "emm_Set a key val st = map_option (\<lambda>m. st[a := Some (map_set m key val)]) (st ! a)"

definition emm_data :: "nat \<Rightarrow> metadata_store \<Rightarrow> (string, json) gomap" where
  "emm_data a st = (case st ! a of Some m \<Rightarrow> m | None \<Rightarrow> [])"

definition emm_Get :: "nat \<Rightarrow> string \<Rightarrow> metadata_store \<Rightarrow> json option" where
  "emm_Get a key st = map_get (emm_data a st) key"

definition emm_GetAll :: "nat \<Rightarrow> metadata_store \<Rightarrow> (string, json) gomap" where
  "emm_GetAll a st = emm_data a st"

definition emm_Copy :: "nat \<Rightarrow> metadata_store \<Rightarrow> nat \<times> metadata_store" where
  "emm_Copy a st = (length st, st @ [Some (emm_data a st)])"

definition emm_MarshalJSON :: "metadata \<Rightarrow> json" where
  "emm_MarshalJSON m =
     (case m of None \<Rightarrow> JNull | Some kvs \<Rightarrow> JObj (map (\<lambda>(k, v). (to_valid_utf8 k, v)) (sort_key fst kvs)))"

text \<open>Decoding into a map adds to what is there; the text \<open>null\<close> makes the map nil.\<close>

definition emm_UnmarshalJSON :: "json \<Rightarrow> metadata \<Rightarrow> metadata option" where
  "emm_UnmarshalJSON j m =
     (case j of
        JNull \<Rightarrow> Some None
      | JObj kvs \<Rightarrow> Some (Some (foldl (\<lambda>h (k, v). map_set h k v) (case m of Some d \<Rightarrow> d | None \<Rightarrow> []) kvs))
      | _ \<Rightarrow> None)"

section \<open>Events\<close>

definition EventTypeSystemLog :: string where
  "EventTypeSystemLog = ''system.log''"

definition EventTypeShellExec :: string where
  "EventTypeShellExec = ''shell.exec''"

definition EventTypeEchoRequest :: string where
  "EventTypeEchoRequest = ''echo.request''"

definition EventTypeEchoReply :: string where
  "EventTypeEchoReply = ''echo.reply''"

definition EventTypeError :: string where
  "EventTypeError = ''error''"

record event =
  ev_ID :: string
  ev_Type :: string
  ev_Data :: "json option"
  ev_Timestamp :: "64 word"
  ev_Metadata :: "nat option"
  ev_TriggeredBy :: "string option"

text \<open>The data of a new event: nil, a value the encoder refuses, or a value with its tree.\<close>

datatype event_data = NilData | Unencodable | Encodable json

definition NewEvent :: "string \<Rightarrow> 64 word \<Rightarrow> string \<Rightarrow> event_data \<Rightarrow> metadata_store \<Rightarrow> event \<times> metadata_store" where
  "NewEvent uuid now eventType data st =
     (let rawData = (case data of Encodable j \<Rightarrow> Some j | _ \<Rightarrow> None); (a, st') = newEventMetadataMap st
      in (\<lparr>ev_ID = uuid, ev_Type = eventType, ev_Data = rawData, ev_Timestamp = now,
           ev_Metadata = Some a, ev_TriggeredBy = None\<rparr>, st'))"

definition SetMetadata :: "string \<Rightarrow> json \<Rightarrow> event \<times> metadata_store \<Rightarrow> (event \<times> metadata_store) option" where
  "SetMetadata key val est =
     (let (e, st) = est;
          (a, st1) = (case ev_Metadata e of Some a \<Rightarrow> (a, st) | None \<Rightarrow> newEventMetadataMap st)
      in map_option (\<lambda>st2. (e\<lparr>ev_Metadata := Some a\<rparr>, st2)) (emm_Set a key val st1))"

definition SetTimestamp :: "64 word \<Rightarrow> event \<Rightarrow> event" where
  "SetTimestamp unixTimestamp e = e\<lparr>ev_Timestamp := unixTimestamp\<rparr>"

definition SetTriggeredBy :: "string \<Rightarrow> event \<Rightarrow> event" where
  "SetTriggeredBy triggerEventID e = e\<lparr>ev_TriggeredBy := Some triggerEventID\<rparr>"

definition GetTime :: "event \<Rightarrow> int" where
  "GetTime e = sint (ev_Timestamp e)"

definition IsRecent :: "64 word \<Rightarrow> 64 word \<Rightarrow> event \<Rightarrow> bool" where
  "IsRecent now seconds e \<longleftrightarrow> sint (now - ev_Timestamp e) \<le> sint seconds"

section \<open>The wire form\<close>

definition optional_string :: "string option \<Rightarrow> json" where
  "optional_string s = (case s of None \<Rightarrow> JNull | Some t \<Rightarrow> JStr t)"

definition event_json :: "metadata_store \<Rightarrow> event \<Rightarrow> json" where
  "event_json st e = JObj
     [(''id'', JStr (ev_ID e)), (''type'', json_string (ev_Type e)),
      (''data'', case ev_Data e of None \<Rightarrow> JNull | Some j \<Rightarrow> j),
      (''timestamp'', JNum (sint (ev_Timestamp e))),
      (''metadata'', case ev_Metadata e of None \<Rightarrow> JNull | Some a \<Rightarrow> emm_MarshalJSON (st ! a)),
      (''triggeredBy'', optional_string (ev_TriggeredBy e))]"

definition nil_uuid :: string where
  "nil_uuid = ''00000000-0000-0000-0000-000000000000''"

definition zero_event :: event where
  "zero_event = \<lparr>ev_ID = nil_uuid, ev_Type = [], ev_Data = None, ev_Timestamp = 0, ev_Metadata = None, ev_TriggeredBy = None\<rparr>"

text \<open>
  The decoder sets one field after the other, in the order of the text; names are compared without
  regard to case, unknown names are skipped, a value of the wrong kind is an error.
\<close>

definition decode_field ::
    "(json \<Rightarrow> string option) \<Rightarrow> string \<times> json \<Rightarrow> event \<times> metadata_store \<Rightarrow> (event \<times> metadata_store) option" where
  "decode_field uuid_of_json kv est =
     (let (k, j) = kv; (e, st) = est in
      if equal_fold k ''id'' then map_option (\<lambda>u. (e\<lparr>ev_ID := u\<rparr>, st)) (uuid_of_json j)
      else if equal_fold k ''type'' then
        (case j of JStr s \<Rightarrow> Some (e\<lparr>ev_Type := s\<rparr>, st) | JNull \<Rightarrow> Some est | _ \<Rightarrow> None)
      else if equal_fold k ''data'' then Some (e\<lparr>ev_Data := Some j\<rparr>, st)
      else if equal_fold k ''timestamp'' then
        (case j of
           JNum n \<Rightarrow> if - (2 ^ 63) \<le> n \<and> n < 2 ^ 63 then Some (e\<lparr>ev_Timestamp := word_of_int n\<rparr>, st) else None
         | JNull \<Rightarrow> Some est | _ \<Rightarrow> None)
      else if equal_fold k ''metadata'' then
        (case j of
           JNull \<Rightarrow> Some (e\<lparr>ev_Metadata := None\<rparr>, st)
         | _ \<Rightarrow>
             let (a, st1) = (case ev_Metadata e of Some a \<Rightarrow> (a, st) | None \<Rightarrow> (length st, st @ [None]))
             in map_option (\<lambda>m. (e\<lparr>ev_Metadata := Some a\<rparr>, st1[a := m])) (emm_UnmarshalJSON j (st1 ! a)))
      else if equal_fold k ''triggeredBy'' then
        (case j of
           JNull \<Rightarrow> Some (e\<lparr>ev_TriggeredBy := None\<rparr>, st)
         | _ \<Rightarrow> map_option (\<lambda>u. (e\<lparr>ev_TriggeredBy := Some u\<rparr>, st)) (uuid_of_json j))
      else Some est)"

primrec decode_fields ::
    "(json \<Rightarrow> string option) \<Rightarrow> (string \<times> json) list \<Rightarrow> event \<times> metadata_store \<Rightarrow> (event \<times> metadata_store) option" where
  "decode_fields uuid_of_json [] est = Some est"
| "decode_fields uuid_of_json (kv # kvs) est =
     (case decode_field uuid_of_json kv est of None \<Rightarrow> None | Some est' \<Rightarrow> decode_fields uuid_of_json kvs est')"

definition event_of_json :: "(json \<Rightarrow> string option) \<Rightarrow> json \<Rightarrow> metadata_store \<Rightarrow> (event \<times> metadata_store) option" where
  "event_of_json uuid_of_json j st =
     (case j of
        JObj kvs \<Rightarrow> decode_fields uuid_of_json kvs (zero_event, st)
      | JNull \<Rightarrow> Some (zero_event, st)
      | _ \<Rightarrow> None)"

section \<open>Metadata maps keep what is set\<close>

lemma emm_Set_Get:
  assumes "emm_Set a key val st = Some st'" and "a < length st"
  shows "emm_Get a k st' = (if k = key then Some val else emm_Get a k st)"
    and "b \<noteq> a \<Longrightarrow> emm_Get b k st' = emm_Get b k st"
  using assms by (auto simp: emm_Set_def emm_Get_def emm_data_def)

lemma emm_Copy_separate:
  assumes "a < length st" and "emm_Copy a st = (b, st1)" and "emm_Set b key val st1 = Some st2"
  shows "emm_Get a k st2 = emm_Get a k st \<and> emm_Get b k st1 = emm_Get a k st"
  using assms by (auto simp: emm_Copy_def emm_Set_def emm_Get_def emm_data_def nth_append)

text \<open>
  \<open>SetMetadata\<close> works on a copy of the event and returns it, but the copy points to the same metadata:
  the event it is called on sees the new entry too.
\<close>

lemma set_metadata_shares:
  assumes "ev_Metadata e = Some a" and "a < length st" and "SetMetadata key val (e, st) = Some (e', st')"
  shows "e' = e \<and> emm_Get a key st' = Some val"
proof -
  have "e' = e\<lparr>ev_Metadata := Some a\<rparr>" "emm_Set a key val st = Some st'"
    using assms by (auto simp: SetMetadata_def)
  then show ?thesis using assms(1,2) by (simp add: emm_Set_Get(1))
qed

text \<open>The text \<open>null\<close> makes a metadata map nil, and the next write to it panics.\<close>

lemma unmarshal_null_then_set_panics:
  "emm_UnmarshalJSON JNull (Some []) = Some None \<and> emm_Set 0 ''k'' JNull [None] = None"
  by code_simp

section \<open>Properties\<close>

lemma field_names_distinct:
  "\<not> equal_fold ''type'' ''id''"
  "\<not> equal_fold ''data'' ''id''"
  "\<not> equal_fold ''data'' ''type''"
  "\<not> equal_fold ''timestamp'' ''id''"
  "\<not> equal_fold ''timestamp'' ''type''"
  "\<not> equal_fold ''timestamp'' ''data''"
  "\<not> equal_fold ''metadata'' ''id''"
  "\<not> equal_fold ''metadata'' ''type''"
  "\<not> equal_fold ''metadata'' ''data''"
  "\<not> equal_fold ''metadata'' ''timestamp''"
  "\<not> equal_fold ''triggeredBy'' ''id''"
  "\<not> equal_fold ''triggeredBy'' ''type''"
  "\<not> equal_fold ''triggeredBy'' ''data''"
  "\<not> equal_fold ''triggeredBy'' ''timestamp''"
  "\<not> equal_fold ''triggeredBy'' ''metadata''"
  by code_simp+


definition example_event :: event where
  "example_event = \<lparr>ev_ID = ''u1'', ev_Type = EventTypeEchoReply, ev_Data = Some (JNum 5), ev_Timestamp = 1700000000,
     ev_Metadata = Some 0, ev_TriggeredBy = Some ''u0''\<rparr>"


text \<open>
  \<open>IsRecent\<close> compares the age of the event as long as the age fits into 64 bits, in particular for
  timestamps that are not negative; an age that does not fit wraps around.
\<close>

theorem is_recent_exact:
  assumes "- (2 ^ 63) \<le> sint now - sint (ev_Timestamp e)" and "sint now - sint (ev_Timestamp e) < 2 ^ 63"
  shows "IsRecent now seconds e \<longleftrightarrow> sint now - GetTime e \<le> sint seconds"
proof -
  have "sint (now - ev_Timestamp e) = sint now - sint (ev_Timestamp e)"
    using assms by (simp add: sint_word_ariths(2) signed_take_bit_int_eq_self)
  then show ?thesis by (simp add: IsRecent_def GetTime_def)
qed

lemma is_recent_exact_witness:
  "IsRecent 1700000030 60 example_event \<and> \<not> IsRecent 1700000090 60 example_event"
  using is_recent_exact [of 1700000030 example_event 60] is_recent_exact [of 1700000090 example_event 60]
  by (simp add: example_event_def GetTime_def)

text \<open>The oldest timestamp there is, which a client may send, counts as recent.\<close>

lemma oldest_is_recent: "IsRecent 1700000000 60 (SetTimestamp (2 ^ 63) example_event)"
  by (simp add: IsRecent_def SetTimestamp_def)

end
