(* ===== verification/Ws_Hub.thy ===== *)
theory Ws_Hub imports Ws_Event Ws_Client_Safety begin

text \<open>
  The hub (\<open>wshub/hub.go\<close>, \<open>event_handler.go\<close>): its registry of clients, the goroutine that runs each
  client and takes it out of the registry at the end, broadcasts, event handlers and \<open>Close\<close>. A client
  is a reference into \<open>hb_heap\<close>, whose elements are the clients of \<open>Ws_Client\<close>; a call of a client's method
  starts a thread of that client, so that what the clients do is interleaved with the hub. \<open>AddClient\<close>,
  \<open>GetOrCreateClient\<close> and \<open>Close\<close> hold \<open>h.mu\<close>: the first two are one step, and while \<open>Close\<close> waits for the
  runs (\<open>HubWaiting\<close>) none of them can start. A client is used only once it is in the hub.
\<close>

section \<open>State\<close>

datatype hub_op =
    AddClient nat
  | GetOrCreateClient string "client_option list"
  | RemoveClient string
  | RegisterEventHandler string "nat \<Rightarrow> event \<Rightarrow> hub_op list \<times> string option"
  | UnregisterEventHandler string
  | BroadcastToAll event
  | BroadcastToClients "string list" event
  | BroadcastToSubscribers string event
  | CallClient nat "event call"
  | Close

type_synonym event_handler = "nat \<Rightarrow> event \<Rightarrow> hub_op list \<times> string option"

datatype hub_closing = HubOpen | HubWaiting "string list" | HubClosed

text \<open>A runner is the client it runs and the thread of that client in which \<open>Run\<close> is.\<close>

record hub =
  hb_name :: string
  hb_heap :: "event client list"
  hb_clients :: "nat clients_map"
  hb_handlers :: "event_handler handlers_map"
  hb_done :: bool
  hb_closing :: hub_closing
  hb_runners :: "(nat \<times> nat) list"

definition NewHub :: "string \<Rightarrow> hub" where
  "NewHub name =
     \<lparr>hb_name = name, hb_heap = [], hb_clients = newClientsMap, hb_handlers = NewEventHandlersMap,
      hb_done = False, hb_closing = HubOpen, hb_runners = []\<rparr>"

definition client_at :: "nat \<Rightarrow> hub \<Rightarrow> event client" where
  "client_at r h = hb_heap h ! r"

definition set_client :: "nat \<Rightarrow> event client \<Rightarrow> hub \<Rightarrow> hub" where
  "set_client r c h = h\<lparr>hb_heap := (hb_heap h)[r := c]\<rparr>"

definition call_client :: "nat \<Rightarrow> event call \<Rightarrow> hub \<Rightarrow> hub" where
  "call_client r k h = set_client r ((client_at r h)\<lparr>cl_threads := cl_threads (client_at r h) @ [thread_of k]\<rparr>) h"

section \<open>Operations\<close>

text \<open>\<open>SetHub\<close>, the entry in the registry, and the goroutine that calls \<open>Run\<close>. The channel of a closed hub is closed.\<close>

definition add_client :: "nat \<Rightarrow> hub \<Rightarrow> hub" where
  "add_client r h =
     (let c = SetHub (client_at r h);
          h1 = set_client r (c\<lparr>cl_hubDone := cl_hubDone c \<or> hb_done h\<rparr>) h;
          h2 = h1\<lparr>hb_clients := clients_Add (cl_id c) r (hb_clients h),
                  hb_runners := hb_runners h @ [(r, length (cl_threads c))]\<rparr>
      in call_client r AskRun h2)"

definition GetClient :: "string \<Rightarrow> hub \<Rightarrow> nat option" where
  "GetClient clientID h = clients_Get clientID (hb_clients h)"

definition GetAllClients :: "hub \<Rightarrow> (string, nat) gomap" where
  "GetAllClients h = clients_GetAll (hb_clients h)"

definition MakeChanRange :: string where
  "MakeChanRange = ''makechan: size out of range''"

definition new_client_in :: "string \<Rightarrow> client_option list \<Rightarrow> hub \<Rightarrow> (nat \<times> hub) outcome" where
  "new_client_in clientID opts h =
     (case NewClientWithID clientID opts of
        None \<Rightarrow> Panics MakeChanRange
      | Some c \<Rightarrow> Goes (length (hb_heap h), h\<lparr>hb_heap := hb_heap h @ [c]\<rparr>))"

definition get_or_create :: "string \<Rightarrow> client_option list \<Rightarrow> hub \<Rightarrow> (nat \<times> bool \<times> hub) outcome" where
  "get_or_create clientID opts h =
     (case GetClient clientID h of
        Some r \<Rightarrow> Goes (r, False, h)
      | None \<Rightarrow> then_go (new_client_in clientID opts h) (\<lambda>(r, h'). Goes (r, True, add_client r h')))"

definition remove_client :: "string \<Rightarrow> hub \<Rightarrow> hub" where
  "remove_client clientID h =
     (case clients_Remove clientID (hb_clients h) of
        (Some r, cm) \<Rightarrow> call_client r AskStop (h\<lparr>hb_clients := cm\<rparr>)
      | (None, cm) \<Rightarrow> h\<lparr>hb_clients := cm\<rparr>)"

definition broadcast_to_all :: "event \<Rightarrow> hub \<Rightarrow> hub" where
  "broadcast_to_all e h = foldl (\<lambda>h (clientID, r). call_client r (AskSend e) h) h (GetAllClients h)"

definition broadcast_to_clients :: "string list \<Rightarrow> event \<Rightarrow> hub \<Rightarrow> hub" where
  "broadcast_to_clients clientIDs e h =
     foldl (\<lambda>h clientID. case GetClient clientID h of Some r \<Rightarrow> call_client r (AskSend e) h | None \<Rightarrow> h) h clientIDs"

definition broadcast_to_subscribers :: "string \<Rightarrow> event \<Rightarrow> hub \<Rightarrow> hub" where
  "broadcast_to_subscribers eventType e h =
     foldl (\<lambda>h (clientID, r). if IsSubscribedTo eventType (client_at r h) then call_client r (AskSend e) h else h)
       h (GetAllClients h)"

definition close_hub :: "hub \<Rightarrow> hub" where
  "close_hub h =
     (if hb_done h then h
      else let h1 = h\<lparr>hb_done := True, hb_closing := HubWaiting (map fst (GetAllClients h)),
                      hb_heap := map (\<lambda>c. if cl_hasHub c then c\<lparr>cl_hubDone := True\<rparr> else c) (hb_heap h)\<rparr>
           in foldl (\<lambda>h (clientID, r). call_client r AskStop h) h1 (GetAllClients h))"

definition RegisterEventHandlers :: "(string \<times> event_handler) list \<Rightarrow> hub \<Rightarrow> hub" where
  "RegisterEventHandlers handlers h =
     h\<lparr>hb_handlers := foldl (\<lambda>ehm (eventType, handler). ehm_Add eventType handler ehm) (hb_handlers h) handlers\<rparr>"

definition lock_free :: "hub \<Rightarrow> bool" where
  "lock_free h \<longleftrightarrow> (case hb_closing h of HubWaiting ids \<Rightarrow> False | _ \<Rightarrow> True)"

definition hub_do :: "hub_op \<Rightarrow> hub \<Rightarrow> hub outcome" where
  "hub_do p h =
     (case p of
        AddClient r \<Rightarrow>
          if lock_free h \<and> r < length (hb_heap h) then Goes (add_client r h) else Blocks
      | GetOrCreateClient clientID opts \<Rightarrow>
          if lock_free h then then_go (get_or_create clientID opts h) (\<lambda>(r, created, h'). Goes h') else Blocks
      | RemoveClient clientID \<Rightarrow> Goes (remove_client clientID h)
      | RegisterEventHandler eventType handler \<Rightarrow>
          Goes (h\<lparr>hb_handlers := ehm_Add eventType handler (hb_handlers h)\<rparr>)
      | UnregisterEventHandler eventType \<Rightarrow> Goes (h\<lparr>hb_handlers := ehm_Remove eventType (hb_handlers h)\<rparr>)
      | BroadcastToAll e \<Rightarrow> Goes (broadcast_to_all e h)
      | BroadcastToClients clientIDs e \<Rightarrow> Goes (broadcast_to_clients clientIDs e h)
      | BroadcastToSubscribers eventType e \<Rightarrow> Goes (broadcast_to_subscribers eventType e h)
      | CallClient r k \<Rightarrow>
          if r < length (hb_heap h) \<and> cl_hasHub (client_at r h) \<and> k \<noteq> AskRun then Goes (call_client r k h) else Blocks
      | Close \<Rightarrow> if lock_free h then Goes (close_hub h) else Blocks)"

text \<open>
  \<open>ProcessEvent\<close>: the handler registered for the type, and what it does; its error is only logged. The
  other threads may run between the calls a handler makes.
\<close>

definition ProcessEvent :: "nat \<Rightarrow> event \<Rightarrow> hub \<Rightarrow> hub outcome" where
  "ProcessEvent r e h =
     (case ehm_Get (ev_Type e) (hb_handlers h) of
        None \<Rightarrow> Goes h
      | Some handler \<Rightarrow> run hub_do (fst (handler r e)) h)"

definition EventTypeEchoRequestHandler :: "string \<Rightarrow> 64 word \<Rightarrow> metadata_store \<Rightarrow> event_handler" where
  "EventTypeEchoRequestHandler uuid now st r e =
     (let data = (case ev_Data e of Some j \<Rightarrow> Encodable j | None \<Rightarrow> Encodable JNull);
          replyEvent = SetTriggeredBy (ev_ID e) (fst (NewEvent uuid now EventTypeEchoReply data st))
      in ([CallClient r (AskSend replyEvent)], None))"

section \<open>The system\<close>

text \<open>
  Besides the operations: a client is made, a client moves by itself, a run that has ended takes its
  client's id out of the registry, \<open>Close\<close> goes on when all runs have ended.
\<close>

datatype hub_move =
    Op hub_op
  | NewClientMove string "client_option list"
  | ClientMove nat "event client_move"
  | RunnerEnds nat
  | CloseGoesOn

fun by_itself :: "'e client_move \<Rightarrow> bool" where
  "by_itself (Step i ch) = True"
| "by_itself WaiterStep = True"
| "by_itself PumpEnds = True"
| "by_itself m = False"

definition runner_ends :: "nat \<Rightarrow> hub \<Rightarrow> hub outcome" where
  "runner_ends k h =
     (if length (hb_runners h) \<le> k then Blocks
      else let (r, i) = hb_runners h ! k
           in if cl_threads (client_at r h) ! i = RunT RunEnd
              then Goes (h\<lparr>hb_clients := snd (clients_Remove (cl_id (client_at r h)) (hb_clients h)),
                           hb_runners := take k (hb_runners h) @ drop (Suc k) (hb_runners h)\<rparr>)
              else Blocks)"

definition close_goes_on :: "hub \<Rightarrow> hub outcome" where
  "close_goes_on h =
     (case hb_closing h of
        HubWaiting ids \<Rightarrow>
          if hb_runners h = []
          then Goes (h\<lparr>hb_clients := foldl (\<lambda>cm clientID. snd (clients_Remove clientID cm)) (hb_clients h) ids,
                       hb_closing := HubClosed\<rparr>)
          else Blocks
      | _ \<Rightarrow> Blocks)"

definition hub_step :: "hub_move \<Rightarrow> hub \<Rightarrow> hub outcome" where
  "hub_step m h =
     (case m of
        Op p \<Rightarrow> hub_do p h
      | NewClientMove clientID opts \<Rightarrow> then_go (new_client_in clientID opts h) (\<lambda>(r, h'). Goes h')
      | ClientMove r cm \<Rightarrow>
          if r < length (hb_heap h) \<and> cl_hasHub (client_at r h) \<and> by_itself cm
          then then_go (client_step cm (client_at r h)) (\<lambda>c. Goes (set_client r c h)) else Blocks
      | RunnerEnds k \<Rightarrow> runner_ends k h
      | CloseGoesOn \<Rightarrow> close_goes_on h)"

section \<open>Calls\<close>

lemma call_client_fields [simp]:
  "hb_clients (call_client r k h) = hb_clients h" "hb_handlers (call_client r k h) = hb_handlers h"
  "hb_done (call_client r k h) = hb_done h" "hb_closing (call_client r k h) = hb_closing h"
  "hb_runners (call_client r k h) = hb_runners h" "length (hb_heap (call_client r k h)) = length (hb_heap h)"
  "hb_name (call_client r k h) = hb_name h"
  by (simp_all add: call_client_def set_client_def)

lemma client_at_call:
  "r < length (hb_heap h) \<Longrightarrow> client_at r' (call_client r k h)
    = (if r' = r then (client_at r h)\<lparr>cl_threads := cl_threads (client_at r h) @ [thread_of k]\<rparr> else client_at r' h)"
  by (simp add: call_client_def set_client_def client_at_def)

text \<open>Calls on a list of clients: each client gets its calls, in the order of the list.\<close>

definition calls_for :: "nat \<Rightarrow> (nat \<times> event call) list \<Rightarrow> event thread list" where
  "calls_for r ks = map (\<lambda>p. thread_of (snd p)) (filter (\<lambda>p. fst p = r) ks)"

lemma call_all:
  assumes "\<forall>p \<in> set ks. fst p < length (hb_heap h)"
  shows "foldl (\<lambda>h p. call_client (fst p) (snd p) h) h ks
    = h\<lparr>hb_heap := map (\<lambda>r. (client_at r h)\<lparr>cl_threads := cl_threads (client_at r h) @ calls_for r ks\<rparr>) [0..<length (hb_heap h)]\<rparr>"
  using assms
proof (induction ks arbitrary: h)
  case Nil
  have "map (\<lambda>r. client_at r h) [0..<length (hb_heap h)] = hb_heap h"
    by (simp add: client_at_def map_nth)
  then show ?case by (simp add: calls_for_def)
next
  case (Cons p ks)
  let ?h = "call_client (fst p) (snd p) h"
  have "foldl (\<lambda>h p. call_client (fst p) (snd p) h) ?h ks
      = ?h\<lparr>hb_heap := map (\<lambda>r. (client_at r ?h)\<lparr>cl_threads := cl_threads (client_at r ?h) @ calls_for r ks\<rparr>) [0..<length (hb_heap ?h)]\<rparr>"
    using Cons.prems by (intro Cons.IH) simp
  moreover have "(client_at r ?h)\<lparr>cl_threads := cl_threads (client_at r ?h) @ calls_for r ks\<rparr>
      = (client_at r h)\<lparr>cl_threads := cl_threads (client_at r h) @ calls_for r (p # ks)\<rparr>" if "r < length (hb_heap h)" for r
    using Cons.prems that by (auto simp: client_at_call calls_for_def)
  moreover have "?h\<lparr>hb_heap := x\<rparr> = h\<lparr>hb_heap := x\<rparr>" for x by (simp add: call_client_def set_client_def)
  ultimately show ?case by (simp cong: map_cong)
qed

end
