(* ===== verification/Ws_Hub_Correct.thy ===== *)
theory Ws_Hub_Correct imports Ws_Hub begin

text \<open>
  What the hub keeps: its registry holds each client under the client's own id, each client in the hub is in a state the
  model of one client reaches, and while \<open>Close\<close> waits no client is added. From these: what each operation
  does, and what can panic.
\<close>

section \<open>A client keeps its id\<close>

lemma close_step_id:
  assumes "close_step pc c = Goes (pc', c')"
  shows "cl_id c' = cl_id c"
proof -
  have ?thesis if "pc = CloseConns ids" for ids
    using assms that by (cases ids) (auto simp: close_step_def)
  with assms show ?thesis
    by (cases pc) (auto simp: close_step_def then_go_simps split: if_splits once.splits)
qed

lemma run_step_id:
  assumes "run_step ch pc c = Goes (pc', c', ts)"
  shows "cl_id c' = cl_id c"
proof (cases pc)
  case (RunStop q)
  then show ?thesis using assms close_step_id [of q c]
    by (cases q) (auto simp: run_step_def then_go_Goes)
qed (use assms in \<open>auto simp: run_step_def then_go_Goes split: if_splits\<close>)

lemma dist_step_id:
  assumes "dist_step ch pc c = Goes (pc', c')"
  shows "cl_id c' = cl_id c"
proof (cases pc)
  case DistSelect
  then show ?thesis using assms
    by (cases ch) (auto simp: dist_step_def then_go_Goes split: if_splits option.splits)
next
  case (DistEach e ids)
  then show ?thesis using assms by (cases ids) (auto simp: dist_step_def)
qed (use assms in \<open>auto simp: dist_step_def then_go_Goes\<close>)

lemma thread_step_id:
  assumes "thread_step ch t c = Goes (t', c', ts)"
  shows "cl_id c' = cl_id c"
proof (cases t)
  case (PostT e pc)
  then show ?thesis using assms
    by (cases pc; cases ch) (auto simp: thread_step_def post_step_def then_go_Goes split: if_splits)
next
  case (AddT k pc)
  then show ?thesis using assms by (cases pc) (auto simp: thread_step_def add_step_def then_go_Goes)
next
  case (RemoveT k pc)
  then show ?thesis using assms
    by (cases pc) (auto simp: thread_step_def remove_step_def then_go_Goes split: option.splits prod.splits)
qed (use assms in \<open>auto simp: thread_step_def then_go_Goes dest: close_step_id run_step_id dist_step_id\<close>)

lemma client_step_id:
  assumes "client_step m c = Goes d"
  shows "cl_id d = cl_id c \<and> cl_hasHub d = cl_hasHub c"
proof (cases m)
  case (Step i ch)
  from assms [unfolded Step] obtain t' c' ts where "thread_step ch (cl_threads c ! i) c = Goes (t', c', ts)"
    and "d = c'\<lparr>cl_threads := (cl_threads c)[i := t'] @ ts\<rparr>"
    by (rule client_step_StepD)
  then show ?thesis by (auto dest: thread_step_id step_is_run)
next
  case (Call k)
  with assms show ?thesis by (auto simp: client_step_def)
next
  case HubCloses
  with assms show ?thesis by (auto simp: client_step_def)
qed (use assms in \<open>auto elim!: quiet_stepD\<close>)

section \<open>The invariant\<close>

definition client_ok :: "event client \<Rightarrow> bool" where
  "client_ok c \<longleftrightarrow>
     (if cl_hasHub c then \<exists>n. reaches client_step (hub_client n (cl_id c)) c else \<exists>n. c = new_client n (cl_id c))"

definition in_hub :: "hub \<Rightarrow> string \<times> nat \<Rightarrow> bool" where
  "in_hub h p \<longleftrightarrow> snd p < length (hb_heap h) \<and> cl_id (client_at (snd p) h) = fst p \<and> cl_hasHub (client_at (snd p) h)"

definition hub_inv :: "hub \<Rightarrow> bool" where
  "hub_inv h \<longleftrightarrow> gomap_ok (hb_clients h) \<and> (\<forall>p \<in> set (hb_clients h). in_hub h p) \<and> (\<forall>c \<in> set (hb_heap h). client_ok c)
     \<and> (hb_closing h = HubOpen \<longleftrightarrow> \<not> hb_done h)
     \<and> (\<forall>ids. hb_closing h = HubWaiting ids \<longrightarrow> fst ` set (hb_clients h) \<subseteq> set ids)"

lemma map_del_mem: "p \<in> set (map_del m k) \<Longrightarrow> p \<in> set m \<and> fst p \<noteq> k"
  unfolding map_del_def by (auto simp: AList.delete_eq)

lemma client_ok_step: "client_ok c \<Longrightarrow> cl_hasHub c \<Longrightarrow> client_step m c = Goes d \<Longrightarrow> client_ok d"
  using client_step_id [of m c d] by (auto simp: client_ok_def intro: reaches_step)

lemma client_at_set: "r < length (hb_heap h) \<Longrightarrow> client_at r' (set_client r c h) = (if r' = r then c else client_at r' h)"
  by (simp add: client_at_def set_client_def)

lemma client_at_mem: "r < length (hb_heap h) \<Longrightarrow> client_at r h \<in> set (hb_heap h)"
  by (simp add: client_at_def)

lemma set_client_inv:
  assumes "hub_inv h" and "r < length (hb_heap h)" and "client_ok c"
    and "cl_id c = cl_id (client_at r h)" and "cl_hasHub (client_at r h) \<longrightarrow> cl_hasHub c"
  shows "hub_inv (set_client r c h)"
proof -
  have "length (hb_heap (set_client r c h)) = length (hb_heap h)" by (simp add: set_client_def)
  then have "in_hub (set_client r c h) p" if "in_hub h p" for p
    using that assms by (auto simp: in_hub_def client_at_set)
  moreover have "\<forall>d \<in> set (hb_heap (set_client r c h)). client_ok d"
    using assms(1,3) set_update_cases [of _ "hb_heap h" r c] by (auto simp: hub_inv_def set_client_def)
  ultimately show ?thesis using assms(1) by (auto simp: hub_inv_def set_client_def)
qed

lemma client_move_inv:
  assumes "hub_inv h" and "r < length (hb_heap h)" and "cl_hasHub (client_at r h)" and "client_step m (client_at r h) = Goes c"
  shows "hub_inv (set_client r c h)"
  using assms client_ok_step [OF _ assms(3,4)] client_step_id [OF assms(4)] client_at_mem [OF assms(2)]
  by (intro set_client_inv) (auto simp: hub_inv_def)

lemma call_client_inv:
  assumes "hub_inv h" and "r < length (hb_heap h)" and "cl_hasHub (client_at r h)"
  shows "hub_inv (call_client r k h)"
  unfolding call_client_def
  by (rule client_move_inv [OF assms, where m = "Call k"]) (simp add: client_step_def)

lemma calls_inv:
  assumes "hub_inv h" and "\<forall>p \<in> set ks. fst p < length (hb_heap h) \<and> cl_hasHub (client_at (fst p) h)"
  shows "hub_inv (foldl (\<lambda>h p. call_client (fst p) (snd p) h) h ks)"
  using assms
proof (induction ks arbitrary: h)
  case (Cons p ks)
  then have "hub_inv (call_client (fst p) (snd p) h)" by (simp add: call_client_inv)
  then show ?case using Cons.prems Cons.IH [of "call_client (fst p) (snd p) h"] by (simp add: client_at_call)
qed simp

section \<open>The operations as calls\<close>

lemma hub_all: "hub_inv h \<Longrightarrow> (clientID, r) \<in> set (GetAllClients h) \<longleftrightarrow> GetClient clientID h = Some r"
  by (simp add: GetAllClients_def GetClient_def clients.in_all hub_inv_def)

lemma hub_all_in: "hub_inv h \<Longrightarrow> p \<in> set (GetAllClients h) \<Longrightarrow> in_hub h p"
  by (simp add: GetAllClients_def clients_GetAll_def hub_inv_def)

lemma GetClient_in: "hub_inv h \<Longrightarrow> GetClient clientID h = Some r \<Longrightarrow> in_hub h (clientID, r)"
  using hub_all hub_all_in by blast

lemma broadcast_to_all_calls:
  "broadcast_to_all e h
    = foldl (\<lambda>h p. call_client (fst p) (snd p) h) h (map (\<lambda>p. (snd p, AskSend e)) (GetAllClients h))"
  by (simp add: broadcast_to_all_def foldl_map split_def)

lemma broadcast_to_subscribers_all: "broadcast_to_subscribers eventType e h = broadcast_to_all e h"
  by (simp add: broadcast_to_subscribers_def broadcast_to_all_def IsSubscribedTo_def)

lemma broadcast_to_clients_calls:
  "broadcast_to_clients clientIDs e h
    = foldl (\<lambda>h p. call_client (fst p) (snd p) h) h
        (map (\<lambda>r. (r, AskSend e)) (List.map_filter (\<lambda>clientID. GetClient clientID h) clientIDs))"
proof (induction clientIDs arbitrary: h)
  case (Cons clientID ids)
  have same: "(\<lambda>i. GetClient i (call_client r k h)) = (\<lambda>i. GetClient i h)" for r k
    by (simp add: GetClient_def)
  show ?case
    using Cons.IH [of h] Cons.IH [of "call_client (the (GetClient clientID h)) (AskSend e) h"]
    by (cases "GetClient clientID h") (simp_all add: broadcast_to_clients_def map_filter_simps same)
qed (simp add: broadcast_to_clients_def map_filter_simps)

definition closed_heap :: "hub \<Rightarrow> hub" where
  "closed_heap h =
     h\<lparr>hb_done := True, hb_closing := HubWaiting (map fst (GetAllClients h)),
       hb_heap := map (\<lambda>c. if cl_hasHub c then c\<lparr>cl_hubDone := True\<rparr> else c) (hb_heap h)\<rparr>"

lemma close_hub_calls:
  "\<not> hb_done h \<Longrightarrow> close_hub h
    = foldl (\<lambda>h p. call_client (fst p) (snd p) h) (closed_heap h) (map (\<lambda>p. (snd p, AskStop)) (GetAllClients h))"
  by (simp add: close_hub_def closed_heap_def foldl_map split_def)

section \<open>The invariant is kept\<close>

lemma hub_inv_new: "hub_inv (NewHub name)"
  by (simp add: hub_inv_def NewHub_def newClientsMap_def)

lemma new_client_inv:
  assumes "hub_inv h" and "new_client_in clientID opts h = Goes (r, h')"
  shows "hub_inv h' \<and> r = length (hb_heap h) \<and> length (hb_heap h') = Suc r \<and> \<not> cl_hasHub (client_at r h')
    \<and> cl_id (client_at r h') = clientID \<and> hb_clients h' = hb_clients h \<and> hb_closing h' = hb_closing h
    \<and> (\<forall>r' < r. client_at r' h' = client_at r' h)"
proof -
  obtain n where r: "r = length (hb_heap h)" and h': "h' = h\<lparr>hb_heap := hb_heap h @ [new_client n clientID]\<rparr>"
    using assms(2) by (auto simp: new_client_in_def NewClientWithID_def Let_def split: if_splits)
  have "client_ok (new_client n clientID)" by (auto simp: client_ok_def new_client_def)
  moreover have "in_hub h' p" if "in_hub h p" for p
    using that by (auto simp: in_hub_def h' client_at_def nth_append)
  ultimately show ?thesis using assms(1)
    by (auto simp: hub_inv_def h' r client_at_def nth_append new_client_def)
qed

lemma add_client_inv:
  assumes "hub_inv h" and "r < length (hb_heap h)" and "lock_free h"
  shows "hub_inv (add_client r h)"
proof -
  let ?c = "client_at r h" and ?d = "(SetHub (client_at r h))\<lparr>cl_hubDone := cl_hubDone (client_at r h) \<or> hb_done h\<rparr>"
  have ok: "client_ok ?c" using assms(1) client_at_mem [OF assms(2)] by (simp add: hub_inv_def)
  have "client_ok (SetHub ?c)"
  proof (cases "cl_hasHub ?c")
    case True
    then have "SetHub ?c = ?c" by (simp add: SetHub_def)
    with ok show ?thesis by simp
  next
    case False
    then obtain n where "?c = new_client n (cl_id ?c)" using ok by (auto simp: client_ok_def)
    then have "SetHub ?c = hub_client n (cl_id ?c)" by (metis hub_client_def)
    then have "reaches client_step (hub_client n (cl_id ?c)) (SetHub ?c)" by (metis reaches_init)
    then show ?thesis by (auto simp: client_ok_def SetHub_def)
  qed
  moreover have "?d = SetHub ?c \<or> client_step HubCloses (SetHub ?c) = Goes ?d"
    by (cases "hb_done h \<and> \<not> cl_hubDone ?c") (auto simp: SetHub_def client_step_def)
  ultimately have d: "client_ok ?d" using client_ok_step [of "SetHub ?c" HubCloses ?d] by (auto simp: SetHub_def)
  let ?h1 = "set_client r ?d h"
  have h1: "hub_inv ?h1" using assms d by (intro set_client_inv) (auto simp: SetHub_def)
  let ?h2 = "?h1\<lparr>hb_clients := clients_Add (cl_id ?c) r (hb_clients h), hb_runners := hb_runners h @ [(r, length (cl_threads ?c))]\<rparr>"
  have heap: "in_hub ?h2 = in_hub ?h1" by (simp add: in_hub_def client_at_def fun_eq_iff)
  have "in_hub ?h1 (cl_id ?c, r)" using assms(2) by (simp add: in_hub_def client_at_set) (simp add: set_client_def SetHub_def)
  then have "\<forall>p \<in> set (clients_Add (cl_id ?c) r (hb_clients h)). in_hub ?h1 p"
    using h1 by (auto simp: hub_inv_def clients_Add_def set_client_def dest!: map_set_mem)
  then have "hub_inv ?h2"
    using h1 assms(3) unfolding hub_inv_def heap
    by (auto simp: set_client_def clients_Add_def lock_free_def)
  moreover have "cl_hasHub (client_at r ?h2)" "r < length (hb_heap ?h2)"
    using assms(2) by (simp_all add: client_at_def set_client_def SetHub_def)
  ultimately have "hub_inv (call_client r AskRun ?h2)" by (intro call_client_inv)
  then show ?thesis by (simp add: add_client_def Let_def SetHub_def)
qed

lemma in_hub_clients [simp]: "in_hub (h\<lparr>hb_clients := cm\<rparr>) = in_hub h"
  by (simp add: in_hub_def client_at_def fun_eq_iff)

lemma clients_Remove_out: "snd (clients_Remove k cm) = (if map_get cm k = None then cm else map_del cm k)"
  by (auto simp: clients_Remove_def split: option.splits)

lemma fewer_clients_inv:
  assumes "hub_inv h" and "set cm \<subseteq> set (hb_clients h)" and "gomap_ok cm"
  shows "hub_inv (h\<lparr>hb_clients := cm\<rparr>)"
  using assms by (fastforce simp: hub_inv_def)

lemma remove_inv:
  assumes "hub_inv h"
  shows "hub_inv (h\<lparr>hb_clients := snd (clients_Remove k (hb_clients h))\<rparr>)"
  using assms by (intro fewer_clients_inv) (auto simp: clients_Remove_out hub_inv_def dest: map_del_mem)

lemma remove_client_inv:
  assumes "hub_inv h"
  shows "hub_inv (remove_client clientID h)"
proof (cases "map_get (hb_clients h) clientID")
  case None
  then show ?thesis using assms by (simp add: remove_client_def clients_Remove_def)
next
  case (Some r)
  then have "in_hub h (clientID, r)" using GetClient_in [OF assms] by (simp add: GetClient_def clients_Get_def)
  then have "r < length (hb_heap h)" "cl_hasHub (client_at r h)" by (simp_all add: in_hub_def)
  moreover have "hub_inv (h\<lparr>hb_clients := map_del (hb_clients h) clientID\<rparr>)"
    using remove_inv [OF assms, of clientID] Some by (simp add: clients_Remove_def)
  ultimately show ?thesis using Some
    by (simp add: remove_client_def clients_Remove_def call_client_inv client_at_def)
qed

lemma broadcast_inv:
  assumes "hub_inv h"
  shows "hub_inv (broadcast_to_all e h)" and "hub_inv (broadcast_to_clients ids e h)"
proof -
  show "hub_inv (broadcast_to_all e h)"
    unfolding broadcast_to_all_calls
    by (rule calls_inv [OF assms]) (use hub_all_in [OF assms] in \<open>auto simp: in_hub_def\<close>)
  show "hub_inv (broadcast_to_clients ids e h)"
    unfolding broadcast_to_clients_calls
    by (rule calls_inv [OF assms]) (use GetClient_in [OF assms] in \<open>auto simp: in_hub_def List.map_filter_def\<close>)
qed

lemma closed_heap_inv:
  assumes "hub_inv h"
  shows "hub_inv (closed_heap h)"
proof -
  have "client_ok (c\<lparr>cl_hubDone := True\<rparr>)" if "client_ok c" "cl_hasHub c" for c
    using client_ok_step [OF that, of HubCloses] by (simp add: client_step_def)
  moreover have "in_hub (closed_heap h) p" if "in_hub h p" for p
    using that by (auto simp: in_hub_def closed_heap_def client_at_def)
  ultimately show ?thesis using assms
    by (auto simp: hub_inv_def closed_heap_def GetAllClients_def clients_GetAll_def)
qed

lemma close_hub_inv:
  assumes "hub_inv h"
  shows "hub_inv (close_hub h)"
proof (cases "hb_done h")
  case False
  have "in_hub (closed_heap h) p" if "in_hub h p" for p
    using that by (auto simp: in_hub_def closed_heap_def client_at_def)
  then have "\<forall>q \<in> set (map (\<lambda>p. (snd p, AskStop)) (GetAllClients h)).
      fst q < length (hb_heap (closed_heap h)) \<and> cl_hasHub (client_at (fst q) (closed_heap h))"
    using hub_all_in [OF assms] by (auto simp: in_hub_def)
  then show ?thesis unfolding close_hub_calls [OF False] by (rule calls_inv [OF closed_heap_inv [OF assms]])
qed (use assms in \<open>simp add: close_hub_def\<close>)

lemma handlers_inv: "hub_inv (h\<lparr>hb_handlers := x\<rparr>) = hub_inv h"
  by (simp add: hub_inv_def in_hub_def client_at_def)

lemma get_or_create_inv:
  assumes "hub_inv h" and "lock_free h" and "get_or_create clientID opts h = Goes (r, created, h')"
  shows "hub_inv h'"
proof (cases "GetClient clientID h")
  case None
  then obtain h1 where h1: "new_client_in clientID opts h = Goes (r, h1)" "h' = add_client r h1"
    using assms(3) by (auto simp: get_or_create_def then_go_Goes)
  note n = new_client_inv [OF assms(1) h1(1)]
  then have "lock_free h1" using assms(2) by (simp add: lock_free_def)
  with n h1(2) show ?thesis by (auto intro: add_client_inv)
qed (use assms in \<open>simp add: get_or_create_def\<close>)

lemma hub_do_inv:
  assumes "hub_inv h" and "hub_do p h = Goes h'"
  shows "hub_inv h'"
proof (cases p)
  case (GetOrCreateClient clientID opts)
  with assms show ?thesis
    by (auto simp: hub_do_def then_go_Goes split: if_splits intro: get_or_create_inv)
next
  case (AddClient r)
  with assms show ?thesis by (auto simp: hub_do_def split: if_splits intro: add_client_inv)
next
  case (CallClient r k)
  with assms show ?thesis by (auto simp: hub_do_def split: if_splits intro: call_client_inv)
next
  case Close
  with assms show ?thesis by (auto simp: hub_do_def split: if_splits intro: close_hub_inv)
qed (use assms in \<open>auto simp: hub_do_def broadcast_to_subscribers_all handlers_inv intro: remove_client_inv broadcast_inv\<close>)

lemma remove_all_subset:
  "set (foldl (\<lambda>cm k. snd (clients_Remove k cm)) cm ids) \<subseteq> {p \<in> set cm. fst p \<notin> set ids}"
proof (induction ids arbitrary: cm)
  case (Cons k ids)
  have "p \<in> set cm \<and> fst p \<noteq> k" if "p \<in> set (snd (clients_Remove k cm))" for p
    using that by (auto simp: clients_Remove_out map_get_None_iff split: if_splits dest: map_del_mem)
  with Cons show ?case by fastforce
qed simp

lemma remove_all_ok: "gomap_ok cm \<Longrightarrow> gomap_ok (foldl (\<lambda>cm k. snd (clients_Remove k cm)) cm ids)"
  by (induction ids arbitrary: cm) (auto simp: clients_Remove_out)

lemma hub_inv_step:
  assumes inv: "hub_inv h" and step: "hub_step m h = Goes h'"
  shows "hub_inv h'"
proof (cases m)
  case (Op p)
  with assms show ?thesis by (auto simp: hub_step_def intro: hub_do_inv)
next
  case (NewClientMove clientID opts)
  with step obtain r where "new_client_in clientID opts h = Goes (r, h')"
    by (auto simp: hub_step_def then_go_Goes)
  with new_client_inv [OF inv] show ?thesis by blast
next
  case (ClientMove r cm)
  with assms show ?thesis
    by (auto simp: hub_step_def then_go_Goes split: if_splits intro: client_move_inv)
next
  case (RunnerEnds k)
  then obtain c rs where "h' = h\<lparr>hb_clients := snd (clients_Remove c (hb_clients h)), hb_runners := rs\<rparr>"
    using step by (auto simp: hub_step_def runner_ends_def split: if_splits prod.splits)
  then have "h' = (h\<lparr>hb_clients := snd (clients_Remove c (hb_clients h))\<rparr>)\<lparr>hb_runners := rs\<rparr>" by simp
  with remove_inv [OF inv, of c] show ?thesis by (auto simp: hub_inv_def in_hub_def client_at_def)
next
  case CloseGoesOn
  then obtain ids where c: "hb_closing h = HubWaiting ids"
    and h': "h' = h\<lparr>hb_clients := foldl (\<lambda>cm k. snd (clients_Remove k cm)) (hb_clients h) ids, hb_closing := HubClosed\<rparr>"
    using step by (auto simp: hub_step_def close_goes_on_def split: hub_closing.splits if_splits)
  have "hub_inv (h\<lparr>hb_clients := foldl (\<lambda>cm k. snd (clients_Remove k cm)) (hb_clients h) ids\<rparr>)"
    using inv remove_all_subset [of "hb_clients h" ids]
    by (intro fewer_clients_inv) (auto simp: hub_inv_def intro: remove_all_ok)
  with c inv show ?thesis by (auto simp: hub_inv_def in_hub_def client_at_def h')
qed

interpretation hubs: threads hub_step "NewHub name" hub_inv
  by unfold_locales (rule hub_inv_new, rule hub_inv_step)

section \<open>New clients\<close>

lemma add_client_effect:
  assumes "r < length (hb_heap h)"
  shows "hb_clients (add_client r h) = clients_Add (cl_id (client_at r h)) r (hb_clients h)"
    and "hb_runners (add_client r h) = hb_runners h @ [(r, length (cl_threads (client_at r h)))]"
    and "cl_threads (client_at r (add_client r h)) = cl_threads (client_at r h) @ [RunT RunStart]"
    and "r' \<noteq> r \<Longrightarrow> client_at r' (add_client r h) = client_at r' h"
  using assms by (simp_all add: add_client_def Let_def SetHub_def client_at_call client_at_set)
    (simp_all add: client_at_def set_client_def call_client_def SetHub_def)

lemma add_client_joins:
  assumes "hub_inv h" and "r < length (hb_heap h)" and "lock_free h"
  shows "GetClient (cl_id (client_at r h)) (add_client r h) = Some r \<and> cl_hasHub (client_at r (add_client r h))
    \<and> (\<forall>i. i \<noteq> cl_id (client_at r h) \<longrightarrow> GetClient i (add_client r h) = GetClient i h)"
proof -
  have g: "GetClient i (add_client r h) = (if i = cl_id (client_at r h) then Some r else GetClient i h)" for i
    unfolding GetClient_def add_client_effect(1) [OF assms(2)] by (rule clients.get_add)
  with GetClient_in [OF add_client_inv [OF assms], of "cl_id (client_at r h)" r] show ?thesis by (simp add: in_hub_def)
qed

lemma get_or_create_effect:
  assumes "hub_inv h" and "lock_free h" and "get_or_create clientID opts h = Goes (r, created, h')"
  shows "GetClient clientID h' = Some r \<and> cl_id (client_at r h') = clientID \<and> cl_hasHub (client_at r h')
    \<and> (created \<longleftrightarrow> GetClient clientID h = None)
    \<and> (\<forall>i. i \<noteq> clientID \<longrightarrow> GetClient i h' = GetClient i h)
    \<and> (if created then r = length (hb_heap h) \<and> cl_threads (client_at r h') = [RunT RunStart]
         \<and> hb_runners h' = hb_runners h @ [(r, 0)] \<and> (\<forall>r' < r. client_at r' h' = client_at r' h)
       else h' = h)
    \<and> get_or_create clientID opts' h' = Goes (r, False, h')"
proof (cases "GetClient clientID h")
  case (Some r')
  with assms(3) have "r' = r" "\<not> created" "h' = h" by (simp_all add: get_or_create_def)
  with Some GetClient_in [OF assms(1) Some] show ?thesis
    by (simp add: get_or_create_def in_hub_def)
next
  case None
  then obtain h1 where h1: "new_client_in clientID opts h = Goes (r, h1)" "created" "h' = add_client r h1"
    using assms(3) by (auto simp: get_or_create_def then_go_Goes)
  note inv = assms(1)
  note n = new_client_inv [OF inv h1(1)]
  then have r: "r < length (hb_heap h1)" by simp
  have cid: "cl_id (client_at r h1) = clientID" "hb_clients h1 = hb_clients h" using n by blast+
  have "cl_threads (client_at r h1) = []"
    using h1(1) by (auto simp: new_client_in_def NewClientWithID_def Let_def new_client_def client_at_def split: if_splits)
  then have t: "cl_threads (client_at r h') = [RunT RunStart]" using add_client_effect(3) [OF r] h1(3) by simp
  have "hb_runners h1 = hb_runners h"
    using h1(1) by (auto simp: new_client_in_def split: option.splits)
  then have rs: "hb_runners h' = hb_runners h @ [(r, 0)]"
    using add_client_effect(2) [OF r] h1(3) \<open>cl_threads (client_at r h1) = []\<close> by simp
  have g: "GetClient i h' = (if i = clientID then Some r else GetClient i h)" for i
    unfolding GetClient_def h1(3) add_client_effect(1) [OF r] cid by (rule clients.get_add)
  have inv': "hub_inv h'" using get_or_create_inv [OF inv assms(2,3)] .
  have "in_hub h' (clientID, r)" using GetClient_in [OF inv'] g by simp
  moreover have "\<forall>r' < r. client_at r' h' = client_at r' h" using add_client_effect(4) [OF r] n h1(3) by simp
  moreover have "r = length (hb_heap h)" using n by simp
  moreover have "get_or_create clientID opts' h' = Goes (r, False, h')" by (simp add: get_or_create_def g)
  ultimately show ?thesis using None h1(2) t rs g by (simp add: in_hub_def)
qed

section \<open>Clients in the hub\<close>

lemma hub_client_reached:
  assumes "reaches hub_step (NewHub name) h" and "r < length (hb_heap h)" and "cl_hasHub (client_at r h)"
  shows "\<exists>n. reaches client_step (hub_client n (cl_id (client_at r h))) (client_at r h)"
  using hubs.reaches_inv [OF assms(1)] client_at_mem [OF assms(2)] assms(3)
  by (auto simp: hub_inv_def client_ok_def)


lemma first_client:
  "hub_step (Op (GetOrCreateClient clientID [])) (NewHub name)
    = Goes (add_client 0 ((NewHub name)\<lparr>hb_heap := [new_client 256 clientID]\<rparr>))"
  by (simp add: hub_step_def hub_do_def lock_free_def NewHub_def get_or_create_def GetClient_def clients_Get_def
      newClientsMap_def map_get_def new_client_in_def NewClientWithID_def NewClientConfig_def)


text \<open>
  When no client is added to the hub twice, a hub and its clients can panic in three ways only: the two
  late panics of a client that is being stopped, and a negative buffer size in the options of a new
  client.
\<close>

theorem hub_panics_only_late:
  assumes "reaches hub_step (NewHub name) h" and "\<forall>c \<in> set (hb_heap h). single_run c" and "hub_step m h = Panics v"
  shows "(\<exists>r cm. m = ClientMove r cm \<and> cl_isStopped (client_at r h) \<and> (v = SendOnClosed \<or> v = ReusedWaitGroup))
    \<or> (\<exists>clientID opts. (m = NewClientMove clientID opts \<or> m = Op (GetOrCreateClient clientID opts))
        \<and> v = MakeChanRange \<and> kc_SendBufferSize (foldl (\<lambda>c opt. opt c) NewClientConfig opts) < 0)"
proof -
  have new: "v = MakeChanRange \<and> kc_SendBufferSize (foldl (\<lambda>c opt. opt c) NewClientConfig opts) < 0"
    if "new_client_in clientID opts h = Panics v" for clientID opts
    using that by (auto simp: new_client_in_def NewClientWithID_def Let_def split: if_splits)
  show ?thesis
  proof (cases m)
    case (ClientMove r cm)
    then have "r < length (hb_heap h)" "cl_hasHub (client_at r h)" "client_step cm (client_at r h) = Panics v"
      using assms(3) by (auto simp: hub_step_def then_go_Panics split: if_splits)
    moreover from this(1) have "single_run (client_at r h)" using assms(2) client_at_mem by blast
    ultimately show ?thesis using hub_client_reached [OF assms(1)] client_panic_cases ClientMove by blast
  next
    case (Op p)
    with assms(3) show ?thesis using new
      by (cases p) (auto simp: hub_step_def hub_do_def get_or_create_def then_go_Panics split: if_splits option.splits)
  next
    case (NewClientMove clientID opts)
    with assms(3) show ?thesis using new by (auto simp: hub_step_def then_go_Panics)
  next
    case (RunnerEnds k)
    with assms(3) show ?thesis by (auto simp: hub_step_def runner_ends_def split: if_splits prod.splits)
  next
    case CloseGoesOn
    with assms(3) show ?thesis by (auto simp: hub_step_def close_goes_on_def split: if_splits hub_closing.splits)
  qed
qed

definition one_send :: event where
  "one_send = zero_event\<lparr>ev_Type := ''x''\<rparr>"

definition hub_steps :: "nat \<Rightarrow> nat \<Rightarrow> nat \<Rightarrow> choice \<Rightarrow> hub_move list" where
  "hub_steps n r i ch = replicate n (ClientMove r (Step i ch))"

text \<open>A broadcast that meets the removal of the client.\<close>

definition late_broadcast :: "hub_move list" where
  "late_broadcast = [Op (GetOrCreateClient ''a'' [])] @ hub_steps 5 0 0 TakeChannel
     @ [Op (BroadcastToAll one_send)] @ hub_steps 1 0 2 TakeChannel @ [Op (RemoveClient ''a'')] @ hub_steps 6 0 3 TakeChannel"

lemma hub_panics_only_late_witness:
  "\<exists>h. run hub_step late_broadcast (NewHub ''hub'') = Goes h \<and> hub_step (ClientMove 0 (Step 2 TakeChannel)) h = Panics SendOnClosed
    \<and> cl_isStopped (client_at 0 h)"
proof -
  let ?r = "run hub_step late_broadcast (NewHub ''hub'')"
  have "panics (run hub_step (late_broadcast @ [ClientMove 0 (Step 2 TakeChannel)]) (NewHub ''hub'')) = Some SendOnClosed"
    by code_simp
  then have p: "run hub_step (late_broadcast @ [ClientMove 0 (Step 2 TakeChannel)]) (NewHub ''hub'') = Panics SendOnClosed"
    by (simp only: panics_Some)
  have "map_option (\<lambda>h. map (\<lambda>c. length (filter is_run (cl_threads c))) (hb_heap h)) (goes ?r) = Some [1]" by code_simp
  from goes_mapD [OF this] obtain h where h: "?r = Goes h"
    and e: "map (\<lambda>c. length (filter is_run (cl_threads c))) (hb_heap h) = [1]"
    by (elim exE conjE) (rule that)
  from e have s: "\<forall>c \<in> set (hb_heap h). single_run c" by (auto simp: single_run_def map_eq_Cons_conv)
  have "hub_step (ClientMove 0 (Step 2 TakeChannel)) h = Panics SendOnClosed"
    using p unfolding run_append h by (simp add: then_go_Panics)
  with hub_panics_only_late [OF run_from_init [OF h] s this] h show ?thesis by blast
qed

end
