(* ===== verification/Ws_Hub_Ops.thy ===== *)
theory Ws_Hub_Ops imports Ws_Hub_Correct begin

text \<open>
  What the operations of a hub do, in every state it reaches: look-up and creation, broadcasts, the dispatch of an event,
  closing; and the one place where the registry and the runs disagree.
\<close>

section \<open>Looking up and creating\<close>

text \<open>
  \<open>GetOrCreateClient\<close> returns the client that is in the hub under the id. It makes one only if there is none,
  and then the new client is registered, no other entry changes, and its one run is started; otherwise it changes
  nothing. A second call with the same id gives the same client, whatever the options.
\<close>

theorem get_or_create_client:
  assumes "reaches hub_step (NewHub name) h" and "lock_free h" and "get_or_create clientID opts h = Goes (r, created, h')"
  shows "GetClient clientID h' = Some r \<and> cl_id (client_at r h') = clientID \<and> cl_hasHub (client_at r h')
    \<and> (created \<longleftrightarrow> GetClient clientID h = None)
    \<and> (\<forall>i. i \<noteq> clientID \<longrightarrow> GetClient i h' = GetClient i h)
    \<and> (if created then r = length (hb_heap h) \<and> cl_threads (client_at r h') = [RunT RunStart]
         \<and> hb_runners h' = hb_runners h @ [(r, 0)] \<and> (\<forall>r' < r. client_at r' h' = client_at r' h)
       else h' = h)
    \<and> get_or_create clientID opts' h' = Goes (r, False, h')"
  using get_or_create_effect [OF hubs.reaches_inv [OF assms(1)] assms(2,3)] .

lemma get_or_create_client_witness:
  "\<exists>h'. get_or_create ''a'' [] (NewHub ''hub'') = Goes (0, True, h') \<and> GetClient ''a'' h' = Some 0
    \<and> cl_threads (client_at 0 h') = [RunT RunStart]
    \<and> get_or_create ''a'' [WithSendBufferSize (- 1)] h' = Goes (0, False, h')"
proof -
  let ?h = "add_client 0 ((NewHub ''hub'')\<lparr>hb_heap := [new_client 256 ''a'']\<rparr>)"
  have g: "get_or_create ''a'' [] (NewHub ''hub'') = Goes (0, True, ?h)"
    by (simp add: NewHub_def get_or_create_def GetClient_def clients_Get_def
        newClientsMap_def map_get_def new_client_in_def NewClientWithID_def NewClientConfig_def)
  have l: "lock_free (NewHub ''hub'')" by (simp add: lock_free_def NewHub_def)
  note t = get_or_create_client [OF reaches_init l g, of "[WithSendBufferSize (- 1)]"]
  from t have "GetClient ''a'' ?h = Some 0" by (elim conjE)
  moreover from t have "cl_threads (client_at 0 ?h) = [RunT RunStart]" by simp
  moreover from t have "get_or_create ''a'' [WithSendBufferSize (- 1)] ?h = Goes (0, False, ?h)" by (elim conjE)
  ultimately show ?thesis using g by (intro exI [of _ ?h] conjI)
qed

section \<open>Broadcasts\<close>

lemma registered_once:
  assumes "hub_inv h"
  shows "length (filter (\<lambda>p. snd p = r) (GetAllClients h)) = (if \<exists>clientID. GetClient clientID h = Some r then 1 else 0)"
proof -
  let ?all = "GetAllClients h"
  have ok: "distinct (map fst ?all)" using assms
    by (simp add: GetAllClients_def clients_GetAll_def hub_inv_def gomap_ok_def)
  have id: "fst p = cl_id (client_at r h)" if "p \<in> set (filter (\<lambda>p. snd p = r) ?all)" for p
    using hub_all_in [OF assms, of p] that by (auto simp: in_hub_def)
  have "distinct (map fst (filter (\<lambda>p. snd p = r) ?all))" using ok by (simp add: distinct_map_filter)
  moreover have "set (map fst (filter (\<lambda>p. snd p = r) ?all)) \<subseteq> {cl_id (client_at r h)}" using id by auto
  ultimately have le: "length (filter (\<lambda>p. snd p = r) ?all) \<le> 1"
    by (metis card_mono distinct_card finite.emptyI finite.insertI length_map card_1_singleton_iff is_singletonI is_singleton_altdef)
  have "filter (\<lambda>p. snd p = r) ?all \<noteq> [] \<longleftrightarrow> (\<exists>clientID. GetClient clientID h = Some r)"
    using hub_all [OF assms, of _ r] unfolding filter_empty_conv by (metis prod.collapse snd_conv)
  with le show ?thesis by (cases "filter (\<lambda>p. snd p = r) ?all") auto
qed

lemma calls_for_sends:
  "calls_for r (map (\<lambda>r. (r, AskSend e)) rs) = replicate (count_list rs r) (PostT e PostStart)"
  by (induction rs) (auto simp: calls_for_def)

lemma filter_count: "count_list (map snd ps) r = length (filter (\<lambda>p. snd p = r) ps)"
  by (induction ps) auto

text \<open>
  C19: \<open>BroadcastToAll\<close> makes exactly one call of \<open>Send\<close> on each client that is in the hub and none on any other;
  \<open>BroadcastToSubscribers\<close> is the same, since a client accepts every type; \<open>BroadcastToClients\<close> makes on a client one
  call for each occurrence of its id in the list, ids that are not in the hub are skipped. Nothing else
  changes.
\<close>

theorem broadcast_exact:
  assumes "reaches hub_step (NewHub name) h" and "r < length (hb_heap h)"
  shows "client_at r (broadcast_to_all e h) = (client_at r h)\<lparr>cl_threads := cl_threads (client_at r h)
      @ (if \<exists>clientID. GetClient clientID h = Some r then [PostT e PostStart] else [])\<rparr>
    \<and> broadcast_to_subscribers eventType e h = broadcast_to_all e h
    \<and> client_at r (broadcast_to_clients clientIDs e h) = (client_at r h)\<lparr>cl_threads := cl_threads (client_at r h)
      @ replicate (count_list (map (\<lambda>clientID. GetClient clientID h) clientIDs) (Some r)) (PostT e PostStart)\<rparr>
    \<and> broadcast_to_all e h = h\<lparr>hb_heap := hb_heap (broadcast_to_all e h)\<rparr>
    \<and> broadcast_to_clients clientIDs e h = h\<lparr>hb_heap := hb_heap (broadcast_to_clients clientIDs e h)\<rparr>"
proof -
  have inv: "hub_inv h" using hubs.reaches_inv [OF assms(1)] .
  let ?out = "\<lambda>ks. h\<lparr>hb_heap := map (\<lambda>r. (client_at r h)\<lparr>cl_threads := cl_threads (client_at r h) @ calls_for r ks\<rparr>) [0..<length (hb_heap h)]\<rparr>"
  let ?sends = "map (\<lambda>r. (r, AskSend e))"
  have at: "client_at r (?out ks) = (client_at r h)\<lparr>cl_threads := cl_threads (client_at r h) @ calls_for r ks\<rparr>" for ks
    using assms(2) by (simp add: client_at_def [of r "?out ks"])
  have all: "broadcast_to_all e h = ?out (?sends (map snd (GetAllClients h)))"
    unfolding broadcast_to_all_calls using call_all [of "?sends (map snd (GetAllClients h))" h] hub_all_in [OF inv]
    by (force simp: in_hub_def o_def)
  have some: "broadcast_to_clients clientIDs e h = ?out (?sends (List.map_filter (\<lambda>clientID. GetClient clientID h) clientIDs))"
    unfolding broadcast_to_clients_calls using GetClient_in [OF inv]
    by (intro call_all) (auto simp: in_hub_def List.map_filter_def)
  have n: "count_list (List.map_filter f xs) r = count_list (map f xs) (Some r)" for f :: "string \<Rightarrow> nat option" and xs
    by (induction xs) (auto simp: map_filter_simps split: option.splits)
  have c: "calls_for r (?sends (map snd (GetAllClients h)))
      = (if \<exists>clientID. GetClient clientID h = Some r then [PostT e PostStart] else [])"
    using registered_once [OF inv, of r] by (simp only: calls_for_sends filter_count) simp
  have d: "calls_for r (?sends (List.map_filter (\<lambda>clientID. GetClient clientID h) clientIDs))
      = replicate (count_list (map (\<lambda>clientID. GetClient clientID h) clientIDs) (Some r)) (PostT e PostStart)"
    by (simp only: calls_for_sends n)
  show ?thesis
    by (intro conjI) (simp_all only: all some at c d broadcast_to_subscribers_all, simp_all)
qed

lemma broadcast_exact_witness:
  "\<exists>h. run hub_step [Op (GetOrCreateClient ''a'' [])] (NewHub ''hub'') = Goes h
    \<and> cl_threads (client_at 0 (broadcast_to_all one_send h)) = [RunT RunStart, PostT one_send PostStart]
    \<and> cl_threads (client_at 0 (broadcast_to_clients [''b'', ''a'', ''a''] one_send h))
        = [RunT RunStart, PostT one_send PostStart, PostT one_send PostStart]"
proof -
  let ?r = "run hub_step [Op (GetOrCreateClient ''a'' [])] (NewHub ''hub'')"
  have "(case ?r of Goes h \<Rightarrow> 0 < length (hb_heap h) \<and> cl_threads (client_at 0 h) = [RunT RunStart]
      \<and> GetClient ''a'' h = Some 0 \<and> GetClient ''b'' h = None | _ \<Rightarrow> False)"
    by code_simp
  then obtain h where h: "?r = Goes h" and l: "0 < length (hb_heap h)" and t: "cl_threads (client_at 0 h) = [RunT RunStart]"
    and g: "GetClient ''a'' h = Some 0" "GetClient ''b'' h = None"
    by (auto split: Go_Sync.outcome.splits)
  have "reaches hub_step (NewHub ''hub'') h" by (rule run_from_init [OF h])
  note b = broadcast_exact [OF this l, of one_send "''x''" "[''b'', ''a'', ''a'']"]
  from b have "cl_threads (client_at 0 (broadcast_to_all one_send h)) = [RunT RunStart, PostT one_send PostStart]"
    using t g by auto
  moreover from b have "cl_threads (client_at 0 (broadcast_to_clients [''b'', ''a'', ''a''] one_send h))
        = [RunT RunStart, PostT one_send PostStart, PostT one_send PostStart]"
    using t g by (simp add: numeral_2_eq_2)
  ultimately show ?thesis using h by blast
qed

section \<open>Closing\<close>

text \<open>
  C20: while \<open>Close\<close> waits, no client can be added, and it goes on only when every run has ended; then the registry is empty.
  Before that it has closed the channel of the hub, and asked every client that is in it to stop.
\<close>

theorem close_empties_hub:
  assumes "reaches hub_step (NewHub name) h"
  shows "(\<forall>h'. hub_step (Op Close) h = Goes h' \<and> \<not> hb_done h \<longrightarrow> hb_done h' \<and> \<not> lock_free h'
      \<and> (\<forall>clientID r. GetClient clientID h = Some r \<longrightarrow>
          CloseT CloseCheck \<in> set (cl_threads (client_at r h')) \<and> cl_hubDone (client_at r h')))
    \<and> (\<forall>h'. hub_step CloseGoesOn h = Goes h' \<longrightarrow> GetAllClients h' = [] \<and> hb_runners h = [] \<and> hb_done h')
    \<and> (\<not> lock_free h \<longrightarrow> (\<forall>r clientID opts. hub_step (Op (AddClient r)) h = Blocks
        \<and> hub_step (Op (GetOrCreateClient clientID opts)) h = Blocks \<and> hub_step (Op Close) h = Blocks))"
proof (intro conjI allI impI)
  have inv: "hub_inv h" using hubs.reaches_inv [OF assms] .
  {
    fix h' assume c: "hub_step (Op Close) h = Goes h' \<and> \<not> hb_done h"
    let ?ks = "map (\<lambda>p. (snd p, AskStop :: event call)) (GetAllClients h)"
    have valid: "\<forall>p \<in> set ?ks. fst p < length (hb_heap (closed_heap h))"
      using hub_all_in [OF inv] by (auto simp: in_hub_def closed_heap_def)
    have "h' = close_hub h" using c by (auto simp: hub_step_def hub_do_def split: if_splits)
    then have h': "h' = (closed_heap h)\<lparr>hb_heap := map (\<lambda>r. (client_at r (closed_heap h))
        \<lparr>cl_threads := cl_threads (client_at r (closed_heap h)) @ calls_for r ?ks\<rparr>) [0..<length (hb_heap (closed_heap h))]\<rparr>"
      using close_hub_calls call_all [OF valid] c by simp
    show "hb_done h'" "\<not> lock_free h'" by (simp_all add: h' closed_heap_def lock_free_def)
    fix clientID r assume g: "GetClient clientID h = Some r"
    then have r: "r < length (hb_heap h)" "cl_hasHub (client_at r h)" using GetClient_in [OF inv g] by (simp_all add: in_hub_def)
    have "(r, AskStop) \<in> set ?ks" using hub_all [OF inv] g by force
    then have "CloseT CloseCheck \<in> set (calls_for r ?ks)" by (force simp: calls_for_def)
    then show "CloseT CloseCheck \<in> set (cl_threads (client_at r h'))" "cl_hubDone (client_at r h')"
      using r by (simp_all add: h' client_at_def closed_heap_def)
  }
  {
    fix h' assume c: "hub_step CloseGoesOn h = Goes h'"
    then obtain ids where ids: "hb_closing h = HubWaiting ids" "hb_runners h = []"
      and h': "h' = h\<lparr>hb_clients := foldl (\<lambda>cm k. snd (clients_Remove k cm)) (hb_clients h) ids, hb_closing := HubClosed\<rparr>"
      by (auto simp: hub_step_def close_goes_on_def split: hub_closing.splits if_splits)
    have all: "fst ` set (hb_clients h) \<subseteq> set ids" using inv ids(1) by (simp add: hub_inv_def)
    have "p \<notin> set (hb_clients h')" for p
      using subsetD [OF remove_all_subset [of "hb_clients h" ids], of p] all by (auto simp: h')
    then have "hb_clients h' = []" by (metis list.set_intros(1) neq_Nil_conv)
    then show "GetAllClients h' = []" by (simp add: GetAllClients_def clients_GetAll_def)
    show "hb_runners h = []" by fact
    show "hb_done h'" using inv ids(1) by (auto simp: h' hub_inv_def)
  }
qed (simp_all add: hub_step_def hub_do_def)

lemma close_empties_hub_witness:
  "\<exists>h'. hub_step (Op Close) (NewHub ''hub'') = Goes h' \<and> hb_done h' \<and> \<not> lock_free h'"
proof -
  have "hub_step (Op Close) (NewHub ''hub'') = Goes (close_hub (NewHub ''hub''))" "\<not> hb_done (NewHub ''hub'')"
    by (simp_all add: hub_step_def hub_do_def lock_free_def NewHub_def)
  with close_empties_hub [OF reaches_init, of "''hub''"] show ?thesis by blast
qed

section \<open>Events\<close>

text \<open>
  An event goes to the handler registered last for its type, and to none when there is none. The echo handler
  answers the client the request came from and only it, with one event of type \<open>echo.reply\<close> that carries the
  data of the request (a request without data is answered with \<open>null\<close>) and names the request as its
  trigger.
\<close>

theorem echo_reply:
  assumes "r < length (hb_heap h)" and "cl_hasHub (client_at r h)" and "ev_Type e = EventTypeEchoRequest"
    and "h' = h\<lparr>hb_handlers := ehm_Add EventTypeEchoRequest (EventTypeEchoRequestHandler uuid now st) (hb_handlers h)\<rparr>"
  shows "\<exists>reply. ProcessEvent r e h' = Goes (call_client r (AskSend reply) h')
    \<and> ev_Type reply = EventTypeEchoReply \<and> ev_TriggeredBy reply = Some (ev_ID e) \<and> ev_ID reply = uuid
    \<and> ev_Data reply = Some (case ev_Data e of Some j \<Rightarrow> j | None \<Rightarrow> JNull)
    \<and> ProcessEvent r e (h'\<lparr>hb_handlers := ehm_Remove EventTypeEchoRequest (hb_handlers h')\<rparr>)
        = Goes (h'\<lparr>hb_handlers := ehm_Remove EventTypeEchoRequest (hb_handlers h')\<rparr>)"
proof -
  let ?data = "case ev_Data e of Some j \<Rightarrow> Encodable j | None \<Rightarrow> Encodable JNull"
  let ?reply = "SetTriggeredBy (ev_ID e) (fst (NewEvent uuid now EventTypeEchoReply ?data st))"
  have "ProcessEvent r e h' = Goes (call_client r (AskSend ?reply) h')"
    using assms by (simp add: ProcessEvent_def event_handlers.get_add EventTypeEchoRequestHandler_def Let_def hub_do_def client_at_def)
  moreover have "ProcessEvent r e (h'\<lparr>hb_handlers := ehm_Remove EventTypeEchoRequest (hb_handlers h')\<rparr>)
        = Goes (h'\<lparr>hb_handlers := ehm_Remove EventTypeEchoRequest (hb_handlers h')\<rparr>)"
    using assms(3) by (simp add: ProcessEvent_def event_handlers.get_del)
  ultimately show ?thesis
    by (intro exI [of _ ?reply])
      (simp add: SetTriggeredBy_def NewEvent_def newEventMetadataMap_def Let_def split: option.splits)
qed

lemma echo_reply_witness:
  "\<exists>h r e reply. ProcessEvent r e h = Goes (call_client r (AskSend reply) h) \<and> ev_Data reply = Some (JStr ''hi'')
    \<and> ev_TriggeredBy reply = Some ''id1''"
proof -
  let ?h = "(NewHub ''hub'')\<lparr>hb_heap := [hub_client 4 ''a'']\<rparr>"
  let ?e = "zero_event\<lparr>ev_ID := ''id1'', ev_Type := EventTypeEchoRequest, ev_Data := Some (JStr ''hi'')\<rparr>"
  have "0 < length (hb_heap ?h)" "cl_hasHub (client_at 0 ?h)" "ev_Type ?e = EventTypeEchoRequest"
    by (simp_all add: client_at_def hub_client_def SetHub_def)
  from echo_reply [OF this refl, of "''u''" 0 "[]"] show ?thesis by force
qed

section \<open>A run that ends late\<close>

text \<open>
  The goroutine of a run takes its client out of the registry by id when the run has ended. If the client was removed
  before, and a new one made under the same id meanwhile, it is the new one that is taken out: it goes on running,
  its connections are open, but no broadcast reaches it.
\<close>

definition stale_run :: "hub_move list" where
  "stale_run = [Op (GetOrCreateClient ''a'' [])] @ hub_steps 5 0 0 TakeChannel
     @ [Op (RemoveClient ''a''), Op (GetOrCreateClient ''a'' [])] @ hub_steps 5 1 0 TakeChannel
     @ hub_steps 10 0 2 TakeChannel @ hub_steps 6 0 0 TakeDone @ [RunnerEnds 0]"

lemma stale_run_removes_new_client:
  "map_option (\<lambda>h. (GetClient ''a'' h, cl_isRunning (client_at 1 h), cl_isStopped (client_at 1 h),
      map (\<lambda>c. length (cl_threads c)) (hb_heap (broadcast_to_all one_send h))))
     (goes (run hub_step stale_run (NewHub ''hub''))) = Some (None, True, False, [3, 2])"
  by code_simp

end
