(* ===== verification/Go_Query.thy ===== *)
theory Go_Query imports Go_Url "HOL-Library.Char_ord" "HOL-Library.List_Lexorder" begin

text \<open>
  Query strings of \<open>net/url\<close>: \<open>Values\<close>, \<open>ParseQuery\<close> as \<open>URL.Query\<close> uses it (a pair that cannot be decoded is
  skipped) and \<open>Encode\<close> (the keys sorted, the values of a key in order). The lemma \<open>query_roundtrip\<close> is
  that parsing gives back, for each key, the values that were encoded.
\<close>

type_synonym url_values = "(string, string list) gomap"

definition values_all :: "url_values \<Rightarrow> string \<Rightarrow> string list" where
  "values_all q k = (case map_get q k of Some vs \<Rightarrow> vs | None \<Rightarrow> [])"

definition values_get :: "url_values \<Rightarrow> string \<Rightarrow> string" where
  "values_get q k = (case values_all q k of v # vs \<Rightarrow> v | [] \<Rightarrow> [])"

definition values_set :: "url_values \<Rightarrow> string \<Rightarrow> string \<Rightarrow> url_values" where
  "values_set q k v = map_set q k [v]"

definition values_add :: "url_values \<Rightarrow> string \<Rightarrow> string \<Rightarrow> url_values" where
  "values_add q k v = map_set q k (values_all q k @ [v])"

definition amp :: char where
  "amp = CHR 0x26"

definition equals :: char where
  "equals = CHR 0x3D"

definition plus_to_space :: "string \<Rightarrow> string" where
  "plus_to_space s = map (\<lambda>c. if c = CHR 0x2B then CHR 0x20 else c) s"

definition QueryUnescape :: "string \<Rightarrow> string option" where
  "QueryUnescape s = unescape EncPath (plus_to_space s)"

definition query_byte :: "char \<Rightarrow> bool" where
  "query_byte c \<longleftrightarrow> is_letter c \<or> is_digit c \<or> c \<in> set ''-_.~''"

fun QueryEscape :: "string \<Rightarrow> string" where
  "QueryEscape [] = []"
| "QueryEscape (c # r) =
     (if query_byte c then c # QueryEscape r
      else if c = CHR 0x20 then CHR 0x2B # QueryEscape r
      else CHR 0x25 # hex_digit (code c div 16) # hex_digit (code c mod 16) # QueryEscape r)"

definition parse_pair :: "string \<Rightarrow> (string \<times> string) option" where
  "parse_pair s =
     (if CHR 0x3B \<in> set s \<or> s = [] then None
      else let (k, v, found) = str_cut equals s
           in case (QueryUnescape k, QueryUnescape v) of (Some k', Some v') \<Rightarrow> Some (k', v') | _ \<Rightarrow> None)"

definition ParseQuery :: "string \<Rightarrow> url_values" where
  "ParseQuery s = foldl (\<lambda>q (k, v). values_add q k v) [] (List.map_filter parse_pair (split_on amp s))"

definition value_pairs :: "url_values \<Rightarrow> (string \<times> string) list" where
  "value_pairs q = concat (map (\<lambda>(k, vs). map (\<lambda>v. (k, v)) vs) (sort_key fst q))"

definition values_Encode :: "url_values \<Rightarrow> string" where
  "values_Encode q = str_join [amp] (map (\<lambda>(k, v). QueryEscape k @ equals # QueryEscape v) (value_pairs q))"

section \<open>Round trip\<close>

definition encoded_byte :: "char \<Rightarrow> bool" where
  "encoded_byte c \<longleftrightarrow> query_byte c \<or> c = CHR 0x2B \<or> c = CHR 0x25"

lemma hex_digit_byte:
  assumes "n < 16"
  shows "is_letter (hex_digit n) \<or> is_digit (hex_digit n)"
proof -
  have "code (hex_digit n) = (if n < 10 then n + 48 else n + 55)" using assms by (simp add: code_def hex_digit_def)
  with assms show ?thesis by (auto simp: is_letter_def is_digit_def)
qed

lemma code_nibbles: "code c div 16 < 16" "code c mod 16 < 16"
  using code_bound [of c] by auto

lemma encoded_hex [simp]: "n < 16 \<Longrightarrow> encoded_byte (hex_digit n)"
  using hex_digit_byte [of n] by (auto simp: encoded_byte_def query_byte_def)

lemma QueryEscape_bytes: "list_all encoded_byte (QueryEscape s)"
proof (induction s)
  case (Cons c s)
  moreover have "query_byte c \<Longrightarrow> encoded_byte c" "encoded_byte (CHR 0x2B)" "encoded_byte (CHR 0x25)"
    by (simp_all add: encoded_byte_def)
  ultimately show ?case by (simp add: code_nibbles)
qed simp

lemma encoded_byte_not:
  assumes "encoded_byte c"
  shows "c \<noteq> amp" "c \<noteq> equals" "c \<noteq> CHR 0x3B" "c \<noteq> CHR 0x23" "32 < code c" "code c < 127"
  using assms
  by (auto simp: encoded_byte_def query_byte_def is_letter_def is_digit_def code_def amp_def equals_def)

lemma QueryEscape_no: "\<not> encoded_byte c \<Longrightarrow> c \<notin> set (QueryEscape s)"
  using QueryEscape_bytes [of s] by (auto simp: list_all_iff)

lemma query_byte_plain: "query_byte c \<Longrightarrow> c \<noteq> CHR 0x2B \<and> c \<noteq> CHR 0x25"
  by (auto simp: query_byte_def is_letter_def is_digit_def code_def)

lemma hex_not_plus: "n < 16 \<Longrightarrow> hex_digit n \<noteq> CHR 0x2B"
  using hex_digit_byte [of n] by (auto simp: is_letter_def is_digit_def code_def)

lemma QueryUnescape_Escape [simp]: "QueryUnescape (QueryEscape s) = Some s"
proof (induction s)
  case (Cons c s)
  have "char_of (16 * (code c div 16) + code c mod 16) = c" by (simp add: code_def)
  with Cons show ?case
    by (auto simp: QueryUnescape_def plus_to_space_def query_byte_plain hex_not_plus unhex_hex_digit code_nibbles)
qed (simp add: QueryUnescape_def plus_to_space_def)

lemma parse_pair_encoded: "parse_pair (QueryEscape k @ equals # QueryEscape v) = Some (k, v)"
proof -
  have "\<not> encoded_byte equals" "\<not> encoded_byte (CHR 0x3B)" using encoded_byte_not by blast+
  then have "equals \<notin> set (QueryEscape k)" "CHR 0x3B \<notin> set (QueryEscape k @ equals # QueryEscape v)"
    by (auto simp: QueryEscape_no equals_def)
  then show ?thesis by (simp add: parse_pair_def str_cut_append)
qed

lemma foldl_values_add:
  "values_all (foldl (\<lambda>q (k, v). values_add q k v) q ps) k = values_all q k @ map snd (filter (\<lambda>p. fst p = k) ps)"
  by (induction ps arbitrary: q) (auto simp: values_add_def values_all_def)

lemma split_encoded:
  assumes "value_pairs q \<noteq> []"
  shows "split_on amp (values_Encode q) = map (\<lambda>(k, v). QueryEscape k @ equals # QueryEscape v) (value_pairs q)"
proof -
  have "\<not> encoded_byte amp" using encoded_byte_not by blast
  then have "amp \<notin> set (QueryEscape k @ equals # QueryEscape v)" for k v
    by (auto simp: QueryEscape_no equals_def amp_def)
  with assms show ?thesis unfolding values_Encode_def by (intro split_on_str_join) auto
qed

lemma map_filter_parse: "List.map_filter parse_pair (map (\<lambda>(k, v). QueryEscape k @ equals # QueryEscape v) ps) = ps"
  by (induction ps) (auto simp: map_filter_simps parse_pair_encoded)

lemma values_of_pairs:
  assumes "distinct (map fst m)"
  shows "map snd (filter (\<lambda>p. fst p = k) (concat (map (\<lambda>(k, vs). map (\<lambda>v. (k, v)) vs) m)))
    = (case map_of m k of Some vs \<Rightarrow> vs | None \<Rightarrow> [])"
  using assms
proof (induction m)
  case (Cons p m)
  obtain k' vs where p: "p = (k', vs)" by (cases p)
  have "map snd (filter (\<lambda>p. fst p = k) (map (\<lambda>v. (k', v)) vs)) = (if k' = k then vs else [])"
    by (induction vs) auto
  moreover have "map_of m k' = None" using Cons.prems p by (simp add: map_of_eq_None_iff)
  ultimately show ?case using Cons p by auto
qed simp

lemma query_roundtrip:
  assumes "gomap_ok q"
  shows "values_all (ParseQuery (values_Encode q)) k = values_all q k"
proof -
  have all: "map snd (filter (\<lambda>p. fst p = k) (value_pairs q)) = values_all q k"
  proof -
    have "distinct (map fst (sort_key fst q))" using gomap_ok_sort [OF assms] by (simp add: gomap_ok_def)
    moreover have "map_get (sort_key fst q) = map_get q" using assms by (intro map_get_perm) (simp_all add: gomap_ok_sort)
    then have "map_of (sort_key fst q) = map_of q" by (simp add: map_get_def [abs_def] fun_eq_iff)
    ultimately show ?thesis
      using values_of_pairs [of "sort_key fst q" k] by (simp add: value_pairs_def values_all_def map_get_def)
  qed
  show ?thesis
  proof (cases "value_pairs q = []")
    case True
    then have "ParseQuery (values_Encode q) = []" by (simp add: values_Encode_def ParseQuery_def parse_pair_def map_filter_simps)
    with True all show ?thesis by (simp add: values_all_def map_get_def)
  next
    case False
    then show ?thesis
      unfolding ParseQuery_def split_encoded [OF False] map_filter_parse foldl_values_add all by (simp add: values_all_def map_get_def)
  qed
qed

lemma set_str_join: "c \<in> set (str_join [s] xs) \<Longrightarrow> c = s \<or> (\<exists>x \<in> set xs. c \<in> set x)"
  by (induction xs rule: induct_list012) auto

lemma values_Encode_bytes:
  assumes "c \<in> set (values_Encode q)"
  shows "encoded_byte c \<or> c = amp \<or> c = equals"
proof -
  from set_str_join [OF assms [unfolded values_Encode_def]]
  consider "c = amp" | p where "c \<in> set (QueryEscape (fst p) @ equals # QueryEscape (snd p))"
    unfolding set_map split_def by blast
  then show ?thesis
  proof cases
    case 2
    with QueryEscape_bytes [of "fst p"] QueryEscape_bytes [of "snd p"] show ?thesis by (auto simp: list_all_iff)
  qed simp
qed

lemma values_ok: "gomap_ok q \<Longrightarrow> gomap_ok (values_add q k v)" "gomap_ok q \<Longrightarrow> gomap_ok (values_set q k v)"
  by (simp_all add: values_add_def values_set_def)

lemma foldl_add_ok: "gomap_ok q \<Longrightarrow> gomap_ok (foldl (\<lambda>q (k, v). values_add q k v) q ps)"
proof (induction ps arbitrary: q)
  case (Cons p ps)
  then have "gomap_ok (values_add q (fst p) (snd p))" by (simp add: values_ok)
  from Cons.IH [OF this] show ?case by (simp add: split_def)
qed simp

lemma ParseQuery_ok: "gomap_ok (ParseQuery s)"
  unfolding ParseQuery_def by (rule foldl_add_ok) simp

end
