(* ===== verification/Ws_Upgrade.thy ===== *)
theory Ws_Upgrade imports Go_Query Middleware_Core Ws_Hub_Correct begin

text \<open>
  The HTTP side of the hub: the configuration of an upgrade (\<open>dabluvee-es/upgrade_handler_config.go\<close>,
  \<open>upgrade_handler_options.go\<close>, \<open>wshub/handler_config.go\<close>) and \<open>UpgradeHandler\<close> (\<open>wshub/upgrade_handler.go\<close>). The
  handshake itself is gorilla's: \<open>upgrader config r\<close> says whether it succeeds, and all that is relied on is
  its documented rule that a request \<open>CheckOrigin\<close> refuses is not upgraded. \<open>uuid_parse\<close> is the parser of the \<open>uuid\<close>
  package, \<open>fresh\<close> and \<open>connID\<close> the UUIDs it makes. The writes of the handshake and log lines are left out.
\<close>

section \<open>Configuration\<close>

record upgrade_config =
  uc_ReadBufferSize :: int
  uc_WriteBufferSize :: int
  uc_HandshakeTimeout :: int
  uc_CheckOrigin :: "request \<Rightarrow> bool"
  uc_Subprotocols :: "string list"
  uc_EnableCompression :: bool

type_synonym upgrade_option = "upgrade_config \<Rightarrow> upgrade_config"

definition NewUpgradeHandlerConfig :: "bool \<Rightarrow> upgrade_config" where
  "NewUpgradeHandlerConfig devMode =
     \<lparr>uc_ReadBufferSize = 1024, uc_WriteBufferSize = 1024, uc_HandshakeTimeout = 45000000000,
      uc_CheckOrigin = GetDefaultWebSocketCheckOrigin devMode, uc_Subprotocols = [], uc_EnableCompression = False\<rparr>"

definition WithUpgradeHandlerBufferSizes :: "int \<Rightarrow> int \<Rightarrow> upgrade_option" where
  "WithUpgradeHandlerBufferSizes read write c = c\<lparr>uc_ReadBufferSize := read, uc_WriteBufferSize := write\<rparr>"

definition WithUpgradeHandlerHandshakeTimeout :: "int \<Rightarrow> upgrade_option" where
  "WithUpgradeHandlerHandshakeTimeout timeout c = c\<lparr>uc_HandshakeTimeout := timeout\<rparr>"

definition WithUpgradeHandlerCompression :: "bool \<Rightarrow> upgrade_option" where
  "WithUpgradeHandlerCompression enable c = c\<lparr>uc_EnableCompression := enable\<rparr>"

definition WithUpgradeHandlerSubprotocols :: "string list \<Rightarrow> upgrade_option" where
  "WithUpgradeHandlerSubprotocols protocols c = c\<lparr>uc_Subprotocols := protocols\<rparr>"

definition WithUpgradeHandlerCheckOrigin :: "(request \<Rightarrow> bool) \<Rightarrow> upgrade_option" where
  "WithUpgradeHandlerCheckOrigin checkOrigin c = c\<lparr>uc_CheckOrigin := checkOrigin\<rparr>"

text \<open>The hub's own configuration has the shared one inside, and lifts its options.\<close>

record hub_upgrade_config =
  hc_shared :: upgrade_config
  hc_ClientOptions :: "client_option list"

type_synonym hub_upgrade_option = "hub_upgrade_config \<Rightarrow> hub_upgrade_config"

definition wshub_NewUpgradeHandlerConfig :: "bool \<Rightarrow> hub_upgrade_config" where
  "wshub_NewUpgradeHandlerConfig devMode = \<lparr>hc_shared = NewUpgradeHandlerConfig devMode, hc_ClientOptions = []\<rparr>"

definition WithUpgradeHandlerClientOptions :: "client_option list \<Rightarrow> hub_upgrade_option" where
  "WithUpgradeHandlerClientOptions opts c = c\<lparr>hc_ClientOptions := hc_ClientOptions c @ opts\<rparr>"

definition wshub_WithUpgradeHandlerBufferSizes :: "int \<Rightarrow> int \<Rightarrow> hub_upgrade_option" where
  "wshub_WithUpgradeHandlerBufferSizes read write c = c\<lparr>hc_shared := WithUpgradeHandlerBufferSizes read write (hc_shared c)\<rparr>"

definition wshub_WithUpgradeHandlerHandshakeTimeout :: "int \<Rightarrow> hub_upgrade_option" where
  "wshub_WithUpgradeHandlerHandshakeTimeout timeout c = c\<lparr>hc_shared := WithUpgradeHandlerHandshakeTimeout timeout (hc_shared c)\<rparr>"

definition wshub_WithUpgradeHandlerCompression :: "bool \<Rightarrow> hub_upgrade_option" where
  "wshub_WithUpgradeHandlerCompression enable c = c\<lparr>hc_shared := WithUpgradeHandlerCompression enable (hc_shared c)\<rparr>"

definition wshub_WithUpgradeHandlerSubprotocols :: "string list \<Rightarrow> hub_upgrade_option" where
  "wshub_WithUpgradeHandlerSubprotocols protocols c = c\<lparr>hc_shared := WithUpgradeHandlerSubprotocols protocols (hc_shared c)\<rparr>"

definition wshub_WithUpgradeHandlerCheckOrigin :: "(request \<Rightarrow> bool) \<Rightarrow> hub_upgrade_option" where
  "wshub_WithUpgradeHandlerCheckOrigin checkOrigin c = c\<lparr>hc_shared := WithUpgradeHandlerCheckOrigin checkOrigin (hc_shared c)\<rparr>"

section \<open>The client's id\<close>

definition extractClientIDFromRequest :: "request \<Rightarrow> string" where
  "extractClientIDFromRequest r =
     (let clientID = values_get (ParseQuery (rq_RawQuery r)) ''clientID''
      in if clientID \<noteq> [] then clientID else hdr_get (rq_Header r) HeaderNameXClientID)"

definition parseClientID :: "(string \<Rightarrow> string option) \<Rightarrow> string \<Rightarrow> string \<Rightarrow> string" where
  "parseClientID uuid_parse fresh clientID = (case uuid_parse clientID of Some u \<Rightarrow> u | None \<Rightarrow> fresh)"

section \<open>The handler\<close>

definition UpgradeHandler ::
    "bool \<Rightarrow> (upgrade_config \<Rightarrow> request \<Rightarrow> bool) \<Rightarrow> (string \<Rightarrow> string option) \<Rightarrow> hub_upgrade_option list
     \<Rightarrow> string \<Rightarrow> string \<Rightarrow> request \<Rightarrow> hub \<Rightarrow> hub Go_Sync.outcome" where
  "UpgradeHandler devMode upgrader uuid_parse opts fresh connID r h =
     (let config = foldl (\<lambda>c opt. opt c) (wshub_NewUpgradeHandlerConfig devMode) opts
      in if \<not> upgrader (hc_shared config) r then Goes h
         else let clientID = extractClientIDFromRequest r
              in if clientID \<noteq> []
                 then if lock_free h
                      then then_go (get_or_create (parseClientID uuid_parse fresh clientID) (hc_ClientOptions config) h)
                             (\<lambda>(client, wasCreated, h'). Goes (call_client client (AskAddConnection connID) h'))
                      else Blocks
                 else then_go (new_client_in fresh (hc_ClientOptions config) h)
                        (\<lambda>(client, h'). if lock_free h' then Goes (call_client client (AskAddConnection connID) (add_client client h'))
                                        else Blocks))"

definition requested_id :: "(string \<Rightarrow> string option) \<Rightarrow> string \<Rightarrow> request \<Rightarrow> string" where
  "requested_id uuid_parse fresh r =
     (if extractClientIDFromRequest r = [] then fresh else parseClientID uuid_parse fresh (extractClientIDFromRequest r))"

text \<open>Whether the origin a browser sends is the host the request is for.\<close>

definition names_host :: "request \<Rightarrow> bool" where
  "names_host r =
     (case url_parse (hdr_get (rq_Header r) HeaderNameOrigin) of
        None \<Rightarrow> False
      | Some u \<Rightarrow> equal_fold (u_Host u) (rq_Host r))"

lemma call_joined:
  assumes "c < length (hb_heap h)"
  shows "GetClient i (call_client c (AskAddConnection connID) h) = GetClient i h"
    and "cl_threads (client_at c (call_client c (AskAddConnection connID) h)) = cl_threads (client_at c h) @ [AddT connID AddCheck]"
    and "cl_hasHub (client_at c (call_client c (AskAddConnection connID) h)) = cl_hasHub (client_at c h)"
  using assms by (simp_all add: GetClient_def client_at_call)



end
