(* ===== verification/Ws_Bridge.thy ===== *)
theory Ws_Bridge imports Go_Path Ws_Upgrade Ws_Event begin

text \<open>
  The bridge from a WebSocket to two Unix sockets (\<open>dabluvee-es/wsunixbridge\<close>): what comes in over the WebSocket is
  written to every client of the output socket, and what the clients of the input socket send goes out over the
  WebSocket. The first half is the set-up, a function on the listeners and socket files of the system; the second is
  one bridge as the interleaving of its goroutines: the one that reads the WebSocket and cleans up, one that accepts
  on each socket, and one for each client. A goroutine is a program counter, a step one access to shared state (a
  section under a mutex is one step), and what peers and system do is part of the move. The user's own
  \<open>ConnectionHandler\<close> and log lines are left out.
\<close>

section \<open>Set-up\<close>

definition writerUnixSockSuffix :: string where
  "writerUnixSockSuffix = ''_output''"

definition readerUnixSockSuffix :: string where
  "readerUnixSockSuffix = ''_input''"

definition bufferSize :: nat where
  "bufferSize = 4096"

definition EventTypeWSUnixBridgeInitialized :: string where
  "EventTypeWSUnixBridgeInitialized = ''wsunixbridge.init''"

text \<open>The files there are, the paths a listener is bound to, and the operations that fail.\<close>

record os =
  os_files :: "string list"
  os_listening :: "string list"

record sock_faults =
  fails_mkdir :: "string \<Rightarrow> bool"
  fails_remove :: "string \<Rightarrow> bool"
  fails_listen :: "string \<Rightarrow> bool"

definition os_Remove :: "sock_faults \<Rightarrow> string \<Rightarrow> os \<Rightarrow> os" where
  "os_Remove faults p w = (if fails_remove faults p then w else w\<lparr>os_files := removeAll p (os_files w)\<rparr>)"

text \<open>A path that is taken, by whatever file, cannot be bound.\<close>

definition net_Listen :: "sock_faults \<Rightarrow> string \<Rightarrow> os \<Rightarrow> os option" where
  "net_Listen faults p w =
     (if fails_listen faults p \<or> p \<in> set (os_files w) then None
      else Some (w\<lparr>os_files := p # os_files w, os_listening := p # os_listening w\<rparr>))"

text \<open>A socket of a connection: the address of its listener (\<open>None\<close> is nil) and its path.\<close>

record sock_setup =
  sk_Listener :: "string option"
  sk_Path :: string

record bridge_conn =
  bn_ID :: string
  bn_Writer :: sock_setup
  bn_Reader :: sock_setup

text \<open>A failing \<open>os.Chmod\<close> is only logged.\<close>

definition createUnixSockets :: "sock_faults \<Rightarrow> string \<Rightarrow> string \<Rightarrow> bridge_conn \<Rightarrow> os \<Rightarrow> string option \<times> bridge_conn \<times> os" where
  "createUnixSockets faults socketsDir connID conn w =
     (let basePath = path_join [socketsDir, connID];
          outputPath = basePath @ writerUnixSockSuffix;
          inputPath = basePath @ readerUnixSockSuffix;
          w0 = os_Remove faults inputPath (os_Remove faults outputPath w)
      in case net_Listen faults outputPath w0 of
           None \<Rightarrow> (Some ''failed to create WriterUnixSock socket'', conn, w0)
         | Some w1 \<Rightarrow>
             (let conn1 = conn\<lparr>bn_Writer := \<lparr>sk_Listener = Some outputPath, sk_Path = outputPath\<rparr>\<rparr>
              in case net_Listen faults inputPath w1 of
                   None \<Rightarrow> (Some ''failed to create ReaderUnixSock socket'', conn1, w1)
                 | Some w2 \<Rightarrow> (None, conn1\<lparr>bn_Reader := \<lparr>sk_Listener = Some inputPath, sk_Path = inputPath\<rparr>\<rparr>, w2)))"

definition init_data :: "bridge_conn \<Rightarrow> json" where
  "init_data conn = JObj [(''writerSocket'', json_string (sk_Path (bn_Writer conn))),
     (''readerSocket'', json_string (sk_Path (bn_Reader conn)))]"

section \<open>A bridge at work\<close>

text \<open>
  A client of a socket is known by its place among all that were accepted there. \<open>bc_joined\<close> (how many frames had been
  handed on when it joined), \<open>bc_writes\<close> (what was written to it, and whether the write worked) and \<open>bc_read\<close> (what
  was read from it) record what happened, for the statements.
\<close>

datatype handler_pc =
    HandlerOff | HandlerSelect | HandlerRead | HandlerLock string | HandlerWrite string | HandlerUnlock bool
  | HandlerClose | HandlerRemove | HandlerEnd

record bridge_client =
  bc_open :: bool
  bc_pc :: handler_pc
  bc_joined :: nat
  bc_writes :: "(string \<times> bool) list"
  bc_read :: string

datatype accept_pc = AcceptSelect | AcceptWait | AcceptAppend nat | AcceptStart nat | AcceptEnd

record unix_sock =
  us_Path :: string
  us_listening :: bool
  us_file :: bool
  us_removable :: bool
  us_Clients :: "nat list"
  us_conns :: "bridge_client list"
  us_accept :: accept_pc

datatype main_pc =
    MainStore | MainRead | MainSnapshot string | MainWrite string "nat list" | MainCancel | MainGet
  | MainCloseWriters | MainCloseReaders | MainCloseWriterListener | MainCloseReaderListener
  | MainRemoveWriterFile | MainRemoveReaderFile | MainDelete | MainEnd

text \<open>
  \<open>br_WriteMu\<close> is whether the mutex is held, \<open>br_registered\<close> whether the global map holds the connection,
  \<open>br_frames\<close> what was handed to \<open>Broadcast\<close> and \<open>br_sent\<close> what clients got written to the WebSocket.
\<close>

record bridge =
  br_ID :: string
  br_writer :: unix_sock
  br_reader :: unix_sock
  br_main :: main_pc
  br_cancelled :: bool
  br_registered :: bool
  br_WriteMu :: bool
  br_wsOpen :: bool
  br_frames :: "string list"
  br_sent :: "(nat \<times> string) list"

definition new_sock :: "sock_faults \<Rightarrow> string \<Rightarrow> unix_sock" where
  "new_sock faults p =
     \<lparr>us_Path = p, us_listening = True, us_file = True, us_removable = (\<not> fails_remove faults p), us_Clients = [],
      us_conns = [], us_accept = AcceptSelect\<rparr>"

definition start_bridge :: "sock_faults \<Rightarrow> bridge_conn \<Rightarrow> bridge" where
  "start_bridge faults conn =
     \<lparr>br_ID = bn_ID conn, br_writer = new_sock faults (sk_Path (bn_Writer conn)),
      br_reader = new_sock faults (sk_Path (bn_Reader conn)), br_main = MainStore, br_cancelled = False,
      br_registered = False, br_WriteMu = False, br_wsOpen = True, br_frames = [], br_sent = []\<rparr>"

text \<open>\<open>writes j\<close> is whether the client can be sent the text of \<open>j\<close>.\<close>

definition setupConnection ::
    "sock_faults \<Rightarrow> (json \<Rightarrow> bool) \<Rightarrow> string \<Rightarrow> string \<Rightarrow> string \<Rightarrow> 64 word \<Rightarrow> os \<Rightarrow> (string + bridge) \<times> os" where
  "setupConnection faults writes socketsDir connID eventID now w =
     (if fails_mkdir faults socketsDir then (Inl ''failed to create sockets directory'', w)
      else let nil_sock = \<lparr>sk_Listener = None, sk_Path = []\<rparr>;
               (err, conn, w1) = createUnixSockets faults socketsDir connID
                 \<lparr>bn_ID = connID, bn_Writer = nil_sock, bn_Reader = nil_sock\<rparr> w
           in case err of
                Some e \<Rightarrow> (Inl e, w1)
              | None \<Rightarrow>
                  (let (event, st) = NewEvent eventID now EventTypeWSUnixBridgeInitialized (Encodable (init_data conn)) []
                   in if writes (event_json st event) then (Inr (start_bridge faults conn), w1)
                      else (Inl ''failed to send initialization event'', w1)))"

text \<open>
  The handler's result: nothing was upgraded, a WebSocket that was closed again after the error, or a bridge.
  \<open>upgrader\<close> is the handshake.
\<close>

datatype bridge_result = NotUpgraded | ClosedAfter string | Bridged bridge

definition handleConnection ::
    "(upgrade_config \<Rightarrow> request \<Rightarrow> bool) \<Rightarrow> upgrade_config \<Rightarrow> sock_faults \<Rightarrow> (json \<Rightarrow> bool) \<Rightarrow> string \<Rightarrow> string \<Rightarrow> string
     \<Rightarrow> 64 word \<Rightarrow> request \<Rightarrow> os \<Rightarrow> bridge_result \<times> os" where
  "handleConnection upgrader config faults writes socketsDir connID eventID now r w =
     (if \<not> upgrader config r then (NotUpgraded, w)
      else case setupConnection faults writes socketsDir connID eventID now w of
             (Inl e, w') \<Rightarrow> (ClosedAfter e, w')
           | (Inr b, w') \<Rightarrow> (Bridged b, w'))"

definition bridge_NewUpgradeHandler ::
    "bool \<Rightarrow> (upgrade_config \<Rightarrow> request \<Rightarrow> bool) \<Rightarrow> sock_faults \<Rightarrow> (json \<Rightarrow> bool) \<Rightarrow> string \<Rightarrow> string \<Rightarrow> string
     \<Rightarrow> 64 word \<Rightarrow> request \<Rightarrow> os \<Rightarrow> bridge_result \<times> os" where
  "bridge_NewUpgradeHandler devMode upgrader = handleConnection upgrader (NewUpgradeHandlerConfig devMode)"

section \<open>Accepting clients\<close>

text \<open>
  A step of the goroutine itself, or what it waits for: a peer connects, or \<open>Accept\<close> fails although the listener is
  open. On a closed listener \<open>Accept\<close> fails at once.
\<close>

datatype accept_event = AcceptRuns | PeerConnects | AcceptBreaks

definition accept_fails :: "bool \<Rightarrow> unix_sock \<Rightarrow> unix_sock" where
  "accept_fails cancelled s = s\<lparr>us_accept := if cancelled then AcceptEnd else AcceptSelect\<rparr>"

definition new_client_conn :: bridge_client where
  "new_client_conn = \<lparr>bc_open = True, bc_pc = HandlerOff, bc_joined = 0, bc_writes = [], bc_read = []\<rparr>"

definition set_conn :: "nat \<Rightarrow> bridge_client \<Rightarrow> unix_sock \<Rightarrow> unix_sock" where
  "set_conn k c s = s\<lparr>us_conns := (us_conns s)[k := c]\<rparr>"

definition accept_step :: "bool \<Rightarrow> nat \<Rightarrow> accept_event \<Rightarrow> unix_sock \<Rightarrow> unix_sock outcome" where
  "accept_step cancelled frames ev s =
     (case us_accept s of
        AcceptSelect \<Rightarrow>
          (if ev = AcceptRuns then Goes (s\<lparr>us_accept := if cancelled then AcceptEnd else AcceptWait\<rparr>) else Blocks)
      | AcceptWait \<Rightarrow>
          (case ev of
             PeerConnects \<Rightarrow>
               if us_listening s
               then Goes (s\<lparr>us_conns := us_conns s @ [new_client_conn], us_accept := AcceptAppend (length (us_conns s))\<rparr>)
               else Blocks
           | AcceptBreaks \<Rightarrow> if us_listening s then Goes (accept_fails cancelled s) else Blocks
           | AcceptRuns \<Rightarrow> if us_listening s then Blocks else Goes (accept_fails cancelled s))
      | AcceptAppend k \<Rightarrow>
          (if ev = AcceptRuns
           then Goes (set_conn k ((us_conns s ! k)\<lparr>bc_joined := frames\<rparr>)
                  (s\<lparr>us_Clients := us_Clients s @ [k], us_accept := AcceptStart k\<rparr>))
           else Blocks)
      | AcceptStart k \<Rightarrow>
          (if ev = AcceptRuns
           then Goes (set_conn k ((us_conns s ! k)\<lparr>bc_pc := HandlerSelect\<rparr>) (s\<lparr>us_accept := AcceptSelect\<rparr>))
           else Blocks)
      | AcceptEnd \<Rightarrow> Blocks)"

definition acceptWriterUnixSockClients :: "accept_event \<Rightarrow> bridge \<Rightarrow> bridge outcome" where
  "acceptWriterUnixSockClients ev b =
     then_go (accept_step (br_cancelled b) (length (br_frames b)) ev (br_writer b)) (\<lambda>s. Goes (b\<lparr>br_writer := s\<rparr>))"

definition acceptReaderUnixSockClients :: "accept_event \<Rightarrow> bridge \<Rightarrow> bridge outcome" where
  "acceptReaderUnixSockClients ev b =
     then_go (accept_step (br_cancelled b) (length (br_frames b)) ev (br_reader b)) (\<lambda>s. Goes (b\<lparr>br_reader := s\<rparr>))"

section \<open>Clients\<close>

text \<open>A step of the goroutine (whether its write works is the flag), or what its peer does.\<close>

datatype client_event = ClientRuns bool | PeerSends string | PeerHangsUp

definition client_read :: "nat \<Rightarrow> client_event \<Rightarrow> bridge_client \<Rightarrow> string option outcome" where
  "client_read buflen ev c =
     (case ev of
        PeerSends bs \<Rightarrow> if bc_open c \<and> length bs \<le> buflen then Goes (Some bs) else Blocks
      | PeerHangsUp \<Rightarrow> if bc_open c then Goes None else Blocks
      | ClientRuns works \<Rightarrow> if bc_open c then Blocks else Goes None)"

definition client_select :: "bool \<Rightarrow> nat \<Rightarrow> unix_sock \<Rightarrow> unix_sock" where
  "client_select cancelled k s =
     set_conn k ((us_conns s ! k)\<lparr>bc_pc := if cancelled then HandlerClose else HandlerRead\<rparr>) s"

definition client_close :: "nat \<Rightarrow> unix_sock \<Rightarrow> unix_sock" where
  "client_close k s = set_conn k ((us_conns s ! k)\<lparr>bc_open := False, bc_pc := HandlerRemove\<rparr>) s"

definition client_remove :: "nat \<Rightarrow> unix_sock \<Rightarrow> unix_sock" where
  "client_remove k s =
     set_conn k ((us_conns s ! k)\<lparr>bc_pc := HandlerEnd\<rparr>) (s\<lparr>us_Clients := remove1 k (us_Clients s)\<rparr>)"

definition removeWriterUnixSockClient :: "nat \<Rightarrow> bridge \<Rightarrow> bridge" where
  "removeWriterUnixSockClient k b = b\<lparr>br_writer := client_remove k (br_writer b)\<rparr>"

definition removeReaderUnixSockClient :: "nat \<Rightarrow> bridge \<Rightarrow> bridge" where
  "removeReaderUnixSockClient k b = b\<lparr>br_reader := client_remove k (br_reader b)\<rparr>"

fun client_runs :: "client_event \<Rightarrow> bool" where
  "client_runs (ClientRuns works) = True"
| "client_runs ev = False"

text \<open>What a client of the output socket sends is read and dropped.\<close>

definition handleWriterUnixSockClient :: "client_event \<Rightarrow> nat \<Rightarrow> bridge \<Rightarrow> bridge outcome" where
  "handleWriterUnixSockClient ev k b =
     (let s = br_writer b; c = us_conns s ! k; put = (\<lambda>s'. Goes (b\<lparr>br_writer := s'\<rparr>))
      in if length (us_conns s) \<le> k then Blocks
         else if bc_pc c = HandlerRead
         then then_go (client_read 1 ev c)
                (\<lambda>got. case got of
                   None \<Rightarrow> put (set_conn k (c\<lparr>bc_pc := HandlerClose\<rparr>) s)
                 | Some bs \<Rightarrow> put (set_conn k (c\<lparr>bc_pc := HandlerSelect, bc_read := bc_read c @ bs\<rparr>) s))
         else if \<not> client_runs ev then Blocks
         else case bc_pc c of
                HandlerSelect \<Rightarrow> put (client_select (br_cancelled b) k s)
              | HandlerClose \<Rightarrow> put (client_close k s)
              | HandlerRemove \<Rightarrow> Goes (removeWriterUnixSockClient k b)
              | _ \<Rightarrow> Blocks)"

text \<open>What a client of the input socket sends is written to the WebSocket as one message, under the mutex.\<close>

definition handleReaderUnixSockClient :: "client_event \<Rightarrow> nat \<Rightarrow> bridge \<Rightarrow> bridge outcome" where
  "handleReaderUnixSockClient ev k b =
     (let s = br_reader b; c = us_conns s ! k; put = (\<lambda>s'. Goes (b\<lparr>br_reader := s'\<rparr>));
          goto = (\<lambda>pc. set_conn k (c\<lparr>bc_pc := pc\<rparr>) s)
      in if length (us_conns s) \<le> k then Blocks
         else if bc_pc c = HandlerRead
         then then_go (client_read bufferSize ev c)
                (\<lambda>got. case got of
                   None \<Rightarrow> put (goto HandlerClose)
                 | Some bs \<Rightarrow> put (set_conn k (c\<lparr>bc_pc := (if bs = [] then HandlerSelect else HandlerLock bs),
                                                bc_read := bc_read c @ bs\<rparr>) s))
         else case ev of
                ClientRuns works \<Rightarrow>
                  (case bc_pc c of
                     HandlerSelect \<Rightarrow> put (client_select (br_cancelled b) k s)
                   | HandlerLock bs \<Rightarrow>
                       (if br_WriteMu b then Blocks
                        else Goes (b\<lparr>br_WriteMu := True, br_reader := goto (HandlerWrite bs)\<rparr>))
                   | HandlerWrite bs \<Rightarrow>
                       (if works \<and> br_wsOpen b
                        then Goes (b\<lparr>br_sent := br_sent b @ [(k, bs)], br_reader := goto (HandlerUnlock True)\<rparr>)
                        else Goes (b\<lparr>br_reader := goto (HandlerUnlock False)\<rparr>))
                   | HandlerUnlock ok \<Rightarrow>
                       Goes (b\<lparr>br_WriteMu := False, br_reader := goto (if ok then HandlerSelect else HandlerClose)\<rparr>)
                   | HandlerClose \<Rightarrow> put (client_close k s)
                   | HandlerRemove \<Rightarrow> Goes (removeReaderUnixSockClient k b)
                   | _ \<Rightarrow> Blocks)
              | _ \<Rightarrow> Blocks)"

section \<open>Reading the WebSocket\<close>

definition TextMessage :: nat where
  "TextMessage = 1"

definition BinaryMessage :: nat where
  "BinaryMessage = 2"

datatype ws_incoming = Message nat string | ReadFails

definition handleWebSocketMessages :: "ws_incoming \<Rightarrow> bridge \<Rightarrow> bridge outcome" where
  "handleWebSocketMessages got b =
     (if br_main b \<noteq> MainRead then Blocks
      else case got of
             ReadFails \<Rightarrow> Goes (b\<lparr>br_main := MainCancel\<rparr>)
           | Message messageType data \<Rightarrow>
               if messageType \<noteq> BinaryMessage \<and> messageType \<noteq> TextMessage then Goes b
               else Goes (b\<lparr>br_main := MainSnapshot data\<rparr>))"

text \<open>\<open>Broadcast\<close> copies the list of clients and then writes to one after the other, whatever comes of it.\<close>

definition Broadcast :: "bool \<Rightarrow> bridge \<Rightarrow> bridge outcome" where
  "Broadcast works b =
     (case br_main b of
        MainSnapshot data \<Rightarrow>
          Goes (b\<lparr>br_frames := br_frames b @ [data], br_main := MainWrite data (us_Clients (br_writer b))\<rparr>)
      | MainWrite data (k # ks) \<Rightarrow>
          (let c = us_conns (br_writer b) ! k
           in Goes (b\<lparr>br_main := MainWrite data ks,
                 br_writer := set_conn k (c\<lparr>bc_writes := bc_writes c @ [(data, works \<and> bc_open c)]\<rparr>) (br_writer b)\<rparr>))
      | MainWrite data [] \<Rightarrow> Goes (b\<lparr>br_main := MainRead\<rparr>)
      | _ \<Rightarrow> Blocks)"

section \<open>Cleaning up\<close>

definition close_conns :: "nat list \<Rightarrow> bridge_client list \<Rightarrow> bridge_client list" where
  "close_conns ks cs = foldl (\<lambda>cs k. cs[k := (cs ! k)\<lparr>bc_open := False\<rparr>]) cs ks"

definition close_clients :: "unix_sock \<Rightarrow> unix_sock" where
  "close_clients s = s\<lparr>us_conns := close_conns (us_Clients s) (us_conns s)\<rparr>"

text \<open>Each of the two loops holds the mutex of its list.\<close>

definition closeAllClients :: "bridge \<Rightarrow> bridge outcome" where
  "closeAllClients b =
     (case br_main b of
        MainCloseWriters \<Rightarrow> Goes (b\<lparr>br_writer := close_clients (br_writer b), br_main := MainCloseReaders\<rparr>)
      | MainCloseReaders \<Rightarrow> Goes (b\<lparr>br_reader := close_clients (br_reader b), br_main := MainCloseWriterListener\<rparr>)
      | _ \<Rightarrow> Blocks)"

text \<open>Closing a listener of the standard library also unlinks its socket file, without reporting an error.\<close>

definition close_sock_listener :: "unix_sock \<Rightarrow> unix_sock" where
  "close_sock_listener s = s\<lparr>us_listening := False, us_file := us_file s \<and> \<not> us_removable s\<rparr>"

definition closeListeners :: "bridge \<Rightarrow> bridge outcome" where
  "closeListeners b =
     (case br_main b of
        MainCloseWriterListener \<Rightarrow> Goes (b\<lparr>br_writer := close_sock_listener (br_writer b), br_main := MainCloseReaderListener\<rparr>)
      | MainCloseReaderListener \<Rightarrow> Goes (b\<lparr>br_reader := close_sock_listener (br_reader b), br_main := MainRemoveWriterFile\<rparr>)
      | _ \<Rightarrow> Blocks)"

definition remove_file :: "unix_sock \<Rightarrow> unix_sock" where
  "remove_file s = s\<lparr>us_file := us_file s \<and> \<not> us_removable s\<rparr>"

definition removeSocketFiles :: "bridge \<Rightarrow> bridge outcome" where
  "removeSocketFiles b =
     (case br_main b of
        MainRemoveWriterFile \<Rightarrow> Goes (b\<lparr>br_writer := remove_file (br_writer b), br_main := MainRemoveReaderFile\<rparr>)
      | MainRemoveReaderFile \<Rightarrow> Goes (b\<lparr>br_reader := remove_file (br_reader b), br_main := MainDelete\<rparr>)
      | _ \<Rightarrow> Blocks)"

definition removeConnection :: "bridge \<Rightarrow> bridge outcome" where
  "removeConnection b =
     (case br_main b of
        MainGet \<Rightarrow> Goes (b\<lparr>br_main := if br_registered b then MainCloseWriters else MainEnd\<rparr>)
      | MainCloseWriters \<Rightarrow> closeAllClients b
      | MainCloseReaders \<Rightarrow> closeAllClients b
      | MainCloseWriterListener \<Rightarrow> closeListeners b
      | MainCloseReaderListener \<Rightarrow> closeListeners b
      | MainRemoveWriterFile \<Rightarrow> removeSocketFiles b
      | MainRemoveReaderFile \<Rightarrow> removeSocketFiles b
      | MainDelete \<Rightarrow> Goes (b\<lparr>br_registered := False, br_main := MainEnd\<rparr>)
      | _ \<Rightarrow> Blocks)"

text \<open>The goroutine that holds the connection from the entry in the map to the end.\<close>

definition main_step :: "bool \<Rightarrow> bridge \<Rightarrow> bridge outcome" where
  "main_step works b =
     (case br_main b of
        MainStore \<Rightarrow> Goes (b\<lparr>br_registered := True, br_main := MainRead\<rparr>)
      | MainRead \<Rightarrow> Blocks
      | MainSnapshot data \<Rightarrow> Broadcast works b
      | MainWrite data ks \<Rightarrow> Broadcast works b
      | MainCancel \<Rightarrow> Goes (b\<lparr>br_cancelled := True, br_main := MainGet\<rparr>)
      | _ \<Rightarrow> removeConnection b)"

section \<open>Runs\<close>

datatype bridge_move =
    Incoming ws_incoming
  | MainMove bool
  | WriterAccept accept_event
  | ReaderAccept accept_event
  | WriterClient client_event nat
  | ReaderClient client_event nat

primrec bridge_step :: "bridge_move \<Rightarrow> bridge \<Rightarrow> bridge outcome" where
  "bridge_step (Incoming got) b = handleWebSocketMessages got b"
| "bridge_step (MainMove works) b = main_step works b"
| "bridge_step (WriterAccept ev) b = acceptWriterUnixSockClients ev b"
| "bridge_step (ReaderAccept ev) b = acceptReaderUnixSockClients ev b"
| "bridge_step (WriterClient ev k) b = handleWriterUnixSockClient ev k b"
| "bridge_step (ReaderClient ev k) b = handleReaderUnixSockClient ev k b"

text \<open>
  What the set-up achieves, and what its errors leave behind: \<open>handleConnection\<close> closes the WebSocket but neither
  the listeners nor the files of the sockets it has made.
\<close>

lemma setup_listens:
  assumes "setupConnection faults writes dir connID eventID now w = (Inr b, w')"
  shows "\<exists>conn. b = start_bridge faults conn \<and> bn_ID conn = connID
    \<and> sk_Path (bn_Writer conn) = path_join [dir, connID] @ ''_output'' \<and> sk_Path (bn_Reader conn) = path_join [dir, connID] @ ''_input''
    \<and> os_listening w' = sk_Path (bn_Reader conn) # sk_Path (bn_Writer conn) # os_listening w"
  using assms
  by (auto simp: setupConnection_def createUnixSockets_def Let_def net_Listen_def os_Remove_def writerUnixSockSuffix_def
      readerUnixSockSuffix_def split: if_splits option.splits prod.splits)

definition all_well :: sock_faults where
  "all_well = \<lparr>fails_mkdir = (\<lambda>_. False), fails_remove = (\<lambda>_. False), fails_listen = (\<lambda>_. False)\<rparr>"

lemma failed_setup_leaks:
  "bridge_NewUpgradeHandler True (\<lambda>c r. uc_CheckOrigin c r) all_well (\<lambda>_. False) ''/run'' ''a'' ''e'' 0 get_request
      \<lparr>os_files = [], os_listening = []\<rparr>
    = (ClosedAfter ''failed to send initialization event'',
       \<lparr>os_files = [''/run/a_input'', ''/run/a_output''], os_listening = [''/run/a_input'', ''/run/a_output'']\<rparr>)"
  "bridge_NewUpgradeHandler True (\<lambda>c r. uc_CheckOrigin c r) (all_well\<lparr>fails_listen := (\<lambda>p. p = ''/run/a_input'')\<rparr>) (\<lambda>_. True)
      ''/run'' ''a'' ''e'' 0 get_request \<lparr>os_files = [], os_listening = []\<rparr>
    = (ClosedAfter ''failed to create ReaderUnixSock socket'',
       \<lparr>os_files = [''/run/a_output''], os_listening = [''/run/a_output'']\<rparr>)"
  by code_simp+

end
