(* ===== verification/Ws_Bridge_Safety.thy ===== *)
theory Ws_Bridge_Safety imports Ws_Bridge begin

text \<open>
  The invariants of a bridge under every interleaving: where a client stands, between the goroutine that accepts it, the
  list of its socket and its own goroutine, and who may hold the mutex of the WebSocket; with what each step of a
  client's goroutine does (\<open>writer_client_cases\<close>, \<open>reader_client_cases\<close>), from which relaying and the end are proved.
\<close>

section \<open>The invariant of a socket\<close>

fun waits :: "handler_pc \<Rightarrow> bool" where
  "waits HandlerRead = True"
| "waits (HandlerLock bs) = True"
| "waits (HandlerWrite bs) = True"
| "waits (HandlerUnlock ok) = True"
| "waits pc = False"

definition place_ok :: "bool \<Rightarrow> nat list \<Rightarrow> accept_pc \<Rightarrow> nat \<Rightarrow> bridge_client \<Rightarrow> bool" where
  "place_ok cleaned ks a k c \<longleftrightarrow>
     (k \<in> set ks \<longleftrightarrow> bc_pc c \<notin> {HandlerOff, HandlerEnd} \<or> a = AcceptStart k)
   \<and> (bc_pc c = HandlerOff \<longleftrightarrow> a = AcceptAppend k \<or> a = AcceptStart k)
   \<and> (bc_pc c \<in> {HandlerRemove, HandlerEnd} \<longrightarrow> \<not> bc_open c)
   \<and> (cleaned \<and> waits (bc_pc c) \<longrightarrow> \<not> bc_open c)"

definition sock_inv :: "bool \<Rightarrow> bool \<Rightarrow> unix_sock \<Rightarrow> bool" where
  "sock_inv cancelled cleaned s \<longleftrightarrow>
     distinct (us_Clients s) \<and> (\<forall>k \<in> set (us_Clients s). k < length (us_conns s))
   \<and> (\<forall>k. us_accept s = AcceptAppend k \<or> us_accept s = AcceptStart k \<longrightarrow> k < length (us_conns s))
   \<and> (us_accept s = AcceptEnd \<longrightarrow> cancelled) \<and> (cleaned \<longrightarrow> cancelled)
   \<and> (\<forall>k < length (us_conns s). place_ok cleaned (us_Clients s) (us_accept s) k (us_conns s ! k))"

lemma set_conn_simps [simp]:
  "us_Clients (set_conn k c s) = us_Clients s"
  "us_accept (set_conn k c s) = us_accept s"
  "us_listening (set_conn k c s) = us_listening s"
  "us_file (set_conn k c s) = us_file s"
  "us_removable (set_conn k c s) = us_removable s"
  "us_conns (set_conn k c s) = (us_conns s)[k := c]"
  by (simp_all add: set_conn_def)

lemma sock_inv_new: "sock_inv False False (new_sock faults p)"
  by (simp add: sock_inv_def new_sock_def)

lemma sock_inv_client: "sock_inv cn cl s \<Longrightarrow> k < length (us_conns s) \<Longrightarrow> place_ok cl (us_Clients s) (us_accept s) k (us_conns s ! k)"
  by (simp add: sock_inv_def)

text \<open>A step for one client, which leaves the place of the others in the list and in the accepting goroutine.\<close>

lemma sock_inv_update:
  assumes inv: "sock_inv cn cl s" and j: "j < length (us_conns s)" and conns: "us_conns s' = (us_conns s)[j := c]"
    and c: "place_ok cl (us_Clients s') (us_accept s') j c"
    and others: "\<And>k. k \<noteq> j \<Longrightarrow> (k \<in> set (us_Clients s') \<longleftrightarrow> k \<in> set (us_Clients s))
      \<and> (us_accept s' = AcceptStart k \<longleftrightarrow> us_accept s = AcceptStart k) \<and> (us_accept s' = AcceptAppend k \<longleftrightarrow> us_accept s = AcceptAppend k)"
    and rest: "distinct (us_Clients s')" "us_accept s' = AcceptEnd \<longrightarrow> cn"
  shows "sock_inv cn cl s'"
proof -
  have "place_ok cl (us_Clients s') (us_accept s') k (us_conns s' ! k)" if "k < length (us_conns s)" for k
  proof (cases "k = j")
    case False
    with sock_inv_client [OF inv that] others [OF False] conns show ?thesis by (simp add: place_ok_def)
  qed (use c conns j in simp)
  moreover have "k < length (us_conns s)" if "k \<in> set (us_Clients s') \<or> us_accept s' = AcceptAppend k \<or> us_accept s' = AcceptStart k" for k
  proof (cases "k = j")
    case False
    with that others [OF False] inv show ?thesis by (auto simp: sock_inv_def)
  qed (use j in simp)
  ultimately show ?thesis using rest inv conns by (simp add: sock_inv_def)
qed

lemma sock_inv_live:
  assumes "sock_inv cn cl s" and "k < length (us_conns s)"
    and "bc_pc (us_conns s ! k) \<notin> {HandlerOff, HandlerEnd}" and "bc_pc c \<notin> {HandlerOff, HandlerEnd}"
    and "bc_pc c = HandlerRemove \<or> cl \<and> waits (bc_pc c) \<Longrightarrow> \<not> bc_open c"
  shows "sock_inv cn cl (set_conn k c s)"
proof (rule sock_inv_update [OF assms(1,2)])
  show "place_ok cl (us_Clients (set_conn k c s)) (us_accept (set_conn k c s)) k c"
    using sock_inv_client [OF assms(1,2)] assms(3-5) by (auto simp: place_ok_def)
qed (use assms(1) in \<open>simp_all add: sock_inv_def\<close>)

lemma sock_inv_same:
  assumes "sock_inv cn cl s" and "bc_pc c = bc_pc (us_conns s ! k)" and "bc_open c = bc_open (us_conns s ! k)"
  shows "sock_inv cn cl (set_conn k c s)"
proof (cases "k < length (us_conns s)")
  case True
  show ?thesis
  proof (rule sock_inv_update [OF assms(1) True])
    show "place_ok cl (us_Clients (set_conn k c s)) (us_accept (set_conn k c s)) k c"
      using sock_inv_client [OF assms(1) True] assms(2,3) by (simp add: place_ok_def)
  qed (use assms(1) in \<open>simp_all add: sock_inv_def\<close>)
qed (use assms(1) in \<open>simp add: set_conn_def list_update_beyond\<close>)

lemma sock_inv_remove:
  assumes "sock_inv cn cl s" and "k < length (us_conns s)" and "bc_pc (us_conns s ! k) = HandlerRemove"
  shows "sock_inv cn cl (client_remove k s)"
proof (rule sock_inv_update [OF assms(1,2)])
  have d: "distinct (us_Clients s)" using assms(1) by (simp add: sock_inv_def)
  then show "place_ok cl (us_Clients (client_remove k s)) (us_accept (client_remove k s)) k ((us_conns s ! k)\<lparr>bc_pc := HandlerEnd\<rparr>)"
    using sock_inv_client [OF assms(1,2)] assms(3) by (simp add: place_ok_def client_remove_def)
qed (use assms(1) in \<open>simp_all add: sock_inv_def client_remove_def in_set_remove1\<close>)

lemma sock_inv_accept:
  assumes "sock_inv cn cl s" and "accept_step cn frames ev s = Goes s'"
  shows "sock_inv cn cl s'"
proof -
  have frame: ?thesis if "us_Clients s' = us_Clients s" "us_conns s' = us_conns s" "us_accept s' = AcceptEnd \<longrightarrow> cn"
    "us_accept s \<in> {AcceptSelect, AcceptWait}" "us_accept s' \<in> {AcceptSelect, AcceptWait, AcceptEnd}"
  proof -
    have "place_ok cl (us_Clients s) (us_accept s') k (us_conns s ! k)" if "k < length (us_conns s)" for k
      using sock_inv_client [OF assms(1) that] \<open>us_accept s \<in> _\<close> \<open>us_accept s' \<in> _\<close> by (elim insertE) (simp_all add: place_ok_def)
    then show ?thesis using assms(1) that by (elim insertE) (simp_all add: sock_inv_def)
  qed
  show ?thesis
  proof (cases "us_accept s")
    case AcceptSelect
    with assms(2) show ?thesis by (intro frame) (auto simp: accept_step_def split: if_splits)
  next
    case AcceptWait
    show ?thesis
    proof (cases "ev = PeerConnects")
      case True
      with AcceptWait assms(2) have s': "s' = s\<lparr>us_conns := us_conns s @ [new_client_conn], us_accept := AcceptAppend (length (us_conns s))\<rparr>"
        by (simp add: accept_step_def split: if_splits)
      have "place_ok cl (us_Clients s') (us_accept s') k (us_conns s' ! k)" if "k < Suc (length (us_conns s))" for k
      proof (cases "k = length (us_conns s)")
        case True
        with assms(1) show ?thesis by (auto simp: s' place_ok_def new_client_conn_def sock_inv_def)
      next
        case False
        with that have k: "k < length (us_conns s)" by simp
        with sock_inv_client [OF assms(1) k] AcceptWait False show ?thesis by (simp add: s' place_ok_def nth_append)
      qed
      with assms(1) show ?thesis by (auto simp: s' sock_inv_def)
    next
      case False
      with AcceptWait assms(2) show ?thesis
        by (intro frame) (cases ev; auto simp: accept_step_def accept_fails_def split: if_splits)+
    qed
  next
    case (AcceptAppend k)
    then have k: "k < length (us_conns s)" using assms(1) by (auto simp: sock_inv_def)
    from AcceptAppend assms(2) have s': "s' = set_conn k ((us_conns s ! k)\<lparr>bc_joined := frames\<rparr>)
        (s\<lparr>us_Clients := us_Clients s @ [k], us_accept := AcceptStart k\<rparr>)"
      by (simp add: accept_step_def split: if_splits)
    have "k \<notin> set (us_Clients s)" using sock_inv_client [OF assms(1) k] AcceptAppend by (auto simp: place_ok_def)
    moreover have "place_ok cl (us_Clients s') (us_accept s') k ((us_conns s ! k)\<lparr>bc_joined := frames\<rparr>)"
      using sock_inv_client [OF assms(1) k] AcceptAppend by (simp add: place_ok_def s')
    ultimately show ?thesis using assms(1) AcceptAppend
      by (intro sock_inv_update [OF assms(1) k, of s']) (auto simp: s' sock_inv_def)
  next
    case (AcceptStart k)
    then have k: "k < length (us_conns s)" using assms(1) by (auto simp: sock_inv_def)
    from AcceptStart assms(2) have s': "s' = set_conn k ((us_conns s ! k)\<lparr>bc_pc := HandlerSelect\<rparr>) (s\<lparr>us_accept := AcceptSelect\<rparr>)"
      by (simp add: accept_step_def split: if_splits)
    moreover have "place_ok cl (us_Clients s') (us_accept s') k ((us_conns s ! k)\<lparr>bc_pc := HandlerSelect\<rparr>)"
      using sock_inv_client [OF assms(1) k] AcceptStart by (simp add: place_ok_def s')
    ultimately show ?thesis using assms(1) AcceptStart
      by (intro sock_inv_update [OF assms(1) k, of s']) (auto simp: sock_inv_def)
  qed (use assms in \<open>simp add: accept_step_def\<close>)
qed

lemma length_close_conns [simp]: "length (close_conns ks cs) = length cs"
  by (induction ks arbitrary: cs) (simp_all add: close_conns_def)

lemma close_conns_nth:
  "k < length cs \<Longrightarrow> close_conns ks cs ! k = (if k \<in> set ks then (cs ! k)\<lparr>bc_open := False\<rparr> else cs ! k)"
proof (induction ks arbitrary: cs)
  case (Cons j ks)
  have "close_conns (j # ks) cs = close_conns ks (cs[j := (cs ! j)\<lparr>bc_open := False\<rparr>])" by (simp add: close_conns_def)
  with Cons show ?case by (cases "j = k") simp_all
qed (simp add: close_conns_def)

lemma place_ok_closed:
  assumes "place_ok cl ks a k c"
  shows "place_ok True ks a k (if k \<in> set ks then c\<lparr>bc_open := False\<rparr> else c)"
proof (cases "k \<in> set ks")
  case False
  then have "\<not> waits (bc_pc c)" using assms by (auto simp: place_ok_def)
  with False assms show ?thesis by (auto simp: place_ok_def)
qed (use assms in \<open>auto simp: place_ok_def\<close>)

lemma sock_inv_close_clients:
  assumes "sock_inv True cl s"
  shows "sock_inv True True (close_clients s)"
proof -
  have "place_ok True (us_Clients s) (us_accept s) k (close_conns (us_Clients s) (us_conns s) ! k)"
    if "k < length (us_conns s)" for k
    unfolding close_conns_nth [OF that] using sock_inv_client [OF assms that] by (rule place_ok_closed)
  with assms show ?thesis by (simp add: sock_inv_def close_clients_def)
qed

lemma sock_inv_frame:
  assumes "sock_inv cn cl s" and "us_Clients s' = us_Clients s" and "us_conns s' = us_conns s" and "us_accept s' = us_accept s"
  shows "sock_inv cn cl s'"
  using assms(1) unfolding sock_inv_def assms(2-4) .

lemma sock_inv_cancel: "sock_inv cn cl s \<Longrightarrow> sock_inv True cl s"
  by (auto simp: sock_inv_def)

lemma sock_inv_over:
  assumes "sock_inv cn cl s" and "us_accept s = AcceptEnd" and "\<forall>c \<in> set (us_conns s). bc_pc c = HandlerEnd"
  shows "us_Clients s = [] \<and> (\<forall>c \<in> set (us_conns s). \<not> bc_open c)"
proof -
  have *: "k \<notin> set (us_Clients s) \<and> \<not> bc_open (us_conns s ! k)" if "k < length (us_conns s)" for k
    using sock_inv_client [OF assms(1) that] assms(2,3) that by (simp add: place_ok_def)
  then have "k \<notin> set (us_Clients s)" for k using assms(1) by (auto simp: sock_inv_def)
  moreover have "\<not> bc_open c" if "c \<in> set (us_conns s)" for c
    using that * by (auto simp: in_set_conv_nth)
  ultimately show ?thesis by (cases "us_Clients s") auto
qed

section \<open>The invariant of a bridge\<close>

fun stage :: "main_pc \<Rightarrow> nat" where
  "stage MainStore = 0"
| "stage MainRead = 0"
| "stage (MainSnapshot data) = 0"
| "stage (MainWrite data ks) = 0"
| "stage MainCancel = 1"
| "stage MainGet = 2"
| "stage MainCloseWriters = 3"
| "stage MainCloseReaders = 4"
| "stage MainCloseWriterListener = 5"
| "stage MainCloseReaderListener = 6"
| "stage MainRemoveWriterFile = 7"
| "stage MainRemoveReaderFile = 8"
| "stage MainDelete = 9"
| "stage MainEnd = 10"

fun holding :: "handler_pc \<Rightarrow> bool" where
  "holding (HandlerWrite bs) = True"
| "holding (HandlerUnlock ok) = True"
| "holding pc = False"

fun relaying :: "handler_pc \<Rightarrow> bool" where
  "relaying (HandlerLock bs) = True"
| "relaying pc = holding pc"

abbreviation holders :: "unix_sock \<Rightarrow> nat" where
  "holders s \<equiv> length (filter (\<lambda>c. holding (bc_pc c)) (us_conns s))"

definition phase_inv :: "bridge \<Rightarrow> bool" where
  "phase_inv b \<longleftrightarrow>
     (br_cancelled b \<longleftrightarrow> 2 \<le> stage (br_main b))
   \<and> (us_listening (br_writer b) \<longleftrightarrow> stage (br_main b) < 6) \<and> (us_listening (br_reader b) \<longleftrightarrow> stage (br_main b) < 7)
   \<and> (6 \<le> stage (br_main b) \<and> us_file (br_writer b) \<longrightarrow> \<not> us_removable (br_writer b))
   \<and> (7 \<le> stage (br_main b) \<and> us_file (br_reader b) \<longrightarrow> \<not> us_removable (br_reader b))
   \<and> (br_registered b \<longleftrightarrow> br_main b \<noteq> MainStore \<and> br_main b \<noteq> MainEnd)"

definition bridge_inv :: "bridge \<Rightarrow> bool" where
  "bridge_inv b \<longleftrightarrow>
     sock_inv (br_cancelled b) (4 \<le> stage (br_main b)) (br_writer b)
   \<and> sock_inv (br_cancelled b) (5 \<le> stage (br_main b)) (br_reader b)
   \<and> holders (br_reader b) = (if br_WriteMu b then 1 else 0)
   \<and> (\<forall>c \<in> set (us_conns (br_writer b)). \<not> relaying (bc_pc c))
   \<and> phase_inv b"

lemma bridge_inv_start: "bridge_inv (start_bridge faults conn)"
  by (simp add: bridge_inv_def start_bridge_def sock_inv_new phase_inv_def) (simp add: new_sock_def)

text \<open>What every step for one client leaves as it is.\<close>

definition same_sock :: "unix_sock \<Rightarrow> unix_sock \<Rightarrow> bool" where
  "same_sock s s' \<longleftrightarrow> us_listening s' = us_listening s \<and> us_file s' = us_file s \<and> us_removable s' = us_removable s"

lemma same_sock_refl [simp]: "same_sock s s"
  by (simp add: same_sock_def)

lemma same_sock_set [simp]: "same_sock s (set_conn k c s') \<longleftrightarrow> same_sock s s'"
  by (simp add: same_sock_def)

lemma bridge_inv_writer:
  assumes "bridge_inv b" and "sock_inv (br_cancelled b) (4 \<le> stage (br_main b)) s" and "same_sock (br_writer b) s"
    and "\<forall>c \<in> set (us_conns s). \<not> relaying (bc_pc c)"
  shows "bridge_inv (b\<lparr>br_writer := s\<rparr>)"
proof -
  have "phase_inv (b\<lparr>br_writer := s\<rparr>)" using assms(1,3) by (simp add: bridge_inv_def phase_inv_def same_sock_def)
  with assms(1,2,4) show ?thesis by (simp add: bridge_inv_def)
qed

lemma bridge_inv_reader:
  assumes "bridge_inv b" and "sock_inv (br_cancelled b) (5 \<le> stage (br_main b)) s" and "same_sock (br_reader b) s"
    and "holders s = (if mu then 1 else 0)"
  shows "bridge_inv (b\<lparr>br_WriteMu := mu, br_reader := s\<rparr>)"
proof -
  have "phase_inv (b\<lparr>br_WriteMu := mu, br_reader := s\<rparr>)" using assms(1,3) by (simp add: bridge_inv_def phase_inv_def same_sock_def)
  with assms(1,2,4) show ?thesis by (simp add: bridge_inv_def)
qed

lemma accept_step_frame:
  assumes "accept_step cn frames ev s = Goes s'"
  shows "same_sock s s'"
    and "sock_inv cn cl s \<Longrightarrow> holders s' = holders s"
    and "\<forall>c \<in> set (us_conns s). \<not> relaying (bc_pc c) \<Longrightarrow> sock_inv cn cl s \<Longrightarrow> \<forall>c \<in> set (us_conns s'). \<not> relaying (bc_pc c)"
proof -
  show "same_sock s s'" using assms
    by (cases "us_accept s"; cases ev)
      (auto simp: accept_step_def accept_fails_def same_sock_def split: if_splits)
  have start: "k < length (us_conns s) \<and> bc_pc (us_conns s ! k) = HandlerOff"
    if "us_accept s = AcceptAppend k \<or> us_accept s = AcceptStart k" "sock_inv cn cl s" for k
  proof -
    have k: "k < length (us_conns s)" using that by (auto simp: sock_inv_def)
    with sock_inv_client [OF that(2) k] that(1) show ?thesis by (auto simp: place_ok_def)
  qed
  show "holders s' = holders s" if "sock_inv cn cl s"
  proof (cases "us_accept s")
    case (AcceptAppend k)
    with start [of k] that assms filter_length_update [of k "us_conns s" "\<lambda>c. holding (bc_pc c)" "(us_conns s ! k)\<lparr>bc_joined := frames\<rparr>"]
    show ?thesis by (auto simp: accept_step_def split: if_splits)
  next
    case (AcceptStart k)
    with start [of k] that assms filter_length_update [of k "us_conns s" "\<lambda>c. holding (bc_pc c)" "(us_conns s ! k)\<lparr>bc_pc := HandlerSelect\<rparr>"]
    show ?thesis by (auto simp: accept_step_def split: if_splits)
  qed (use assms in \<open>auto simp: accept_step_def accept_fails_def new_client_conn_def split: if_splits accept_event.splits\<close>)
  show "\<forall>c \<in> set (us_conns s'). \<not> relaying (bc_pc c)"
    if r: "\<forall>c \<in> set (us_conns s). \<not> relaying (bc_pc c)" and inv: "sock_inv cn cl s"
  proof (cases "us_accept s")
    case (AcceptAppend k)
    with start [of k] inv assms r show ?thesis by (auto simp: accept_step_def split: if_splits dest!: set_update_cases)
  next
    case (AcceptStart k)
    with start [of k] inv assms r show ?thesis by (auto simp: accept_step_def split: if_splits dest!: set_update_cases)
  qed (use assms r in \<open>auto simp: accept_step_def accept_fails_def new_client_conn_def split: if_splits accept_event.splits\<close>)
qed

lemma writer_accept_inv:
  assumes "bridge_inv b" and "acceptWriterUnixSockClients ev b = Goes b'"
  shows "bridge_inv b'"
proof -
  obtain s where s: "accept_step (br_cancelled b) (length (br_frames b)) ev (br_writer b) = Goes s" "b' = b\<lparr>br_writer := s\<rparr>"
    using assms(2) by (auto simp: acceptWriterUnixSockClients_def then_go_Goes)
  have inv: "sock_inv (br_cancelled b) (4 \<le> stage (br_main b)) (br_writer b)"
    and "\<forall>c \<in> set (us_conns (br_writer b)). \<not> relaying (bc_pc c)"
    using assms(1) by (simp_all add: bridge_inv_def)
  with accept_step_frame [OF s(1)] sock_inv_accept [OF inv s(1)] assms(1) show ?thesis
    unfolding s(2) by (intro bridge_inv_writer) auto
qed

lemma reader_accept_inv:
  assumes "bridge_inv b" and "acceptReaderUnixSockClients ev b = Goes b'"
  shows "bridge_inv b'"
proof -
  obtain s where s: "accept_step (br_cancelled b) (length (br_frames b)) ev (br_reader b) = Goes s" "b' = b\<lparr>br_reader := s\<rparr>"
    using assms(2) by (auto simp: acceptReaderUnixSockClients_def then_go_Goes)
  have inv: "sock_inv (br_cancelled b) (5 \<le> stage (br_main b)) (br_reader b)"
    and "holders (br_reader b) = (if br_WriteMu b then 1 else 0)"
    using assms(1) by (simp_all add: bridge_inv_def)
  with accept_step_frame [OF s(1)] sock_inv_accept [OF inv s(1)] assms(1)
  have "bridge_inv (b\<lparr>br_WriteMu := br_WriteMu b, br_reader := s\<rparr>)"
    by (intro bridge_inv_reader) auto
  then show ?thesis by (simp add: s(2))
qed

text \<open>A step of a client's goroutine before it takes itself off the list.\<close>

definition client_moved :: "bool \<Rightarrow> bridge_client \<Rightarrow> bridge_client \<Rightarrow> bool" where
  "client_moved cancelled c c' \<longleftrightarrow>
     bc_joined c' = bc_joined c \<and> bc_writes c' = bc_writes c \<and> (bc_open c' \<longrightarrow> bc_open c)
   \<and> bc_pc c \<notin> {HandlerOff, HandlerRemove, HandlerEnd} \<and> bc_pc c' \<notin> {HandlerOff, HandlerEnd}
   \<and> (bc_pc c' = HandlerRemove \<longrightarrow> \<not> bc_open c') \<and> (waits (bc_pc c') \<longrightarrow> waits (bc_pc c) \<or> \<not> cancelled)"

lemma client_moved_inv:
  assumes "sock_inv cn cl s" and "k < length (us_conns s)" and "client_moved cn (us_conns s ! k) c"
  shows "sock_inv cn cl (set_conn k c s)"
proof (rule sock_inv_live [OF assms(1,2)])
  assume "bc_pc c = HandlerRemove \<or> cl \<and> waits (bc_pc c)"
  moreover have "cl \<longrightarrow> cn" using assms(1) by (simp add: sock_inv_def)
  ultimately show "\<not> bc_open c" using sock_inv_client [OF assms(1,2)] assms(3) by (auto simp: place_ok_def client_moved_def)
qed (use assms(3) in \<open>simp_all add: client_moved_def\<close>)

fun handler_work :: "handler_pc \<Rightarrow> nat" where
  "handler_work HandlerEnd = 0"
| "handler_work HandlerRemove = 1"
| "handler_work HandlerClose = 2"
| "handler_work HandlerSelect = 3"
| "handler_work HandlerRead = 3"
| "handler_work (HandlerUnlock ok) = 4"
| "handler_work (HandlerWrite bs) = 5"
| "handler_work (HandlerLock bs) = 6"
| "handler_work HandlerOff = 3"

lemma writer_client_cases:
  assumes "handleWriterUnixSockClient ev k b = Goes b'" and "k < length (us_conns (br_writer b)) \<Longrightarrow> \<not> relaying (bc_pc (us_conns (br_writer b) ! k))"
  obtains (moved) c where "k < length (us_conns (br_writer b))" "b' = b\<lparr>br_writer := set_conn k c (br_writer b)\<rparr>"
      "client_moved (br_cancelled b) (us_conns (br_writer b) ! k) c" "\<not> relaying (bc_pc c)"
      "br_cancelled b \<and> client_runs ev \<Longrightarrow> handler_work (bc_pc c) < handler_work (bc_pc (us_conns (br_writer b) ! k))"
  | (removed) "k < length (us_conns (br_writer b))" "b' = b\<lparr>br_writer := client_remove k (br_writer b)\<rparr>"
      "bc_pc (us_conns (br_writer b) ! k) = HandlerRemove"
proof -
  let ?c = "us_conns (br_writer b) ! k"
  have k: "k < length (us_conns (br_writer b))"
    using assms(1) by (auto simp: handleWriterUnixSockClient_def Let_def split: if_splits)
  show thesis
  proof (cases "bc_pc ?c")
    case HandlerRead
    then obtain got where "client_read 1 ev ?c = Goes got" and b': "b' = b\<lparr>br_writer := set_conn k (case got of
        None \<Rightarrow> ?c\<lparr>bc_pc := HandlerClose\<rparr> | Some bs \<Rightarrow> ?c\<lparr>bc_pc := HandlerSelect, bc_read := bc_read ?c @ bs\<rparr>) (br_writer b)\<rparr>"
      using assms(1) k by (auto simp: handleWriterUnixSockClient_def Let_def then_go_Goes split: option.splits)
    moreover have "client_runs ev \<Longrightarrow> got = None"
      using calculation(1) by (cases ev) (auto simp: client_read_def split: if_splits)
    ultimately show thesis using HandlerRead k
      by (intro moved [OF k b']) (auto simp: client_moved_def split: option.splits)
  next
    case HandlerSelect
    with assms(1) k show thesis
      by (intro moved [OF k, of "?c\<lparr>bc_pc := if br_cancelled b then HandlerClose else HandlerRead\<rparr>"])
        (auto simp: handleWriterUnixSockClient_def Let_def client_select_def client_moved_def split: if_splits)
  next
    case HandlerClose
    with assms(1) k show thesis
      by (intro moved [OF k, of "?c\<lparr>bc_open := False, bc_pc := HandlerRemove\<rparr>"])
        (auto simp: handleWriterUnixSockClient_def Let_def client_close_def client_moved_def split: if_splits)
  next
    case HandlerRemove
    with assms(1) k show thesis
      by (intro removed) (auto simp: handleWriterUnixSockClient_def Let_def removeWriterUnixSockClient_def split: if_splits)
  qed (use assms k in \<open>auto simp: handleWriterUnixSockClient_def Let_def split: if_splits\<close>)
qed

lemma writer_client_inv:
  assumes "bridge_inv b" and "handleWriterUnixSockClient ev k b = Goes b'"
  shows "bridge_inv b'"
proof -
  let ?s = "br_writer b"
  have inv: "sock_inv (br_cancelled b) (4 \<le> stage (br_main b)) ?s" and r: "\<forall>c \<in> set (us_conns ?s). \<not> relaying (bc_pc c)"
    using assms(1) by (simp_all add: bridge_inv_def)
  from r have "k < length (us_conns ?s) \<Longrightarrow> \<not> relaying (bc_pc (us_conns ?s ! k))" by simp
  then show ?thesis
  proof (rule writer_client_cases [OF assms(2)])
    fix c assume moved: "k < length (us_conns ?s)" "b' = b\<lparr>br_writer := set_conn k c ?s\<rparr>"
      "client_moved (br_cancelled b) (us_conns ?s ! k) c" "\<not> relaying (bc_pc c)"
    have "sock_inv (br_cancelled b) (4 \<le> stage (br_main b)) (set_conn k c ?s)" using client_moved_inv [OF inv moved(1,3)] .
    moreover have "\<forall>u \<in> set (us_conns (set_conn k c ?s)). \<not> relaying (bc_pc u)"
      using r moved(4) by (auto dest!: set_update_cases)
    ultimately show ?thesis unfolding moved(2) using assms(1) by (intro bridge_inv_writer) simp_all
  next
    assume removed: "k < length (us_conns ?s)" "b' = b\<lparr>br_writer := client_remove k ?s\<rparr>" "bc_pc (us_conns ?s ! k) = HandlerRemove"
    have "\<forall>u \<in> set (us_conns (client_remove k ?s)). \<not> relaying (bc_pc u)"
      using r by (auto simp: client_remove_def dest!: set_update_cases)
    with sock_inv_remove [OF inv removed(1,3)] show ?thesis unfolding removed(2) using assms(1)
      by (intro bridge_inv_writer) (simp_all add: client_remove_def same_sock_def)
  qed
qed

text \<open>
  What was read from a client of the input socket is what it got through, the chunk in its goroutine's hands, and what
  a failed write lost, after which the goroutine ends.
\<close>

fun chunk :: "handler_pc \<Rightarrow> string" where
  "chunk (HandlerLock bs) = bs"
| "chunk (HandlerWrite bs) = bs"
| "chunk pc = []"

fun ending :: "handler_pc \<Rightarrow> bool" where
  "ending (HandlerUnlock ok) = (\<not> ok)"
| "ending pc = (pc \<in> {HandlerClose, HandlerRemove, HandlerEnd})"

definition sent_by :: "nat \<Rightarrow> (nat \<times> string) list \<Rightarrow> string list" where
  "sent_by k sent = map snd (filter (\<lambda>p. fst p = k) sent)"

definition client_relay :: "nat \<Rightarrow> (nat \<times> string) list \<Rightarrow> bridge_client \<Rightarrow> bool" where
  "client_relay k sent c \<longleftrightarrow>
     (\<exists>lost. bc_read c = concat (sent_by k sent) @ chunk (bc_pc c) @ lost \<and> (\<not> ending (bc_pc c) \<longrightarrow> lost = []))
   \<and> (relaying (bc_pc c) \<and> \<not> holding (bc_pc c) \<or> (\<exists>bs. bc_pc c = HandlerWrite bs) \<longrightarrow>
        chunk (bc_pc c) \<noteq> [] \<and> length (chunk (bc_pc c)) \<le> bufferSize)"

definition new_sent :: "nat \<Rightarrow> (nat \<times> string) list \<Rightarrow> (nat \<times> string) list \<Rightarrow> bool" where
  "new_sent k old sent \<longleftrightarrow> sent = old \<or> (\<exists>bs. sent = old @ [(k, bs)] \<and> bs \<noteq> [] \<and> length bs \<le> bufferSize)"

definition mutex_moved :: "bool \<Rightarrow> bool \<Rightarrow> bridge_client \<Rightarrow> bridge_client \<Rightarrow> bool" where
  "mutex_moved mu mu' c c' \<longleftrightarrow>
     (if holding (bc_pc c) then mu' = holding (bc_pc c')
      else if holding (bc_pc c') then \<not> mu \<and> mu' else mu' = mu)"

lemma reader_client_cases:
  assumes "handleReaderUnixSockClient ev k b = Goes b'"
    and mu: "k < length (us_conns (br_reader b)) \<Longrightarrow> holding (bc_pc (us_conns (br_reader b) ! k)) \<Longrightarrow> br_WriteMu b"
  obtains (moved) c mu sent where "k < length (us_conns (br_reader b))"
      "b' = b\<lparr>br_WriteMu := mu, br_reader := set_conn k c (br_reader b), br_sent := sent\<rparr>"
      "client_moved (br_cancelled b) (us_conns (br_reader b) ! k) c"
      "mutex_moved (br_WriteMu b) mu (us_conns (br_reader b) ! k) c"
      "client_relay k (br_sent b) (us_conns (br_reader b) ! k) \<Longrightarrow> client_relay k sent c \<and> new_sent k (br_sent b) sent"
      "br_cancelled b \<and> client_runs ev \<Longrightarrow> handler_work (bc_pc c) < handler_work (bc_pc (us_conns (br_reader b) ! k))"
  | (removed) "k < length (us_conns (br_reader b))" "b' = b\<lparr>br_reader := client_remove k (br_reader b)\<rparr>"
      "bc_pc (us_conns (br_reader b) ! k) = HandlerRemove"
proof -
  let ?c = "us_conns (br_reader b) ! k"
  have k: "k < length (us_conns (br_reader b))"
    using assms(1) by (auto simp: handleReaderUnixSockClient_def Let_def split: if_splits)
  have at: "b' = b\<lparr>br_WriteMu := br_WriteMu b, br_reader := s, br_sent := br_sent b\<rparr>" if "b' = b\<lparr>br_reader := s\<rparr>" for s
    using that by simp
  note moved_defs = client_moved_def mutex_moved_def client_relay_def new_sent_def
  show thesis
  proof (cases "bc_pc ?c")
    case HandlerRead
    then obtain got where got: "client_read bufferSize ev ?c = Goes got" and b': "b' = b\<lparr>br_reader := set_conn k (case got of
        None \<Rightarrow> ?c\<lparr>bc_pc := HandlerClose\<rparr>
      | Some bs \<Rightarrow> ?c\<lparr>bc_pc := (if bs = [] then HandlerSelect else HandlerLock bs), bc_read := bc_read ?c @ bs\<rparr>) (br_reader b)\<rparr>"
      using assms(1) k by (auto simp: handleReaderUnixSockClient_def Let_def then_go_Goes split: option.splits)
    have "client_runs ev \<Longrightarrow> got = None" and "got = Some bs \<Longrightarrow> length bs \<le> bufferSize" for bs
      using got by (cases ev; auto simp: client_read_def split: if_splits)+
    with HandlerRead show thesis
      by (intro moved [OF k at [OF b']]) (auto simp: moved_defs split: option.splits)
  next
    case HandlerSelect
    then have "b' = b\<lparr>br_reader := set_conn k (?c\<lparr>bc_pc := if br_cancelled b then HandlerClose else HandlerRead\<rparr>) (br_reader b)\<rparr>"
      using assms(1) k by (cases ev) (auto simp: handleReaderUnixSockClient_def Let_def client_select_def split: if_splits)
    with HandlerSelect show thesis by (intro moved [OF k at]) (auto simp: moved_defs split: if_splits)
  next
    case HandlerClose
    then have "b' = b\<lparr>br_reader := set_conn k (?c\<lparr>bc_open := False, bc_pc := HandlerRemove\<rparr>) (br_reader b)\<rparr>"
      using assms(1) k by (cases ev) (auto simp: handleReaderUnixSockClient_def Let_def client_close_def split: if_splits)
    with HandlerClose show thesis by (intro moved [OF k at]) (auto simp: moved_defs split: if_splits)
  next
    case (HandlerLock bs)
    then have b': "b' = b\<lparr>br_WriteMu := True, br_reader := set_conn k (?c\<lparr>bc_pc := HandlerWrite bs\<rparr>) (br_reader b), br_sent := br_sent b\<rparr>"
      and "\<not> br_WriteMu b"
      using assms(1) k by (cases ev; auto simp: handleReaderUnixSockClient_def Let_def split: if_splits)+
    with HandlerLock show thesis by (intro moved [OF k b']) (auto simp: moved_defs)
  next
    case (HandlerWrite bs)
    then obtain works where "ev = ClientRuns works"
      using assms(1) k by (cases ev) (auto simp: handleReaderUnixSockClient_def Let_def split: if_splits)
    define ok where "ok = (works \<and> br_wsOpen b)"
    have b': "b' = b\<lparr>br_WriteMu := br_WriteMu b, br_reader := set_conn k (?c\<lparr>bc_pc := HandlerUnlock ok\<rparr>) (br_reader b),
        br_sent := (if ok then br_sent b @ [(k, bs)] else br_sent b)\<rparr>"
      using assms(1) k HandlerWrite \<open>ev = _\<close>
      by (cases ok) (auto simp: handleReaderUnixSockClient_def Let_def ok_def [symmetric])
    with HandlerWrite mu [OF k] show thesis by (intro moved [OF k b']) (auto simp: moved_defs sent_by_def)
  next
    case (HandlerUnlock ok)
    then have b': "b' = b\<lparr>br_WriteMu := False, br_reader := set_conn k (?c\<lparr>bc_pc := if ok then HandlerSelect else HandlerClose\<rparr>)
        (br_reader b), br_sent := br_sent b\<rparr>"
      using assms(1) k by (cases ev) (auto simp: handleReaderUnixSockClient_def Let_def split: if_splits)
    with HandlerUnlock show thesis by (intro moved [OF k b']) (auto simp: moved_defs)
  next
    case HandlerRemove
    with assms(1) k show thesis
      by (intro removed; cases ev) (auto simp: handleReaderUnixSockClient_def Let_def removeReaderUnixSockClient_def split: if_splits)
  qed (use assms k in \<open>cases ev; auto simp: handleReaderUnixSockClient_def Let_def split: if_splits\<close>)+
qed

lemma bridge_inv_sent: "bridge_inv (b\<lparr>br_sent := sent\<rparr>) \<longleftrightarrow> bridge_inv b"
  by (simp add: bridge_inv_def phase_inv_def)

lemma mutex_holder: "bridge_inv b \<Longrightarrow> k < length (us_conns (br_reader b)) \<Longrightarrow> holding (bc_pc (us_conns (br_reader b) ! k)) \<Longrightarrow> br_WriteMu b"
  using nth_filter_length [of k "us_conns (br_reader b)" "\<lambda>c. holding (bc_pc c)"] by (auto simp: bridge_inv_def split: if_splits)

lemma reader_client_inv:
  assumes "bridge_inv b" and "handleReaderUnixSockClient ev k b = Goes b'"
  shows "bridge_inv b'"
proof -
  let ?s = "br_reader b"
  have inv: "sock_inv (br_cancelled b) (5 \<le> stage (br_main b)) ?s" and h: "holders ?s = (if br_WriteMu b then 1 else 0)"
    using assms(1) by (simp_all add: bridge_inv_def)
  show ?thesis
  proof (rule reader_client_cases [OF assms(2) mutex_holder [OF assms(1)]])
    fix c mu sent assume moved: "k < length (us_conns ?s)" "b' = b\<lparr>br_WriteMu := mu, br_reader := set_conn k c ?s, br_sent := sent\<rparr>"
      "client_moved (br_cancelled b) (us_conns ?s ! k) c" "mutex_moved (br_WriteMu b) mu (us_conns ?s ! k) c"
    have "holders (set_conn k c ?s) = (if mu then 1 else 0)"
      using filter_length_update [OF moved(1), of "\<lambda>c. holding (bc_pc c)" c] h moved(4)
        mutex_holder [OF assms(1) moved(1)]
      by (auto simp: mutex_moved_def split: if_splits)
    with client_moved_inv [OF inv moved(1,3)] have "bridge_inv (b\<lparr>br_WriteMu := mu, br_reader := set_conn k c ?s\<rparr>)"
      using assms(1) by (intro bridge_inv_reader) simp_all
    moreover have "b' = b\<lparr>br_WriteMu := mu, br_reader := set_conn k c ?s\<rparr>\<lparr>br_sent := sent\<rparr>" by (simp add: moved(2))
    ultimately show ?thesis by (simp only: bridge_inv_sent)
  next
    assume removed: "k < length (us_conns ?s)" "b' = b\<lparr>br_reader := client_remove k ?s\<rparr>" "bc_pc (us_conns ?s ! k) = HandlerRemove"
    have "holders (client_remove k ?s) = (if br_WriteMu b then 1 else 0)"
      using filter_length_update [OF removed(1), of "\<lambda>c. holding (bc_pc c)" "(us_conns ?s ! k)\<lparr>bc_pc := HandlerEnd\<rparr>"] h removed(3)
      by (simp add: client_remove_def)
    with sock_inv_remove [OF inv removed(1,3)] have "bridge_inv (b\<lparr>br_WriteMu := br_WriteMu b, br_reader := client_remove k ?s\<rparr>)"
      using assms(1) by (intro bridge_inv_reader) (simp_all add: client_remove_def same_sock_def)
    then show ?thesis by (simp add: removed(2))
  qed
qed

text \<open>The goroutine of the WebSocket.\<close>

lemma close_conns_pcs: "map bc_pc (close_conns ks cs) = map bc_pc cs"
  by (rule nth_equalityI) (simp_all add: close_conns_nth)

lemma close_clients_frame:
  "same_sock s (close_clients s)" "holders (close_clients s) = holders s"
  "(\<forall>c \<in> set (us_conns (close_clients s)). \<not> relaying (bc_pc c)) \<longleftrightarrow> (\<forall>c \<in> set (us_conns s). \<not> relaying (bc_pc c))"
proof -
  have pcs: "map bc_pc (us_conns (close_clients s)) = map bc_pc (us_conns s)"
    by (simp add: close_clients_def close_conns_pcs)
  have "holders u = length (filter holding (map bc_pc (us_conns u)))" for u by (simp add: filter_map comp_def)
  then show "holders (close_clients s) = holders s" by (simp only: pcs)
  have e: "(\<forall>c \<in> set (us_conns u). \<not> relaying (bc_pc c)) \<longleftrightarrow> list_all (\<lambda>pc. \<not> relaying pc) (map bc_pc (us_conns u))" for u
    by (simp add: list_all_iff)
  show "(\<forall>c \<in> set (us_conns (close_clients s)). \<not> relaying (bc_pc c)) \<longleftrightarrow> (\<forall>c \<in> set (us_conns s). \<not> relaying (bc_pc c))"
    unfolding e pcs ..
qed (simp add: same_sock_def close_clients_def)

lemma bridge_broadcast_inv:
  assumes "bridge_inv b" and "Broadcast works b = Goes b'"
  shows "bridge_inv b'"
proof (cases "br_main b")
  case (MainWrite data ks)
  show ?thesis
  proof (cases ks)
    case (Cons k rest)
    let ?s = "br_writer b" and ?c = "us_conns (br_writer b) ! k"
    let ?s' = "set_conn k (?c\<lparr>bc_writes := bc_writes ?c @ [(data, works \<and> bc_open ?c)]\<rparr>) ?s"
    have b': "b' = b\<lparr>br_main := MainWrite data rest, br_writer := ?s'\<rparr>"
      using assms(2) MainWrite Cons by (simp add: Broadcast_def Let_def)
    have "\<forall>c \<in> set (us_conns ?s'). \<not> relaying (bc_pc c)"
    proof (cases "k < length (us_conns ?s)")
      case True
      then have "\<not> relaying (bc_pc ?c)" using assms(1) by (auto simp: bridge_inv_def)
      with assms(1) show ?thesis by (auto simp: bridge_inv_def dest!: set_update_cases)
    qed (use assms(1) in \<open>simp add: bridge_inv_def list_update_beyond\<close>)
    moreover have "sock_inv (br_cancelled b) (4 \<le> stage (br_main b)) ?s'"
      using assms(1) by (intro sock_inv_same) (simp_all add: bridge_inv_def)
    ultimately have "bridge_inv (b\<lparr>br_writer := ?s'\<rparr>)" using assms(1) by (intro bridge_inv_writer) simp_all
    with MainWrite show ?thesis unfolding b' by (auto simp: bridge_inv_def phase_inv_def)
  qed (use assms MainWrite in \<open>auto simp: Broadcast_def bridge_inv_def phase_inv_def\<close>)
qed (use assms in \<open>auto simp: Broadcast_def bridge_inv_def phase_inv_def\<close>)

lemma incoming_inv:
  assumes "bridge_inv b" and "handleWebSocketMessages got b = Goes b'"
  shows "bridge_inv b'"
  using assms
  by (cases got) (auto simp: handleWebSocketMessages_def bridge_inv_def phase_inv_def split: if_splits)

lemmas cleaning_defs = removeConnection_def closeAllClients_def closeListeners_def removeSocketFiles_def

lemma closing_simps [simp]:
  "us_listening (close_sock_listener s) = False" "us_listening (remove_file s) = us_listening s"
  "us_file (close_sock_listener s) = (us_file s \<and> \<not> us_removable s)" "us_file (remove_file s) = (us_file s \<and> \<not> us_removable s)"
  "us_removable (close_sock_listener s) = us_removable s" "us_removable (remove_file s) = us_removable s"
  "us_conns (close_sock_listener s) = us_conns s" "us_conns (remove_file s) = us_conns s"
  "sock_inv cn cl (close_sock_listener s) \<longleftrightarrow> sock_inv cn cl s" "sock_inv cn cl (remove_file s) \<longleftrightarrow> sock_inv cn cl s"
  by (simp_all add: sock_inv_def close_sock_listener_def remove_file_def)

lemma main_inv:
  assumes "bridge_inv b" and "main_step works b = Goes b'"
  shows "bridge_inv b'"
proof -
  show ?thesis
  proof (cases "br_main b")
    case (MainSnapshot data)
    with assms bridge_broadcast_inv show ?thesis by (simp add: main_step_def)
  next
    case (MainWrite data ks)
    with assms bridge_broadcast_inv show ?thesis by (simp add: main_step_def)
  next
    case MainCancel
    with assms show ?thesis
      by (auto simp: main_step_def bridge_inv_def phase_inv_def dest: sock_inv_cancel)
  next
    case MainCloseWriters
    with assms have b': "b' = b\<lparr>br_writer := close_clients (br_writer b), br_main := MainCloseReaders\<rparr>"
      by (simp add: main_step_def cleaning_defs)
    show ?thesis using assms(1) MainCloseWriters close_clients_frame [of "br_writer b"] sock_inv_close_clients [of False "br_writer b"]
      by (auto simp: b' bridge_inv_def phase_inv_def same_sock_def)
  next
    case MainCloseReaders
    with assms have b': "b' = b\<lparr>br_reader := close_clients (br_reader b), br_main := MainCloseWriterListener\<rparr>"
      by (simp add: main_step_def cleaning_defs)
    show ?thesis using assms(1) MainCloseReaders close_clients_frame [of "br_reader b"] sock_inv_close_clients [of False "br_reader b"]
      by (auto simp: b' bridge_inv_def phase_inv_def same_sock_def)
  next
    case MainCloseWriterListener
    with assms have b': "b' = b\<lparr>br_writer := close_sock_listener (br_writer b), br_main := MainCloseReaderListener\<rparr>"
      by (simp add: main_step_def cleaning_defs)
    show ?thesis using assms(1) MainCloseWriterListener by (auto simp: b' bridge_inv_def phase_inv_def)
  next
    case MainCloseReaderListener
    with assms have b': "b' = b\<lparr>br_reader := close_sock_listener (br_reader b), br_main := MainRemoveWriterFile\<rparr>"
      by (simp add: main_step_def cleaning_defs)
    show ?thesis using assms(1) MainCloseReaderListener by (auto simp: b' bridge_inv_def phase_inv_def)
  next
    case MainRemoveWriterFile
    with assms have b': "b' = b\<lparr>br_writer := remove_file (br_writer b), br_main := MainRemoveReaderFile\<rparr>"
      by (simp add: main_step_def cleaning_defs)
    show ?thesis using assms(1) MainRemoveWriterFile by (auto simp: b' bridge_inv_def phase_inv_def)
  next
    case MainRemoveReaderFile
    with assms have b': "b' = b\<lparr>br_reader := remove_file (br_reader b), br_main := MainDelete\<rparr>"
      by (simp add: main_step_def cleaning_defs)
    show ?thesis using assms(1) MainRemoveReaderFile by (auto simp: b' bridge_inv_def phase_inv_def)
  next
    case MainGet
    then have "br_registered b" using assms(1) by (simp add: bridge_inv_def phase_inv_def)
    with MainGet assms have b': "b' = b\<lparr>br_main := MainCloseWriters\<rparr>" by (simp add: main_step_def cleaning_defs)
    show ?thesis using assms(1) MainGet by (auto simp: b' bridge_inv_def phase_inv_def)
  next
    case MainStore
    with assms have b': "b' = b\<lparr>br_registered := True, br_main := MainRead\<rparr>" by (simp add: main_step_def)
    show ?thesis using assms(1) MainStore by (auto simp: b' bridge_inv_def phase_inv_def)
  next
    case MainDelete
    with assms have b': "b' = b\<lparr>br_registered := False, br_main := MainEnd\<rparr>" by (simp add: main_step_def cleaning_defs)
    show ?thesis using assms(1) MainDelete by (auto simp: b' bridge_inv_def phase_inv_def)
  qed (use assms in \<open>simp_all add: main_step_def cleaning_defs\<close>)
qed

lemma bridge_inv_step: "bridge_inv b \<Longrightarrow> bridge_step m b = Goes b' \<Longrightarrow> bridge_inv b'"
  by (cases m) (auto intro: incoming_inv main_inv writer_accept_inv reader_accept_inv writer_client_inv reader_client_inv)

end
