(* ===== verification/Ws_Bridge_Relay.thy ===== *)
theory Ws_Bridge_Relay imports Ws_Bridge_Safety begin

text \<open>
  What a bridge relays: the frames of the WebSocket to each client of the output socket, and the bytes of each client of
  the input socket to the WebSocket, in order and without gaps.
\<close>

section \<open>What is relayed\<close>

fun targets :: "main_pc \<Rightarrow> nat list" where
  "targets (MainWrite data ks) = ks"
| "targets pc = []"

text \<open>The frame a client still gets from the broadcast at work.\<close>

fun pending :: "main_pc \<Rightarrow> nat \<Rightarrow> string list" where
  "pending (MainWrite data ks) k = (if k \<in> set ks then [data] else [])"
| "pending pc k = []"

definition output_ok :: "string list \<Rightarrow> main_pc \<Rightarrow> nat list \<Rightarrow> accept_pc \<Rightarrow> nat \<Rightarrow> nat \<times> (string \<times> bool) list \<Rightarrow> bool" where
  "output_ok frames pc ks a k jw \<longleftrightarrow>
     (\<exists>later. drop (fst jw) frames = map fst (snd jw) @ pending pc k @ later \<and> (k \<in> set ks \<longrightarrow> later = []))
   \<and> (k \<in> set ks \<longrightarrow> fst jw \<le> length frames) \<and> (a = AcceptAppend k \<longrightarrow> snd jw = [] \<and> k \<notin> set ks)"

definition output_inv :: "string list \<Rightarrow> main_pc \<Rightarrow> nat list \<Rightarrow> accept_pc \<Rightarrow> (nat \<times> (string \<times> bool) list) list \<Rightarrow> bool" where
  "output_inv frames pc ks a jws \<longleftrightarrow>
     (\<forall>k < length jws. output_ok frames pc ks a k (jws ! k))
   \<and> distinct (targets pc) \<and> (\<forall>k \<in> set (targets pc). k < length jws \<and> a \<noteq> AcceptAppend k)"

definition history :: "unix_sock \<Rightarrow> (nat \<times> (string \<times> bool) list) list" where
  "history s = map (\<lambda>c. (bc_joined c, bc_writes c)) (us_conns s)"

definition input_inv :: "(nat \<times> string) list \<Rightarrow> bridge_client list \<Rightarrow> bool" where
  "input_inv sent cs \<longleftrightarrow>
     (\<forall>k < length cs. client_relay k sent (cs ! k))
   \<and> (\<forall>(k, bs) \<in> set sent. k < length cs \<and> bs \<noteq> [] \<and> length bs \<le> bufferSize)"

definition output_of :: "bridge \<Rightarrow> bool" where
  "output_of b \<longleftrightarrow> output_inv (br_frames b) (br_main b) (us_Clients (br_writer b)) (us_accept (br_writer b)) (history (br_writer b))"

definition relay_inv :: "bridge \<Rightarrow> bool" where
  "relay_inv b \<longleftrightarrow> output_of b \<and> input_inv (br_sent b) (us_conns (br_reader b))"

lemma pending_no_target: "k \<notin> set (targets pc) \<Longrightarrow> pending pc k = []"
  by (cases pc) auto

lemma relay_inv_start: "relay_inv (start_bridge faults conn)"
  by (simp add: relay_inv_def output_of_def start_bridge_def output_inv_def input_inv_def history_def new_sock_def)

lemma output_inv_idle:
  assumes "output_inv frames pc ks a jws" and "targets pc = []" and "targets pc' = []"
  shows "output_inv frames pc' ks a jws"
  using assms by (simp add: output_inv_def output_ok_def pending_no_target)

lemma history_same:
  assumes "bc_joined c = bc_joined (us_conns s ! k)" and "bc_writes c = bc_writes (us_conns s ! k)"
  shows "history (set_conn k c s) = history s"
proof (cases "k < length (us_conns s)")
  case True
  with assms show ?thesis by (auto simp: history_def nth_list_update intro!: nth_equalityI)
qed (simp add: history_def list_update_beyond)

lemma output_inv_remove:
  assumes "output_inv frames pc ks a jws" and "set ks' \<subseteq> set ks"
  shows "output_inv frames pc ks' a jws"
  using assms by (fastforce simp: output_inv_def output_ok_def)

lemma output_inv_accept:
  assumes inv: "sock_inv cn cl s" and out: "output_inv frames pc (us_Clients s) (us_accept s) (history s)"
    and step: "accept_step cn (length frames) ev s = Goes s'"
  shows "output_inv frames pc (us_Clients s') (us_accept s') (history s')"
proof -
  have ok: "output_ok frames pc (us_Clients s) (us_accept s) k (history s ! k)" if "k < length (us_conns s)" for k
    using out that by (simp add: output_inv_def history_def)
  have t: "distinct (targets pc)" "\<forall>k \<in> set (targets pc). k < length (us_conns s) \<and> us_accept s \<noteq> AcceptAppend k"
    using out by (simp_all add: output_inv_def history_def)
  have frame: ?thesis if "us_Clients s' = us_Clients s" "history s' = history s" "\<forall>k. us_accept s' \<noteq> AcceptAppend k"
    using out that by (simp add: output_inv_def output_ok_def)
  show ?thesis
  proof (cases "us_accept s")
    case AcceptSelect
    with step show ?thesis by (intro frame) (auto simp: accept_step_def history_def split: if_splits)
  next
    case AcceptWait
    show ?thesis
    proof (cases "ev = PeerConnects")
      case True
      let ?n = "length (us_conns s)"
      from True AcceptWait step have s': "s' = s\<lparr>us_conns := us_conns s @ [new_client_conn], us_accept := AcceptAppend ?n\<rparr>"
        by (simp add: accept_step_def split: if_splits)
      then have h: "history s' = history s @ [(0, [])]" by (simp add: history_def new_client_conn_def)
      have "?n \<notin> set (us_Clients s)" using inv by (auto simp: sock_inv_def)
      moreover have "?n \<notin> set (targets pc)" using t by blast
      ultimately have "output_ok frames pc (us_Clients s') (us_accept s') k (history s' ! k)" if "k < Suc ?n" for k
        using that ok [of k] by (cases "k = ?n") (auto simp: s' h [unfolded s'] output_ok_def nth_append pending_no_target history_def new_client_conn_def)
      moreover have "k < Suc ?n \<and> us_accept s' \<noteq> AcceptAppend k" if "k \<in> set (targets pc)" for k
        using that t(2) \<open>?n \<notin> set (targets pc)\<close> by (auto simp: s')
      moreover have "length (history s') = Suc ?n" by (simp add: s' history_def)
      ultimately show ?thesis using t(1) by (simp add: output_inv_def)
    next
      case False
      with AcceptWait step show ?thesis
        by (intro frame; cases ev) (auto simp: accept_step_def accept_fails_def history_def split: if_splits)
    qed
  next
    case (AcceptAppend k)
    then have k: "k < length (us_conns s)" using inv by (auto simp: sock_inv_def)
    from AcceptAppend step have s': "s' = set_conn k ((us_conns s ! k)\<lparr>bc_joined := length frames\<rparr>)
        (s\<lparr>us_Clients := us_Clients s @ [k], us_accept := AcceptStart k\<rparr>)"
      by (simp add: accept_step_def split: if_splits)
    have h: "history s' ! j = (if j = k then (length frames, []) else history s ! j)" if "j < length (us_conns s)" for j
      using that ok [OF k] AcceptAppend k by (simp add: s' history_def output_ok_def)
    have "output_ok frames pc (us_Clients s') (us_accept s') j (history s' ! j)" if "j < length (us_conns s)" for j
    proof (cases "j = k")
      case True
      with AcceptAppend t have "j \<notin> set (targets pc)" by blast
      with True show ?thesis using k by (simp add: h output_ok_def pending_no_target) (simp add: s')
    next
      case False
      with ok [OF that] that show ?thesis by (simp add: h output_ok_def) (simp add: s')
    qed
    with t AcceptAppend show ?thesis by (simp add: output_inv_def) (simp add: s' history_def)
  next
    case (AcceptStart k)
    with step have s': "s' = set_conn k ((us_conns s ! k)\<lparr>bc_pc := HandlerSelect\<rparr>) (s\<lparr>us_accept := AcceptSelect\<rparr>)"
      by (simp add: accept_step_def split: if_splits)
    have "history s' = history (s\<lparr>us_accept := AcceptSelect\<rparr>)" unfolding s' by (rule history_same) simp_all
    then show ?thesis by (intro frame) (simp_all add: s' history_def)
  qed (use step in \<open>simp add: accept_step_def\<close>)
qed

lemma output_inv_snapshot:
  assumes "output_inv frames (MainSnapshot data) ks a jws" and "distinct ks"
    and "\<forall>k \<in> set ks. k < length jws"
  shows "output_inv (frames @ [data]) (MainWrite data ks) ks a jws"
proof -
  have "output_ok (frames @ [data]) (MainWrite data ks) ks a k (jws ! k)" if "k < length jws" for k
    using assms(1) that by (auto simp: output_inv_def output_ok_def)
  moreover have "a \<noteq> AcceptAppend k" if "k \<in> set ks" for k
    using assms(1,3) that by (auto simp: output_inv_def output_ok_def)
  ultimately show ?thesis using assms(2,3) by (simp add: output_inv_def)
qed

lemma output_inv_write:
  assumes "output_inv frames (MainWrite data (k # rest)) ks a jws" and "jw' = (fst (jws ! k), snd (jws ! k) @ [(data, ok)])"
  shows "output_inv frames (MainWrite data rest) ks a (jws[k := jw'])"
proof -
  have k: "k < length jws" "k \<notin> set rest" "a \<noteq> AcceptAppend k" using assms(1) by (simp_all add: output_inv_def)
  have "output_ok frames (MainWrite data rest) ks a j (jws[k := jw'] ! j)" if "j < length jws" for j
  proof (cases "j = k")
    case True
    have "output_ok frames (MainWrite data (k # rest)) ks a k (jws ! k)" using assms(1) k by (simp add: output_inv_def)
    with True k show ?thesis by (simp add: output_ok_def assms(2))
  next
    case False
    have "output_ok frames (MainWrite data (k # rest)) ks a j (jws ! j)" using assms(1) that by (simp add: output_inv_def)
    with False k show ?thesis by (simp add: output_ok_def)
  qed
  with assms(1) show ?thesis by (simp add: output_inv_def)
qed

lemma client_relay_pc: "client_relay k sent c \<Longrightarrow> bc_pc c' = bc_pc c \<Longrightarrow> bc_read c' = bc_read c \<Longrightarrow> client_relay k sent c'"
  by (simp add: client_relay_def)

lemma input_inv_same:
  assumes "input_inv sent cs" and "length cs' = length cs"
    and "\<And>k. k < length cs \<Longrightarrow> bc_pc (cs' ! k) = bc_pc (cs ! k) \<and> bc_read (cs' ! k) = bc_read (cs ! k)"
  shows "input_inv sent cs'"
  using assms client_relay_pc by (fastforce simp: input_inv_def)

lemma input_inv_update:
  assumes "input_inv sent cs" and "k < length cs" and "client_relay k sent' c" and "new_sent k sent sent'"
  shows "input_inv sent' (cs[k := c])"
proof -
  have "sent_by j sent' = sent_by j sent" if "j \<noteq> k" for j
    using assms(4) that by (auto simp: new_sent_def sent_by_def)
  then have "client_relay j sent' (cs[k := c] ! j)" if "j < length cs" for j
    using assms(1-3) that by (cases "j = k") (simp_all add: input_inv_def client_relay_def)
  with assms(1,2,4) show ?thesis by (auto simp: input_inv_def new_sent_def)
qed

lemma input_inv_accept:
  assumes "sock_inv cn cl s" and "input_inv sent (us_conns s)" and "accept_step cn frames ev s = Goes s'"
  shows "input_inv sent (us_conns s')"
proof (cases "us_accept s")
  case AcceptWait
  have "sent_by (length (us_conns s)) sent = []"
    using assms(2) by (auto simp: input_inv_def sent_by_def filter_empty_conv)
  then have "input_inv sent (us_conns s @ [new_client_conn])"
    using assms(2) by (auto simp: input_inv_def nth_append less_Suc_eq new_client_conn_def client_relay_def)
  with AcceptWait assms(2,3) show ?thesis
    by (auto simp: accept_step_def accept_fails_def split: accept_event.splits if_splits)
next
  case (AcceptAppend k)
  then have k: "k < length (us_conns s)" using assms(1) by (auto simp: sock_inv_def)
  from AcceptAppend assms(3) have "us_conns s' = (us_conns s)[k := (us_conns s ! k)\<lparr>bc_joined := frames\<rparr>]"
    by (auto simp: accept_step_def split: if_splits)
  with k assms(2) show ?thesis by (simp add: input_inv_same [OF assms(2)] nth_list_update)
next
  case (AcceptStart k)
  then have k: "k < length (us_conns s)" using assms(1) by (auto simp: sock_inv_def)
  with sock_inv_client [OF assms(1) k] AcceptStart have off: "bc_pc (us_conns s ! k) = HandlerOff" by (simp add: place_ok_def)
  from AcceptStart assms(3) have "us_conns s' = (us_conns s)[k := (us_conns s ! k)\<lparr>bc_pc := HandlerSelect\<rparr>]"
    by (auto simp: accept_step_def split: if_splits)
  moreover have "client_relay k sent (us_conns s ! k)" using assms(2) k by (simp add: input_inv_def)
  then have "client_relay k sent ((us_conns s ! k)\<lparr>bc_pc := HandlerSelect\<rparr>)" using off by (simp add: client_relay_def)
  ultimately show ?thesis using input_inv_update [OF assms(2) k] by (simp add: new_sent_def)
qed (use assms in \<open>auto simp: accept_step_def split: if_splits\<close>)

lemma relay_inv_main:
  assumes "bridge_inv b" and "relay_inv b" and "main_step works b = Goes b'"
  shows "relay_inv b'"
proof -
  let ?w = "br_writer b"
  have out: "output_inv (br_frames b) (br_main b) (us_Clients ?w) (us_accept ?w) (history ?w)"
    and inp: "input_inv (br_sent b) (us_conns (br_reader b))" using assms(2) by (simp_all add: relay_inv_def output_of_def)
  have idle: "output_inv (br_frames b) pc (us_Clients ?w) (us_accept ?w) (history ?w)"
    if "targets (br_main b) = []" "targets pc = []" for pc using output_inv_idle [OF out] that by simp
  have closed: "history (close_clients s) = history s" "us_Clients (close_clients s) = us_Clients s"
    "us_accept (close_clients s) = us_accept s" for s
    by (auto simp: close_clients_def history_def close_conns_nth intro: nth_equalityI)
  have files: "history (close_sock_listener s) = history s" "history (remove_file s) = history s"
    "us_Clients (close_sock_listener s) = us_Clients s" "us_Clients (remove_file s) = us_Clients s"
    "us_accept (close_sock_listener s) = us_accept s" "us_accept (remove_file s) = us_accept s" for s
    by (simp_all add: close_sock_listener_def remove_file_def history_def)
  have closed_in: "input_inv (br_sent b) (us_conns (close_clients (br_reader b)))"
    using inp by (rule input_inv_same) (simp_all add: close_clients_def close_conns_nth)
  show ?thesis
  proof (cases "br_main b")
    case (MainSnapshot data)
    with assms(3) have b': "b' = b\<lparr>br_frames := br_frames b @ [data], br_main := MainWrite data (us_Clients ?w)\<rparr>"
      by (simp add: main_step_def Broadcast_def)
    have "distinct (us_Clients ?w)" "\<forall>k \<in> set (us_Clients ?w). k < length (history ?w)"
      using assms(1) by (simp_all add: bridge_inv_def sock_inv_def history_def)
    with output_inv_snapshot out MainSnapshot inp show ?thesis by (simp add: b' relay_inv_def output_of_def)
  next
    case (MainWrite data ks)
    show ?thesis
    proof (cases ks)
      case Nil
      with MainWrite assms(3) have b': "b' = b\<lparr>br_main := MainRead\<rparr>" by (simp add: main_step_def Broadcast_def)
      with inp MainWrite Nil show ?thesis by (simp add: relay_inv_def output_of_def idle)
    next
      case (Cons k rest)
      let ?c = "us_conns ?w ! k"
      let ?c' = "?c\<lparr>bc_writes := bc_writes ?c @ [(data, works \<and> bc_open ?c)]\<rparr>"
      have b': "b' = b\<lparr>br_main := MainWrite data rest, br_writer := set_conn k ?c' ?w\<rparr>"
        using MainWrite Cons assms(3) by (simp add: main_step_def Broadcast_def Let_def)
      have k: "k < length (us_conns ?w)" using out MainWrite Cons by (simp add: output_inv_def history_def)
      have "output_inv (br_frames b) (MainWrite data rest) (us_Clients ?w) (us_accept ?w)
          ((history ?w)[k := (fst (history ?w ! k), snd (history ?w ! k) @ [(data, works \<and> bc_open ?c)])])"
        by (rule output_inv_write) (use out MainWrite Cons in simp_all)
      moreover have "history (set_conn k ?c' ?w)
          = (history ?w)[k := (fst (history ?w ! k), snd (history ?w ! k) @ [(data, works \<and> bc_open ?c)])]"
        using k by (simp add: history_def map_update)
      ultimately show ?thesis using inp by (simp add: b' relay_inv_def output_of_def)
    qed
  qed (use assms(3) out inp closed_in in \<open>auto simp: main_step_def cleaning_defs relay_inv_def output_of_def closed files idle
      split: if_splits\<close>)
qed

lemma relay_inv_step:
  assumes "bridge_inv b" and "relay_inv b" and "bridge_step m b = Goes b'"
  shows "relay_inv b'"
proof -
  let ?w = "br_writer b" and ?r = "br_reader b"
  have out: "output_inv (br_frames b) (br_main b) (us_Clients ?w) (us_accept ?w) (history ?w)"
    and inp: "input_inv (br_sent b) (us_conns ?r)" using assms(2) by (simp_all add: relay_inv_def output_of_def)
  have wi: "sock_inv (br_cancelled b) (4 \<le> stage (br_main b)) ?w" "sock_inv (br_cancelled b) (5 \<le> stage (br_main b)) ?r"
    using assms(1) by (simp_all add: bridge_inv_def)
  show ?thesis
  proof (cases m)
    case (Incoming got)
    with assms(3) obtain pc where pc: "br_main b = MainRead" "b' = b\<lparr>br_main := pc\<rparr>" "targets pc = []"
      by (cases got) (auto simp: handleWebSocketMessages_def split: if_splits intro: that [of MainRead])
    with output_inv_idle [OF out _ pc(3)] inp show ?thesis by (simp add: relay_inv_def output_of_def)
  next
    case (MainMove works)
    with assms relay_inv_main show ?thesis by simp
  next
    case (WriterAccept ev)
    with assms(3) obtain s where s: "accept_step (br_cancelled b) (length (br_frames b)) ev ?w = Goes s" "b' = b\<lparr>br_writer := s\<rparr>"
      by (auto simp: acceptWriterUnixSockClients_def then_go_Goes)
    with output_inv_accept [OF wi(1) out] inp show ?thesis by (simp add: relay_inv_def output_of_def)
  next
    case (ReaderAccept ev)
    with assms(3) obtain s where s: "accept_step (br_cancelled b) (length (br_frames b)) ev ?r = Goes s" "b' = b\<lparr>br_reader := s\<rparr>"
      by (auto simp: acceptReaderUnixSockClients_def then_go_Goes)
    with input_inv_accept [OF wi(2) inp] out show ?thesis by (simp add: relay_inv_def output_of_def)
  next
    case (WriterClient ev k)
    have "k < length (us_conns ?w) \<Longrightarrow> \<not> relaying (bc_pc (us_conns ?w ! k))" using assms(1) by (simp add: bridge_inv_def)
    with assms(3) [unfolded WriterClient bridge_step.simps] show ?thesis
    proof (rule writer_client_cases)
      fix c assume "b' = b\<lparr>br_writer := set_conn k c ?w\<rparr>" "client_moved (br_cancelled b) (us_conns ?w ! k) c"
      with out inp show ?thesis by (simp add: relay_inv_def output_of_def client_moved_def history_same)
    next
      assume b': "b' = b\<lparr>br_writer := client_remove k ?w\<rparr>"
      have "history (client_remove k ?w) = history (?w\<lparr>us_Clients := remove1 k (us_Clients ?w)\<rparr>)"
        unfolding client_remove_def by (rule history_same) simp_all
      then have "history (client_remove k ?w) = history ?w" by (simp add: history_def)
      moreover have "output_inv (br_frames b) (br_main b) (remove1 k (us_Clients ?w)) (us_accept ?w) (history ?w)"
        by (rule output_inv_remove [OF out set_remove1_subset])
      ultimately show ?thesis using inp by (simp add: b' relay_inv_def output_of_def) (simp add: client_remove_def)
    qed
  next
    case (ReaderClient ev k)
    show ?thesis
    proof (rule reader_client_cases [OF assms(3) [unfolded ReaderClient bridge_step.simps] mutex_holder [OF assms(1)]])
      fix c mu sent assume moved: "k < length (us_conns ?r)"
        "b' = b\<lparr>br_WriteMu := mu, br_reader := set_conn k c ?r, br_sent := sent\<rparr>"
        "client_relay k (br_sent b) (us_conns ?r ! k) \<Longrightarrow> client_relay k sent c \<and> new_sent k (br_sent b) sent"
      with inp have "client_relay k sent c \<and> new_sent k (br_sent b) sent" by (simp add: input_inv_def)
      with input_inv_update [OF inp moved(1)] out show ?thesis by (simp add: moved(2) relay_inv_def output_of_def)
    next
      assume removed: "k < length (us_conns ?r)" "b' = b\<lparr>br_reader := client_remove k ?r\<rparr>" "bc_pc (us_conns ?r ! k) = HandlerRemove"
      have "client_relay k (br_sent b) (us_conns ?r ! k)" using inp removed(1) by (simp add: input_inv_def)
      then have "client_relay k (br_sent b) ((us_conns ?r ! k)\<lparr>bc_pc := HandlerEnd\<rparr>)"
        using removed(3) by (simp add: client_relay_def)
      with input_inv_update [OF inp removed(1)] out show ?thesis
        by (simp add: removed(2) relay_inv_def output_of_def client_remove_def new_sent_def)
    qed
  qed
qed

interpretation bridges: threads bridge_step "start_bridge faults conn" "\<lambda>b. bridge_inv b \<and> relay_inv b"
  by unfold_locales (use bridge_inv_start relay_inv_start bridge_inv_step relay_inv_step in auto)

text \<open>What comes in: the data frames of the WebSocket, and the bytes of a client of the input socket.\<close>

fun given_frame :: "bridge_move \<Rightarrow> string list" where
  "given_frame (Incoming (Message messageType data)) = (if messageType = BinaryMessage \<or> messageType = TextMessage then [data] else [])"
| "given_frame m = []"

fun given_bytes :: "nat \<Rightarrow> bridge_move \<Rightarrow> string" where
  "given_bytes k (ReaderClient (PeerSends bs) j) = (if j = k then bs else [])"
| "given_bytes k m = []"

text \<open>A frame that was read and not yet handed to the broadcast.\<close>

fun at_hand :: "main_pc \<Rightarrow> string list" where
  "at_hand (MainSnapshot data) = [data]"
| "at_hand pc = []"

definition bytes_read :: "nat \<Rightarrow> bridge \<Rightarrow> string" where
  "bytes_read k b = (if k < length (us_conns (br_reader b)) then bc_read (us_conns (br_reader b) ! k) else [])"

lemma frames_step:
  assumes "bridge_step m b = Goes b'"
  shows "br_frames b' @ at_hand (br_main b') = br_frames b @ at_hand (br_main b) @ given_frame m"
proof (cases m)
  case (Incoming got)
  with assms show ?thesis by (cases got) (auto simp: handleWebSocketMessages_def split: if_splits)
next
  case (MainMove works)
  with assms show ?thesis
    by (cases "br_main b")
      (auto simp: main_step_def cleaning_defs Broadcast_def Let_def split: if_splits list.splits)
next
  case (WriterClient ev k)
  with assms have "handleWriterUnixSockClient ev k b = Goes b'" by simp
  then have "br_frames b' = br_frames b \<and> br_main b' = br_main b"
    by (cases "bc_pc (us_conns (br_writer b) ! k)")
      (auto simp: handleWriterUnixSockClient_def Let_def then_go_Goes removeWriterUnixSockClient_def split: if_splits option.splits)
  with WriterClient show ?thesis by simp
next
  case (ReaderClient ev k)
  with assms have "handleReaderUnixSockClient ev k b = Goes b'" by simp
  then have "br_frames b' = br_frames b \<and> br_main b' = br_main b"
    by (cases "bc_pc (us_conns (br_reader b) ! k)"; cases ev)
      (auto simp: handleReaderUnixSockClient_def Let_def then_go_Goes removeReaderUnixSockClient_def split: if_splits option.splits)
  with ReaderClient show ?thesis by (cases ev) simp_all
qed (use assms in \<open>auto simp: acceptWriterUnixSockClients_def acceptReaderUnixSockClients_def then_go_Goes\<close>)

lemma reads_accept:
  assumes "accept_step cn frames ev s = Goes s'" and "sock_inv cn cl s"
  shows "length (us_conns s) \<le> length (us_conns s')
    \<and> (\<forall>k < length (us_conns s'). bc_read (us_conns s' ! k) = (if k < length (us_conns s) then bc_read (us_conns s ! k) else []))"
proof (cases "us_accept s")
  case AcceptWait
  with assms(1) show ?thesis
    by (auto simp: accept_step_def accept_fails_def new_client_conn_def nth_append split: if_splits accept_event.splits)
qed (use assms in \<open>auto simp: accept_step_def sock_inv_def nth_list_update split: if_splits\<close>)

lemma reads_client:
  assumes "handleReaderUnixSockClient ev k b = Goes b'"
  shows "bytes_read j b' = bytes_read j b @ given_bytes j (ReaderClient ev k)"
proof -
  let ?c = "us_conns (br_reader b) ! k"
  have k: "k < length (us_conns (br_reader b))"
    using assms by (auto simp: handleReaderUnixSockClient_def Let_def split: if_splits)
  have step: ?thesis if "us_conns (br_reader b') = (us_conns (br_reader b))[k := c]"
    "bc_read c = bc_read ?c @ given_bytes k (ReaderClient ev k)" for c
    using that k by (cases "j = k"; cases ev) (simp_all add: bytes_read_def)
  show ?thesis
  proof (cases "bc_pc ?c = HandlerRead")
    case True
    then obtain got where "client_read bufferSize ev ?c = Goes got" and "b' = b\<lparr>br_reader := set_conn k (case got of
        None \<Rightarrow> ?c\<lparr>bc_pc := HandlerClose\<rparr>
      | Some bs \<Rightarrow> ?c\<lparr>bc_pc := (if bs = [] then HandlerSelect else HandlerLock bs), bc_read := bc_read ?c @ bs\<rparr>) (br_reader b)\<rparr>"
      using assms k by (auto simp: handleReaderUnixSockClient_def Let_def then_go_Goes split: option.splits)
    then show ?thesis by (intro step) (cases ev; auto simp: client_read_def split: if_splits)+
  next
    case False
    then obtain works where ev: "ev = ClientRuns works"
      using assms k by (cases ev) (auto simp: handleReaderUnixSockClient_def Let_def)
    obtain c where "us_conns (br_reader b') = (us_conns (br_reader b))[k := c]" "bc_read c = bc_read ?c"
      using assms k ev False that
      by (cases "bc_pc ?c") (auto simp: handleReaderUnixSockClient_def Let_def client_select_def client_close_def
          removeReaderUnixSockClient_def client_remove_def split: if_splits)
    with ev show ?thesis by (intro step [of c]) simp_all
  qed
qed

lemma reads_step:
  assumes "bridge_inv b" and "bridge_step m b = Goes b'"
  shows "bytes_read k b' = bytes_read k b @ given_bytes k m"
proof (cases m)
  case (ReaderAccept ev)
  with assms(2) obtain s where "accept_step (br_cancelled b) (length (br_frames b)) ev (br_reader b) = Goes s" "b' = b\<lparr>br_reader := s\<rparr>"
    by (auto simp: acceptReaderUnixSockClients_def then_go_Goes)
  moreover have "sock_inv (br_cancelled b) (5 \<le> stage (br_main b)) (br_reader b)" using assms(1) by (simp add: bridge_inv_def)
  ultimately show ?thesis using reads_accept [of _ _ ev "br_reader b" s] ReaderAccept by (fastforce simp: bytes_read_def)
next
  case (ReaderClient ev j)
  with assms(2) reads_client show ?thesis by simp
next
  case (MainMove works)
  have "length (us_conns (br_reader b')) = length (us_conns (br_reader b))
      \<and> (k < length (us_conns (br_reader b)) \<longrightarrow> bc_read (us_conns (br_reader b') ! k) = bc_read (us_conns (br_reader b) ! k))"
    using assms(2) MainMove
    by (cases "br_main b")
      (auto simp: main_step_def cleaning_defs Broadcast_def Let_def close_clients_def close_conns_nth split: if_splits list.splits)
  with MainMove show ?thesis by (simp add: bytes_read_def)
next
  case (Incoming got)
  with assms(2) show ?thesis by (cases got) (auto simp: handleWebSocketMessages_def bytes_read_def split: if_splits)
next
  case (WriterClient ev j)
  with assms(2) have "handleWriterUnixSockClient ev j b = Goes b'" by simp
  then have "br_reader b' = br_reader b"
    by (cases "bc_pc (us_conns (br_writer b) ! j)")
      (auto simp: handleWriterUnixSockClient_def Let_def then_go_Goes removeWriterUnixSockClient_def split: if_splits option.splits)
  with WriterClient show ?thesis by (simp add: bytes_read_def)
qed (use assms in \<open>auto simp: acceptWriterUnixSockClients_def then_go_Goes bytes_read_def\<close>)

lemma given_run:
  assumes "run bridge_step ms (start_bridge faults conn) = Goes b"
  shows "br_frames b @ at_hand (br_main b) = concat (map given_frame ms)
    \<and> bytes_read k b = concat (map (given_bytes k) ms)"
  using assms
proof (induction ms arbitrary: b rule: rev_induct)
  case (snoc m ms)
  then obtain c where c: "run bridge_step ms (start_bridge faults conn) = Goes c" "bridge_step m c = Goes b"
    by (auto simp: run_append then_go_Goes)
  have "bridge_inv c" using bridges.reaches_inv [OF run_from_init [OF c(1)]] by simp
  with snoc.IH [OF c(1)] frames_step [OF c(2)] reads_step [OF _ c(2), of k] show ?case by simp
qed (simp add: start_bridge_def bytes_read_def new_sock_def)

text \<open>
  C12: a bridge that was set up relays in order in both directions, whatever the interleaving. A client of the output
  socket gets, from the moment it is in the list, the data frames that came in over the WebSocket in their order, none
  left out and none twice (a write may fail): all of them while it stays in the list, apart from the one the broadcast
  still has to write to it, and an initial part of them once it is gone. What a client of the input socket sends goes
  out in its order, in nonempty messages of at most 4096 bytes, nothing left out but what a failed write or the end of
  the connection cuts off at the end. Never do two goroutines write to the WebSocket at once.
\<close>

theorem bridge_relays:
  assumes "setupConnection faults writes socketsDir connID eventID now w = (Inr b0, w')"
    and "run bridge_step ms b0 = Goes b"
  shows "br_frames b @ at_hand (br_main b) = concat (map given_frame ms)
    \<and> (\<forall>k c. k < length (us_conns (br_writer b)) \<and> c = us_conns (br_writer b) ! k \<longrightarrow>
        (\<exists>later. drop (bc_joined c) (br_frames b) = map fst (bc_writes c) @ pending (br_main b) k @ later
          \<and> (k \<in> set (us_Clients (br_writer b)) \<longrightarrow> later = [])))
    \<and> (\<forall>k c. k < length (us_conns (br_reader b)) \<and> c = us_conns (br_reader b) ! k \<longrightarrow>
        (\<exists>lost. concat (map (given_bytes k) ms) = concat (sent_by k (br_sent b)) @ chunk (bc_pc c) @ lost
          \<and> (\<not> ending (bc_pc c) \<longrightarrow> lost = [])))
    \<and> (\<forall>(k, bs) \<in> set (br_sent b). bs \<noteq> [] \<and> length bs \<le> 4096)
    \<and> length (filter (\<lambda>c. holding (bc_pc c)) (us_conns (br_reader b))) \<le> 1"
proof -
  obtain conn where b0: "b0 = start_bridge faults conn" using setup_listens [OF assms(1)] by blast
  note r = assms(2) [unfolded b0]
  have inv: "bridge_inv b" "relay_inv b" using bridges.reaches_inv [OF run_from_init [OF r]] by simp_all
  have frames: "br_frames b @ at_hand (br_main b) = concat (map given_frame ms)" using given_run [OF r] by blast
  have out: "\<exists>later. drop (bc_joined c) (br_frames b) = map fst (bc_writes c) @ pending (br_main b) k @ later
      \<and> (k \<in> set (us_Clients (br_writer b)) \<longrightarrow> later = [])"
    if "k < length (us_conns (br_writer b)) \<and> c = us_conns (br_writer b) ! k" for k c
    using inv(2) that by (simp add: relay_inv_def output_of_def output_inv_def output_ok_def history_def)
  have inp: "\<exists>lost. concat (map (given_bytes k) ms) = concat (sent_by k (br_sent b)) @ chunk (bc_pc c) @ lost
      \<and> (\<not> ending (bc_pc c) \<longrightarrow> lost = [])"
    if k: "k < length (us_conns (br_reader b)) \<and> c = us_conns (br_reader b) ! k" for k c
  proof -
    have "client_relay k (br_sent b) c" using inv(2) k by (simp add: relay_inv_def input_inv_def)
    moreover have "bytes_read k b = concat (map (given_bytes k) ms)" using given_run [OF r] by blast
    ultimately show ?thesis using k by (simp add: client_relay_def bytes_read_def)
  qed
  have "\<forall>(k, bs) \<in> set (br_sent b). bs \<noteq> [] \<and> length bs \<le> 4096"
    using inv(2) by (auto simp: relay_inv_def input_inv_def bufferSize_def)
  moreover have "holders (br_reader b) \<le> 1" using inv(1) by (simp add: bridge_inv_def)
  ultimately show ?thesis using frames out inp by blast
qed

abbreviation joins :: "(accept_event \<Rightarrow> bridge_move) \<Rightarrow> bridge_move list" where
  "joins accept \<equiv> [accept AcceptRuns, accept PeerConnects, accept AcceptRuns, accept AcceptRuns]"

definition example_run :: "bridge_move list" where
  "example_run = MainMove True # joins WriterAccept
     @ [Incoming (Message 1 ''a''), MainMove True, MainMove True, MainMove True, Incoming (Message 2 ''b'')]
     @ joins ReaderAccept
     @ [ReaderClient (ClientRuns True) 0, ReaderClient (PeerSends ''xy'') 0, ReaderClient (ClientRuns True) 0,
        ReaderClient (ClientRuns True) 0]"

definition example_bridge :: bridge where
  "example_bridge = start_bridge all_well \<lparr>bn_ID = ''id'', bn_Writer = \<lparr>sk_Listener = Some ''/run/id_output'', sk_Path = ''/run/id_output''\<rparr>,
     bn_Reader = \<lparr>sk_Listener = Some ''/run/id_input'', sk_Path = ''/run/id_input''\<rparr>\<rparr>"

lemma example_setup:
  "setupConnection all_well (\<lambda>_. True) ''/run'' ''id'' ''e'' 0 \<lparr>os_files = [], os_listening = []\<rparr>
    = (Inr example_bridge, \<lparr>os_files = [''/run/id_input'', ''/run/id_output''], os_listening = [''/run/id_input'', ''/run/id_output'']\<rparr>)"
proof -
  let ?r = "setupConnection all_well (\<lambda>_. True) ''/run'' ''id'' ''e'' 0 \<lparr>os_files = [], os_listening = []\<rparr>"
  have "path_join [''/run'', ''id''] = ''/run/id''" by code_simp
  then show ?thesis
    by (simp add: setupConnection_def createUnixSockets_def all_well_def os_Remove_def net_Listen_def Let_def NewEvent_def
        newEventMetadataMap_def writerUnixSockSuffix_def readerUnixSockSuffix_def example_bridge_def start_bridge_def)
qed

lemma bridge_relays_witness:
  "\<exists>b. run bridge_step example_run example_bridge = Goes b
    \<and> br_frames b = [''a''] \<and> at_hand (br_main b) = [''b''] \<and> bc_writes (us_conns (br_writer b) ! 0) = [(''a'', True)]
    \<and> br_sent b = [(0, ''xy'')] \<and> br_frames b @ at_hand (br_main b) = concat (map given_frame example_run)"
proof -
  let ?r = "run bridge_step example_run example_bridge"
  have "map_option (\<lambda>b. (br_frames b, at_hand (br_main b), map bc_writes (us_conns (br_writer b)), br_sent b)) (goes ?r)
      = Some ([''a''], [''b''], [[(''a'', True)]], [(0, ''xy'')])"
    by code_simp
  from goes_mapD [OF this] obtain b where b: "?r = Goes b" "br_frames b = [''a'']" "at_hand (br_main b) = [''b'']"
    "map bc_writes (us_conns (br_writer b)) = [[(''a'', True)]]" "br_sent b = [(0, ''xy'')]" by auto
  then have "bc_writes (us_conns (br_writer b) ! 0) = [(''a'', True)]" by (cases "us_conns (br_writer b)") auto
  with b bridge_relays [OF example_setup b(1)] show ?thesis by blast
qed

end
