(* ===== verification/Ws_Bridge_Stop.thy ===== *)
theory Ws_Bridge_Stop imports Ws_Bridge_Relay begin

text \<open>
  The end of a bridge: once the WebSocket has ended and the context is cancelled, its goroutines come to an end by
  themselves, whatever the peers do or leave undone, and nothing is left open but the WebSocket.
\<close>

definition own_bridge_move :: "bridge_move \<Rightarrow> bool" where
  "own_bridge_move m \<longleftrightarrow>
     (case m of
        Incoming got \<Rightarrow> False | MainMove works \<Rightarrow> True
      | WriterAccept ev \<Rightarrow> ev = AcceptRuns | ReaderAccept ev \<Rightarrow> ev = AcceptRuns
      | WriterClient ev k \<Rightarrow> client_runs ev | ReaderClient ev k \<Rightarrow> client_runs ev)"

definition sock_over :: "unix_sock \<Rightarrow> bool" where
  "sock_over s \<longleftrightarrow> us_accept s = AcceptEnd \<and> (\<forall>c \<in> set (us_conns s). bc_pc c = HandlerEnd)"

definition bridge_over :: "bridge \<Rightarrow> bool" where
  "bridge_over b \<longleftrightarrow> br_main b = MainEnd \<and> sock_over (br_writer b) \<and> sock_over (br_reader b)"

definition nothing_left :: "unix_sock \<Rightarrow> bool" where
  "nothing_left s \<longleftrightarrow> \<not> us_listening s \<and> (us_file s \<longrightarrow> \<not> us_removable s) \<and> us_Clients s = [] \<and> (\<forall>c \<in> set (us_conns s). \<not> bc_open c)"

lemma over_nothing_left:
  assumes "bridge_inv b" and "bridge_over b"
  shows "\<not> br_registered b \<and> nothing_left (br_writer b) \<and> nothing_left (br_reader b)"
  using assms sock_inv_over [of _ _ "br_writer b"] sock_inv_over [of _ _ "br_reader b"]
  by (auto simp: bridge_inv_def phase_inv_def bridge_over_def sock_over_def nothing_left_def)

section \<open>The work that is left\<close>

fun accept_work :: "accept_pc \<Rightarrow> nat" where
  "accept_work AcceptEnd = 0"
| "accept_work AcceptSelect = 1"
| "accept_work AcceptWait = 1"
| "accept_work (AcceptStart k) = 2"
| "accept_work (AcceptAppend k) = 3"

definition sock_work :: "unix_sock \<Rightarrow> nat" where
  "sock_work s = accept_work (us_accept s) + sum_list (map (\<lambda>c. handler_work (bc_pc c)) (us_conns s))"

definition bridge_work :: "bridge \<Rightarrow> nat" where
  "bridge_work b = (10 - stage (br_main b)) + sock_work (br_writer b) + sock_work (br_reader b)"

lemma sock_work_client:
  assumes "k < length (us_conns s)" and "handler_work (bc_pc c) < handler_work (bc_pc (us_conns s ! k))"
  shows "sock_work (set_conn k c s) < sock_work s"
  using sum_list_map_update [OF assms(1), of "\<lambda>c. handler_work (bc_pc c)" c] assms(2) by (simp add: sock_work_def)

lemma sock_work_remove:
  assumes "k < length (us_conns s)" and "bc_pc (us_conns s ! k) = HandlerRemove"
  shows "sock_work (client_remove k s) < sock_work s"
  using sum_list_map_update [OF assms(1), of "\<lambda>c. handler_work (bc_pc c)" "(us_conns s ! k)\<lparr>bc_pc := HandlerEnd\<rparr>"] assms(2)
  by (simp add: sock_work_def client_remove_def)

lemma sock_work_accept:
  assumes "accept_step True frames AcceptRuns s = Goes s'" and "sock_inv cn cl s"
  shows "sock_work s' < sock_work s"
proof (cases "us_accept s")
  case (AcceptAppend k)
  then have "k < length (us_conns s)" using assms(2) by (auto simp: sock_inv_def)
  with AcceptAppend assms(1) sum_list_map_update [of k "us_conns s" "\<lambda>c. handler_work (bc_pc c)" "(us_conns s ! k)\<lparr>bc_joined := frames\<rparr>"]
  show ?thesis by (auto simp: accept_step_def sock_work_def)
next
  case (AcceptStart k)
  then have k: "k < length (us_conns s)" using assms(2) by (auto simp: sock_inv_def)
  with sock_inv_client [OF assms(2) k] AcceptStart have "bc_pc (us_conns s ! k) = HandlerOff" by (simp add: place_ok_def)
  with k AcceptStart assms(1) sum_list_map_update [of k "us_conns s" "\<lambda>c. handler_work (bc_pc c)" "(us_conns s ! k)\<lparr>bc_pc := HandlerSelect\<rparr>"]
  show ?thesis by (auto simp: accept_step_def sock_work_def)
qed (use assms(1) in \<open>auto simp: accept_step_def accept_fails_def sock_work_def split: if_splits\<close>)

lemma sock_work_closed [simp]:
  "sock_work (close_clients s) = sock_work s" "sock_work (close_sock_listener s) = sock_work s" "sock_work (remove_file s) = sock_work s"
proof -
  have e: "map (\<lambda>c. handler_work (bc_pc c)) cs = map handler_work (map bc_pc cs)" for cs by simp
  show "sock_work (close_clients s) = sock_work s"
    unfolding sock_work_def e by (simp add: close_clients_def close_conns_pcs del: map_map)
qed (simp_all add: sock_work_def close_sock_listener_def remove_file_def)

lemma own_move_works:
  assumes inv: "bridge_inv b" and started: "br_cancelled b" and own: "own_bridge_move m" and step: "bridge_step m b = Goes b'"
  shows "br_cancelled b' \<and> bridge_work b' < bridge_work b"
proof (cases m)
  case (MainMove works)
  have "2 \<le> stage (br_main b)" using inv started by (simp add: bridge_inv_def phase_inv_def)
  with MainMove step started show ?thesis
    by (cases "br_main b") (auto simp: main_step_def cleaning_defs bridge_work_def split: if_splits)
next
  case (WriterAccept ev)
  with step started own obtain s where s: "accept_step True (length (br_frames b)) AcceptRuns (br_writer b) = Goes s" "b' = b\<lparr>br_writer := s\<rparr>"
    by (auto simp: acceptWriterUnixSockClients_def then_go_Goes own_bridge_move_def)
  have "sock_inv (br_cancelled b) (4 \<le> stage (br_main b)) (br_writer b)" using inv by (simp add: bridge_inv_def)
  with sock_work_accept [OF s(1)] started show ?thesis by (simp add: s(2) bridge_work_def)
next
  case (ReaderAccept ev)
  with step started own obtain s where s: "accept_step True (length (br_frames b)) AcceptRuns (br_reader b) = Goes s" "b' = b\<lparr>br_reader := s\<rparr>"
    by (auto simp: acceptReaderUnixSockClients_def then_go_Goes own_bridge_move_def)
  have "sock_inv (br_cancelled b) (5 \<le> stage (br_main b)) (br_reader b)" using inv by (simp add: bridge_inv_def)
  with sock_work_accept [OF s(1)] started show ?thesis by (simp add: s(2) bridge_work_def)
next
  case (WriterClient ev k)
  have "k < length (us_conns (br_writer b)) \<Longrightarrow> \<not> relaying (bc_pc (us_conns (br_writer b) ! k))" using inv by (simp add: bridge_inv_def)
  with step [unfolded WriterClient bridge_step.simps] show ?thesis
  proof (rule writer_client_cases)
    fix c assume "k < length (us_conns (br_writer b))" and b': "b' = b\<lparr>br_writer := set_conn k c (br_writer b)\<rparr>"
      and "br_cancelled b \<and> client_runs ev \<Longrightarrow> handler_work (bc_pc c) < handler_work (bc_pc (us_conns (br_writer b) ! k))"
    with sock_work_client [of k "br_writer b" c] own started WriterClient show ?thesis by (simp add: bridge_work_def own_bridge_move_def)
  next
    assume "k < length (us_conns (br_writer b))" and b': "b' = b\<lparr>br_writer := client_remove k (br_writer b)\<rparr>"
      and "bc_pc (us_conns (br_writer b) ! k) = HandlerRemove"
    with sock_work_remove [of k "br_writer b"] started show ?thesis by (simp add: bridge_work_def)
  qed
next
  case (ReaderClient ev k)
  show ?thesis
  proof (rule reader_client_cases [OF step [unfolded ReaderClient bridge_step.simps] mutex_holder [OF inv]])
    fix c mu sent assume "k < length (us_conns (br_reader b))"
      and "b' = b\<lparr>br_WriteMu := mu, br_reader := set_conn k c (br_reader b), br_sent := sent\<rparr>"
      and "br_cancelled b \<and> client_runs ev \<Longrightarrow> handler_work (bc_pc c) < handler_work (bc_pc (us_conns (br_reader b) ! k))"
    with sock_work_client [of k "br_reader b" c] own started ReaderClient show ?thesis by (simp add: bridge_work_def own_bridge_move_def)
  next
    assume "k < length (us_conns (br_reader b))" and b': "b' = b\<lparr>br_reader := client_remove k (br_reader b)\<rparr>"
      and "bc_pc (us_conns (br_reader b) ! k) = HandlerRemove"
    with sock_work_remove [of k "br_reader b"] started show ?thesis by (simp add: bridge_work_def)
  qed
qed (use own in \<open>simp add: own_bridge_move_def\<close>)

section \<open>Somebody can go on\<close>

lemma accept_goes:
  assumes "us_accept s \<noteq> AcceptEnd" and "\<not> us_listening s"
  shows "\<exists>s'. accept_step True frames AcceptRuns s = Goes s'"
  using assms by (cases "us_accept s") (auto simp: accept_step_def)

lemma ended_client:
  assumes "sock_inv cn True s" and "us_accept s = AcceptEnd" and "k < length (us_conns s)"
  shows "bc_pc (us_conns s ! k) \<noteq> HandlerOff" and "waits (bc_pc (us_conns s ! k)) \<Longrightarrow> \<not> bc_open (us_conns s ! k)"
  using sock_inv_client [OF assms(1,3)] assms(2) by (simp_all add: place_ok_def)

lemma writer_goes:
  assumes "bridge_inv b" and "br_main b = MainEnd" and "us_accept (br_writer b) = AcceptEnd"
    and "k < length (us_conns (br_writer b))" and "bc_pc (us_conns (br_writer b) ! k) \<noteq> HandlerEnd"
  shows "\<exists>b'. handleWriterUnixSockClient (ClientRuns True) k b = Goes b'"
proof -
  have "sock_inv (br_cancelled b) True (br_writer b)" "\<not> relaying (bc_pc (us_conns (br_writer b) ! k))"
    using assms by (simp_all add: bridge_inv_def)
  with ended_client [OF this(1) assms(3,4)] assms(4,5) show ?thesis
    by (cases "bc_pc (us_conns (br_writer b) ! k)")
      (auto simp: handleWriterUnixSockClient_def client_read_def Let_def)
qed

lemma reader_goes:
  assumes "bridge_inv b" and "br_main b = MainEnd" and "us_accept (br_reader b) = AcceptEnd"
    and "k < length (us_conns (br_reader b))" and "bc_pc (us_conns (br_reader b) ! k) \<noteq> HandlerEnd"
  shows "\<exists>j b'. handleReaderUnixSockClient (ClientRuns True) j b = Goes b'"
proof (cases "\<exists>bs. bc_pc (us_conns (br_reader b) ! k) = HandlerLock bs \<and> br_WriteMu b")
  case True
  then have "filter (\<lambda>c. holding (bc_pc c)) (us_conns (br_reader b)) \<noteq> []" using assms(1) by (auto simp: bridge_inv_def)
  then obtain j where j: "j < length (us_conns (br_reader b))" "holding (bc_pc (us_conns (br_reader b) ! j))"
    by (auto simp: filter_empty_conv in_set_conv_nth)
  then have "\<exists>b'. handleReaderUnixSockClient (ClientRuns True) j b = Goes b'"
    by (cases "bc_pc (us_conns (br_reader b) ! j)") (auto simp: handleReaderUnixSockClient_def Let_def)
  then show ?thesis by blast
next
  case False
  have "sock_inv (br_cancelled b) True (br_reader b)" using assms by (simp add: bridge_inv_def)
  with ended_client [OF this(1) assms(3,4)] False assms(4,5)
  have "\<exists>b'. handleReaderUnixSockClient (ClientRuns True) k b = Goes b'"
    by (cases "bc_pc (us_conns (br_reader b) ! k)")
      (auto simp: handleReaderUnixSockClient_def client_read_def Let_def)
  then show ?thesis by blast
qed

lemma own_move_enabled:
  assumes inv: "bridge_inv b" and started: "br_cancelled b" and not_over: "\<not> bridge_over b"
  shows "\<exists>m b'. own_bridge_move m \<and> bridge_step m b = Goes b'"
proof (cases "br_main b = MainEnd")
  case False
  have "2 \<le> stage (br_main b)" using inv started by (simp add: bridge_inv_def phase_inv_def)
  with False have "\<exists>b'. bridge_step (MainMove True) b = Goes b'"
    by (cases "br_main b") (auto simp: main_step_def cleaning_defs)
  then show ?thesis by (auto simp: own_bridge_move_def intro!: exI [of _ "MainMove True"])
next
  case main: True
  then have closed: "\<not> us_listening (br_writer b)" "\<not> us_listening (br_reader b)"
    using inv by (simp_all add: bridge_inv_def phase_inv_def)
  consider "us_accept (br_writer b) \<noteq> AcceptEnd" | "us_accept (br_reader b) \<noteq> AcceptEnd"
    | k where "us_accept (br_writer b) = AcceptEnd" "k < length (us_conns (br_writer b))" "bc_pc (us_conns (br_writer b) ! k) \<noteq> HandlerEnd"
    | k where "us_accept (br_reader b) = AcceptEnd" "k < length (us_conns (br_reader b))" "bc_pc (us_conns (br_reader b) ! k) \<noteq> HandlerEnd"
    using not_over main unfolding bridge_over_def sock_over_def by (metis in_set_conv_nth)
  then show ?thesis
  proof cases
    case 1
    with accept_goes closed obtain s where "accept_step True (length (br_frames b)) AcceptRuns (br_writer b) = Goes s" by blast
    with started have "bridge_step (WriterAccept AcceptRuns) b = Goes (b\<lparr>br_writer := s\<rparr>)" by (simp add: acceptWriterUnixSockClients_def)
    then show ?thesis by (auto simp: own_bridge_move_def intro!: exI [of _ "WriterAccept AcceptRuns"])
  next
    case 2
    with accept_goes closed obtain s where "accept_step True (length (br_frames b)) AcceptRuns (br_reader b) = Goes s" by blast
    with started have "bridge_step (ReaderAccept AcceptRuns) b = Goes (b\<lparr>br_reader := s\<rparr>)" by (simp add: acceptReaderUnixSockClients_def)
    then show ?thesis by (auto simp: own_bridge_move_def intro!: exI [of _ "ReaderAccept AcceptRuns"])
  next
    case (3 k)
    with writer_goes [OF inv main] obtain b' where "bridge_step (WriterClient (ClientRuns True) k) b = Goes b'" by auto
    then show ?thesis by (auto simp: own_bridge_move_def intro!: exI [of _ "WriterClient (ClientRuns True) k"])
  next
    case (4 k)
    from reader_goes [OF inv main 4] obtain j b' where "handleReaderUnixSockClient (ClientRuns True) j b = Goes b'" by blast
    then have "bridge_step (ReaderClient (ClientRuns True) j) b = Goes b'" by simp
    then show ?thesis by (auto simp: own_bridge_move_def intro!: exI [of _ "ReaderClient (ClientRuns True) j"])
  qed
qed

interpretation bridge_end: finishing bridge_step "start_bridge faults conn" "\<lambda>b. bridge_inv b \<and> relay_inv b"
    own_bridge_move br_cancelled bridge_over bridge_work
  by unfold_locales (use own_move_enabled own_move_works in blast)+


definition ended_run :: "bridge_move list" where
  "ended_run = MainMove True # joins WriterAccept @ [Incoming ReadFails] @ joins ReaderAccept @ [MainMove True]"


text \<open>The one thing that is left: nobody closes the WebSocket after its last read.\<close>

lemma websocket_left_open:
  assumes "reaches bridge_step (start_bridge faults conn) b"
  shows "br_wsOpen b"
  using assms
proof (induction rule: reaches.induct)
  case (reaches_step b m b')
  have "br_wsOpen b' = br_wsOpen b"
  proof (cases m)
    case (Incoming got)
    with reaches_step(2) show ?thesis by (cases got) (auto simp: handleWebSocketMessages_def split: if_splits)
  next
    case (MainMove works)
    with reaches_step(2) show ?thesis
      by (cases "br_main b") (auto simp: main_step_def cleaning_defs Broadcast_def Let_def split: if_splits list.splits)
  next
    case (WriterClient ev k)
    with reaches_step(2) have "handleWriterUnixSockClient ev k b = Goes b'" by simp
    then show ?thesis
      by (cases "bc_pc (us_conns (br_writer b) ! k)")
        (auto simp: handleWriterUnixSockClient_def Let_def then_go_Goes removeWriterUnixSockClient_def split: if_splits option.splits)
  next
    case (ReaderClient ev k)
    with reaches_step(2) have "handleReaderUnixSockClient ev k b = Goes b'" by simp
    then show ?thesis
      by (cases "bc_pc (us_conns (br_reader b) ! k)"; cases ev)
        (auto simp: handleReaderUnixSockClient_def Let_def then_go_Goes removeReaderUnixSockClient_def split: if_splits option.splits)
  qed (use reaches_step(2) in \<open>auto simp: acceptWriterUnixSockClients_def acceptReaderUnixSockClients_def then_go_Goes\<close>)
  with reaches_step show ?case by simp
qed (simp add: start_bridge_def)

end
