(* ===== verification/Response_Writer.thy ===== *)
theory Response_Writer imports Middleware_Writers begin

text \<open>
  What the wrappers of the response writer do beyond writing (\<open>middleware/response_writer.go\<close>, and \<open>Hijack\<close> of
  \<open>timeout.go\<close>): they pass \<open>Hijack\<close> and \<open>Flush\<close> on to the writer they wrap, if it has them, and give that writer
  out. The wrapped writer is what it offers: its \<open>Hijack\<close>, if any, with the result it gives, and whether it can flush.
\<close>

datatype hijack_error = ErrNotSupported | ErrHijackFailed string | ErrHandlerTimeout

record 'c raw_writer =
  rw_Hijack :: "(string + 'c) option"
  rw_Flusher :: bool

definition base_Hijack :: "'c raw_writer \<Rightarrow> hijack_error + 'c" where
  "base_Hijack w =
     (case rw_Hijack w of
        Some (Inl e) \<Rightarrow> Inl (ErrHijackFailed (''failed to hijack connection: '' @ e))
      | Some (Inr conn) \<Rightarrow> Inr conn
      | None \<Rightarrow> Inl ErrNotSupported)"

text \<open>Whether a flush reaches the wrapped writer.\<close>

definition base_Flush :: "'c raw_writer \<Rightarrow> bool" where
  "base_Flush w \<longleftrightarrow> rw_Flusher w"

definition base_Unwrap :: "'c raw_writer \<Rightarrow> 'c raw_writer" where
  "base_Unwrap w = w"

text \<open>A wrapper implements both interfaces, so a wrapped wrapper is a writer that offers them.\<close>

definition wrap :: "'c raw_writer \<Rightarrow> (hijack_error \<Rightarrow> string) \<Rightarrow> 'c raw_writer" where
  "wrap w show_error =
     \<lparr>rw_Hijack = Some (case base_Hijack w of Inl e \<Rightarrow> Inl (show_error e) | Inr conn \<Rightarrow> Inr conn), rw_Flusher = True\<rparr>"

definition timeout_Hijack :: "'c raw_writer \<Rightarrow> timeout_state \<Rightarrow> (hijack_error + 'c) \<times> timeout_state" where
  "timeout_Hijack w t =
     (if tw_timedOut t then (Inl ErrHandlerTimeout, t)
      else case base_Hijack w of
             Inl e \<Rightarrow> (Inl e, t)
           | Inr conn \<Rightarrow> (Inr conn, t\<lparr>tw_written := True\<rparr>))"

text \<open>
  Through any number of wrappers a connection is handed out exactly when the innermost writer hands it out. Under the
  timeout it is so until the timer has fired; a connection that was handed out is not written to by the timeout any
  more, and one that the timeout has answered is not handed out.
\<close>

lemma wrap_hijack: "base_Hijack (wrap w show_error) = Inr conn \<longleftrightarrow> base_Hijack w = Inr conn"
  by (auto simp: wrap_def base_Hijack_def split: sum.splits option.splits)

lemma wraps_hijack: "base_Hijack (((\<lambda>w. wrap w show_error) ^^ n) w) = Inr conn \<longleftrightarrow> base_Hijack w = Inr conn"
  by (induction n) (simp_all add: wrap_hijack)

lemma timeout_hijack_exclusive:
  "fst (timeout_Hijack w t) = Inr conn \<longleftrightarrow> \<not> tw_timedOut t \<and> base_Hijack w = Inr conn"
  "fst (timeout_Hijack w t) = Inr conn \<Longrightarrow> writeTimeoutResponse e (snd (timeout_Hijack w t)) p = p"
  "fst (timeout_Hijack w (after_fire t)) = Inl ErrHandlerTimeout"
  by (auto simp: timeout_Hijack_def writeTimeoutResponse_def after_fire_def split: sum.splits if_splits)

text \<open>
  In the programs of \<open>Go_Http\<close> the operation \<open>Hijack\<close> only says whether it succeeded. The writer of the server offers
  what \<open>net/http\<close> documents, and the timeout's translation of the operation is \<open>timeout_Hijack\<close> on it.
\<close>

definition server_writer :: "writer \<Rightarrow> unit raw_writer" where
  "server_writer w =
     \<lparr>rw_Hijack = (if \<not> w_hijackable w then None
                   else if w_hijacked w then Some (Inl ''http: connection has been hijacked'') else Some (Inr ())),
      rw_Flusher = True\<rparr>"

lemma hijack_program:
  "exec (Hijack k) w =
     (case base_Hijack (server_writer w) of
        Inr _ \<Rightarrow> exec (k True) (w\<lparr>w_hijacked := True\<rparr>)
      | Inl _ \<Rightarrow> exec (k False) w)"
  by (simp add: base_Hijack_def server_writer_def)

lemma timeout_hijack_program:
  assumes "\<not> fires t"
  shows "exec (timeout_writer e (Hijack k) t) w =
     (case timeout_Hijack (server_writer w) (tick t) of
        (Inr _, t') \<Rightarrow> exec (timeout_writer e (k True) t') (w\<lparr>w_hijacked := True\<rparr>)
      | (Inl _, t') \<Rightarrow> exec (timeout_writer e (k False) t') w)"
  using assms
  by (simp add: timeout_writer.simps interrupt_def timeout_Hijack_def base_Hijack_def server_writer_def)

end
