(* ===== verification/Server_Config.thy ===== *)
theory Server_Config imports Server_Lifecycle File_Cache begin

text \<open>
  The configuration of a server and how one is made (\<open>config.go\<close>, \<open>env_var_names.go\<close>, the constants of \<open>defaults.go\<close> and the
  constructors of \<open>server.go\<close>). Reading the environment is the library \<open>gonfiguration\<close>: \<open>parse\<close> is given the defaults and
  answers a configuration or an error. Durations are nanoseconds.
\<close>

section \<open>Names and defaults\<close>

datatype env_value = EnvString string | EnvInt int | EnvBool bool

definition EnvVarNameHTTPServerListenAddress :: string where
  "EnvVarNameHTTPServerListenAddress = ''HTTP_SERVER_LISTENADDRESS''"

definition EnvVarNameHTTPServerReadTimeout :: string where
  "EnvVarNameHTTPServerReadTimeout = ''HTTP_SERVER_READTIMEOUT''"

definition EnvVarNameHTTPServerReadHeaderTimeout :: string where
  "EnvVarNameHTTPServerReadHeaderTimeout = ''HTTP_SERVER_READHEADERTIMEOUT''"

definition EnvVarNameHTTPServerWriteTimeout :: string where
  "EnvVarNameHTTPServerWriteTimeout = ''HTTP_SERVER_WRITETIMEOUT''"

definition EnvVarNameHTTPServerIdleTimeout :: string where
  "EnvVarNameHTTPServerIdleTimeout = ''HTTP_SERVER_IDLETIMEOUT''"

definition EnvVarNameHTTPServerMaxHeaderBytes :: string where
  "EnvVarNameHTTPServerMaxHeaderBytes = ''HTTP_SERVER_MAXHEADERBYTES''"

definition EnvVarNameHTTPServerShutdownTimeout :: string where
  "EnvVarNameHTTPServerShutdownTimeout = ''HTTP_SERVER_SHUTDOWNTIMEOUT''"

definition EnvVarNameHTTPServerServiceName :: string where
  "EnvVarNameHTTPServerServiceName = ''HTTP_SERVER_SERVICENAME''"

definition EnvVarNameHTTPServerFileUploadMaxMemory :: string where
  "EnvVarNameHTTPServerFileUploadMaxMemory = ''HTTP_SERVER_FILEUPLOADMAXMEMORY''"

definition EnvVarNameHTTPServerTLSEnabled :: string where
  "EnvVarNameHTTPServerTLSEnabled = ''HTTP_SERVER_TLSENABLED''"

definition EnvVarNameHTTPServerTLSListenAddress :: string where
  "EnvVarNameHTTPServerTLSListenAddress = ''HTTP_SERVER_TLSLISTENADDRESS''"

definition EnvVarNameHTTPServerTLSCertFile :: string where
  "EnvVarNameHTTPServerTLSCertFile = ''HTTP_SERVER_TLSCERTFILE''"

definition EnvVarNameHTTPServerTLSKeyFile :: string where
  "EnvVarNameHTTPServerTLSKeyFile = ''HTTP_SERVER_TLSKEYFILE''"

definition second :: int where
  "second = 1000000000"

definition DefaultHTTPServerListenAddress :: string where
  "DefaultHTTPServerListenAddress = ''127.0.0.1:8080''"

definition DefaultHTTPServerReadTimeout :: int where
  "DefaultHTTPServerReadTimeout = 15 * second"

definition DefaultHTTPServerReadHeaderTimeout :: int where
  "DefaultHTTPServerReadHeaderTimeout = 10 * second"

definition DefaultHTTPServerWriteTimeout :: int where
  "DefaultHTTPServerWriteTimeout = 30 * second"

definition DefaultHTTPServerIdleTimeout :: int where
  "DefaultHTTPServerIdleTimeout = 60 * second"

definition DefaultHTTPServerMaxHeaderBytes :: int where
  "DefaultHTTPServerMaxHeaderBytes = 2 ^ 20"

definition DefaultHTTPServerShutdownTimeout :: int where
  "DefaultHTTPServerShutdownTimeout = 10 * second"

definition DefaultHTTPServerServiceName :: string where
  "DefaultHTTPServerServiceName = ''http-server''"

definition DefaultHTTPServerTLSEnabled :: bool where
  "DefaultHTTPServerTLSEnabled = False"

definition DefaultHTTPServerTLSListenAddress :: string where
  "DefaultHTTPServerTLSListenAddress = ''127.0.0.1:8443''"

definition DefaultHTTPServerTLSCertFile :: string where
  "DefaultHTTPServerTLSCertFile = []"

definition DefaultHTTPServerTLSKeyFile :: string where
  "DefaultHTTPServerTLSKeyFile = []"

definition DefaultFileUploadMaxMemory :: int where
  "DefaultFileUploadMaxMemory = 32 * 2 ^ 20"

section \<open>The configuration\<close>

record server_config =
  cf_ListenAddress :: string
  cf_ReadTimeout :: int
  cf_ReadHeaderTimeout :: int
  cf_WriteTimeout :: int
  cf_IdleTimeout :: int
  cf_MaxHeaderBytes :: int
  cf_ShutdownTimeout :: int
  cf_ServiceName :: string
  cf_FileUploadMaxMemory :: int
  cf_TLSEnabled :: bool
  cf_TLSListenAddress :: string
  cf_TLSCertFile :: string
  cf_TLSKeyFile :: string

definition config_defaults :: "(string \<times> env_value) list" where
  "config_defaults =
     [(EnvVarNameHTTPServerListenAddress, EnvString DefaultHTTPServerListenAddress),
      (EnvVarNameHTTPServerReadTimeout, EnvInt DefaultHTTPServerReadTimeout),
      (EnvVarNameHTTPServerReadHeaderTimeout, EnvInt DefaultHTTPServerReadHeaderTimeout),
      (EnvVarNameHTTPServerWriteTimeout, EnvInt DefaultHTTPServerWriteTimeout),
      (EnvVarNameHTTPServerIdleTimeout, EnvInt DefaultHTTPServerIdleTimeout),
      (EnvVarNameHTTPServerMaxHeaderBytes, EnvInt DefaultHTTPServerMaxHeaderBytes),
      (EnvVarNameHTTPServerShutdownTimeout, EnvInt DefaultHTTPServerShutdownTimeout),
      (EnvVarNameHTTPServerServiceName, EnvString DefaultHTTPServerServiceName),
      (EnvVarNameHTTPServerFileUploadMaxMemory, EnvInt DefaultFileUploadMaxMemory),
      (EnvVarNameHTTPServerTLSEnabled, EnvBool DefaultHTTPServerTLSEnabled),
      (EnvVarNameHTTPServerTLSListenAddress, EnvString DefaultHTTPServerTLSListenAddress),
      (EnvVarNameHTTPServerTLSCertFile, EnvString DefaultHTTPServerTLSCertFile),
      (EnvVarNameHTTPServerTLSKeyFile, EnvString DefaultHTTPServerTLSKeyFile)]"

type_synonym config_parser = "(string \<times> env_value) list \<Rightarrow> string + server_config"

definition parseConfig :: "config_parser \<Rightarrow> string + server_config" where
  "parseConfig parse =
     (case parse config_defaults of
        Inl e \<Rightarrow> Inl (''could not parse config: '' @ e)
      | Inr config \<Rightarrow> Inr config)"

section \<open>Making a server\<close>

record http_server =
  hs_Addr :: string
  hs_ReadTimeout :: int
  hs_ReadHeaderTimeout :: int
  hs_WriteTimeout :: int
  hs_IdleTimeout :: int
  hs_MaxHeaderBytes :: int

text \<open>The two HTTP servers share the one mux, which is part of the routes.\<close>

record server =
  sr_httpServer :: http_server
  sr_httpsServer :: http_server
  sr_config :: server_config
  sr_routes :: server_routes
  sr_state :: server_state
  sr_fileCache :: file_cache

definition NewWithConfigAndLogger :: "int \<Rightarrow> server_config \<Rightarrow> server" where
  "NewWithConfigAndLogger now config =
     (let httpServer = \<lparr>hs_Addr = cf_ListenAddress config, hs_ReadTimeout = cf_ReadTimeout config,
            hs_ReadHeaderTimeout = cf_ReadHeaderTimeout config, hs_WriteTimeout = cf_WriteTimeout config,
            hs_IdleTimeout = cf_IdleTimeout config, hs_MaxHeaderBytes = cf_MaxHeaderBytes config\<rparr>;
          httpsServer = \<lparr>hs_Addr = cf_TLSListenAddress config, hs_ReadTimeout = cf_ReadTimeout config,
            hs_ReadHeaderTimeout = cf_ReadHeaderTimeout config, hs_WriteTimeout = cf_WriteTimeout config,
            hs_IdleTimeout = cf_IdleTimeout config, hs_MaxHeaderBytes = cf_MaxHeaderBytes config\<rparr>
      in \<lparr>sr_httpServer = httpServer, sr_httpsServer = httpsServer, sr_config = config, sr_routes = new_server,
          sr_state = NewServer, sr_fileCache = newFileCache now\<rparr>)"

definition NewWithConfig :: "int \<Rightarrow> server_config \<Rightarrow> server" where
  "NewWithConfig now config = NewWithConfigAndLogger now config"

definition NewWithLogger :: "config_parser \<Rightarrow> int \<Rightarrow> string + server" where
  "NewWithLogger parse now =
     (case parseConfig parse of
        Inl e \<Rightarrow> Inl (''failed to parse config: '' @ e)
      | Inr config \<Rightarrow> Inr (NewWithConfigAndLogger now config))"

definition New_server :: "config_parser \<Rightarrow> int \<Rightarrow> string + server" where
  "New_server parse now = NewWithLogger parse now"

text \<open>
  The part of a server's environment that is configuration; the rest is what the operating system answers.
\<close>

definition configured_env :: "server \<Rightarrow> server_env \<Rightarrow> server_env" where
  "configured_env s env = env\<lparr>en_TLSEnabled := cf_TLSEnabled (sr_config s), en_TLSCertFile := cf_TLSCertFile (sr_config s),
     en_TLSKeyFile := cf_TLSKeyFile (sr_config s), en_ShutdownTimeout := cf_ShutdownTimeout (sr_config s)\<rparr>"

text \<open>
  What \<open>gonfiguration\<close> documents for an environment in which no variable is set: each field has the default that was
  given under its name.
\<close>

fun env_string :: "env_value option \<Rightarrow> string" where
  "env_string (Some (EnvString s)) = s"
| "env_string v = []"

fun env_int :: "env_value option \<Rightarrow> int" where
  "env_int (Some (EnvInt n)) = n"
| "env_int v = 0"

fun env_bool :: "env_value option \<Rightarrow> bool" where
  "env_bool (Some (EnvBool b)) = b"
| "env_bool v = False"

definition parse_unset :: config_parser where
  "parse_unset ds =
     (let d = map_of ds
      in Inr \<lparr>cf_ListenAddress = env_string (d ''HTTP_SERVER_LISTENADDRESS''), cf_ReadTimeout = env_int (d ''HTTP_SERVER_READTIMEOUT''),
           cf_ReadHeaderTimeout = env_int (d ''HTTP_SERVER_READHEADERTIMEOUT''), cf_WriteTimeout = env_int (d ''HTTP_SERVER_WRITETIMEOUT''),
           cf_IdleTimeout = env_int (d ''HTTP_SERVER_IDLETIMEOUT''), cf_MaxHeaderBytes = env_int (d ''HTTP_SERVER_MAXHEADERBYTES''),
           cf_ShutdownTimeout = env_int (d ''HTTP_SERVER_SHUTDOWNTIMEOUT''), cf_ServiceName = env_string (d ''HTTP_SERVER_SERVICENAME''),
           cf_FileUploadMaxMemory = env_int (d ''HTTP_SERVER_FILEUPLOADMAXMEMORY''), cf_TLSEnabled = env_bool (d ''HTTP_SERVER_TLSENABLED''),
           cf_TLSListenAddress = env_string (d ''HTTP_SERVER_TLSLISTENADDRESS''), cf_TLSCertFile = env_string (d ''HTTP_SERVER_TLSCERTFILE''),
           cf_TLSKeyFile = env_string (d ''HTTP_SERVER_TLSKEYFILE'')\<rparr>)"

text \<open>
  Every field finds its default (the names in the tags of the fields are those of the constants), so a server made
  without configuration listens on the loopback interface only and limits the time and size of every request, and its
  shutdown.
\<close>

definition limited :: "http_server \<Rightarrow> bool" where
  "limited hs \<longleftrightarrow> 0 < hs_ReadTimeout hs \<and> 0 < hs_ReadHeaderTimeout hs \<and> 0 < hs_WriteTimeout hs \<and> 0 < hs_IdleTimeout hs
     \<and> 0 < hs_MaxHeaderBytes hs"

lemma default_server_limited:
  "\<exists>s. New_server parse_unset now = Inr s \<and> limited (sr_httpServer s) \<and> limited (sr_httpsServer s)
    \<and> 0 < en_ShutdownTimeout (configured_env s env) \<and> \<not> en_TLSEnabled (configured_env s env)
    \<and> hs_Addr (sr_httpServer s) = ''127.0.0.1:8080'' \<and> hs_Addr (sr_httpsServer s) = ''127.0.0.1:8443''"
proof -
  obtain c where c: "parseConfig parse_unset = Inr c" by (simp add: parseConfig_def parse_unset_def Let_def)
  let ?c = "projr (parseConfig parse_unset)"
  have "0 < cf_ReadTimeout ?c \<and> 0 < cf_ReadHeaderTimeout ?c \<and> 0 < cf_WriteTimeout ?c \<and> 0 < cf_IdleTimeout ?c
      \<and> 0 < cf_MaxHeaderBytes ?c \<and> 0 < cf_ShutdownTimeout ?c \<and> \<not> cf_TLSEnabled ?c
      \<and> cf_ListenAddress ?c = ''127.0.0.1:8080'' \<and> cf_TLSListenAddress ?c = ''127.0.0.1:8443''"
    by code_simp
  then show ?thesis unfolding c sum.sel
    by (simp add: New_server_def NewWithLogger_def NewWithConfigAndLogger_def c Let_def limited_def configured_env_def)
qed

end
