(* ===== verification/Server_Run.thy ===== *)
theory Server_Run imports Server_Lifecycle Go_Sync begin

text \<open>
  A server in operation (\<open>Start\<close>, \<open>createListeners\<close>, \<open>startServers\<close>, \<open>waitForCompletion\<close>, \<open>Stop\<close> and
  \<open>closeListeners\<close> of \<open>server.go\<close>) as interleaved threads: the one call of \<open>Start\<close>, any number of calls of
  \<open>Stop\<close>, the two goroutines that serve and the two that shut the servers down. The functions of
  \<open>Server_Lifecycle\<close> run these steps in a fixed order; here any order is possible, in particular a stop in the
  middle of a start.

  Of \<open>net/http\<close> the model has what its documentation says: \<open>Serve\<close> returns \<open>ErrServerClosed\<close> once the server is
  shutting down, an error when the listener fails, and has closed the listener when it returns; \<open>ServeTLS\<close> first
  reads the key pair and returns its error without touching the listener; \<open>Shutdown\<close> marks the server, closes the
  listener being served, and waits until no connection is active or its context has ended. That \<open>Shutdown\<close> also
  waits for the serving calls to return is left out, which allows more interleavings. \<open>listenerMu\<close> makes a store of
  a listener and \<open>closeListeners\<close> single steps. The router set-up, which \<open>Start\<close> does before anything here and which
  shares no state with \<open>Stop\<close>, is in \<open>Router_Group\<close>; log lines are left out.
\<close>

section \<open>Definitions\<close>

datatype which = HTTP | HTTPS

definition server_name :: "which \<Rightarrow> string" where
  "server_name w = (case w of HTTP \<Rightarrow> ''HTTP'' | HTTPS \<Rightarrow> ''HTTPS'')"

text \<open>The goroutine that serves, and the one of \<open>Stop\<close> that shuts down; the latter appends its error in two steps.\<close>

datatype serve_pc = SvNone | SvSpawned | SvTrack | SvAccept | SvReport string | SvEnd

datatype shut_pc =
    ShNone | ShFlag | ShClose | ShWait bool | ShLoad | ShStore "server_error list" | ShEnd bool

text \<open>One of the two servers: its listener, whether the field of \<open>Server\<close> holds it, the state of \<open>http.Server\<close>.\<close>

record net_server =
  sv_listener :: listener
  sv_field :: bool
  sv_shutting :: bool
  sv_conns :: nat
  sv_serve :: serve_pc
  sv_errCh :: "string channel"
  sv_shut :: shut_pc

datatype start_pc =
    StValidate | StListen which | StStore which | StSpawn which | StWait
  | StDefer "server_error option" | StStopping "server_error option" | StReturned "server_error option"

text \<open>The function given to \<open>stopOnce.Do\<close>: not begun, at one of its statements, or over.\<close>

datatype once_pc = OnceFresh | OnceClose | OnceSpawn which | OnceWait | OnceListeners | OnceDone

datatype caller_pc = ClCalling | ClRunning | ClReturned "server_error option"

record server_run =
  sr_srv :: "which \<Rightarrow> net_server"
  sr_start :: start_pc
  sr_once :: once_pc
  sr_doneCh :: "unit channel"
  sr_errs :: "server_error list"
  sr_cancelled :: bool
  sr_expired :: bool
  sr_callers :: "caller_pc list"

definition new_net_server :: net_server where
  "new_net_server = \<lparr>sv_listener = NoListener, sv_field = False, sv_shutting = False, sv_conns = 0,
     sv_serve = SvNone, sv_errCh = make_channel 1, sv_shut = ShNone\<rparr>"

definition starting_server :: server_run where
  "starting_server = \<lparr>sr_srv = (\<lambda>_. new_net_server), sr_start = StValidate, sr_once = OnceFresh,
     sr_doneCh = make_channel 0, sr_errs = [], sr_cancelled = False, sr_expired = False, sr_callers = []\<rparr>"

definition on_server :: "which \<Rightarrow> (net_server \<Rightarrow> net_server) \<Rightarrow> server_run \<Rightarrow> server_run" where
  "on_server w f s = s\<lparr>sr_srv := (sr_srv s)(w := f (sr_srv s w))\<rparr>"

definition shut_listener :: "net_server \<Rightarrow> net_server" where
  "shut_listener v = v\<lparr>sv_listener := close_listener (sv_listener v)\<rparr>"

text \<open>A call of \<open>stopOnce.Do\<close>: the first begins the function, the others return when it is over.\<close>

definition once_do :: "server_run \<Rightarrow> (server_run \<Rightarrow> server_run) \<Rightarrow> (server_run \<Rightarrow> server_run) \<Rightarrow> server_run outcome" where
  "once_do s begins returns =
     (case sr_once s of
        OnceFresh \<Rightarrow> Goes (begins (s\<lparr>sr_once := OnceClose\<rparr>))
      | OnceDone \<Rightarrow> Goes (returns s)
      | _ \<Rightarrow> Blocks)"

text \<open>A step of \<open>Start\<close>; the argument \<open>listens\<close> says whether the system gives the listener asked for.\<close>

definition start_step :: "server_env \<Rightarrow> bool \<Rightarrow> server_run \<Rightarrow> server_run outcome" where
  "start_step env listens s =
     (case sr_start s of
        StValidate \<Rightarrow>
          Goes (s\<lparr>sr_start := (case validateTLSConfig env of Some e \<Rightarrow> StReturned (Some e) | None \<Rightarrow> StListen HTTP)\<rparr>)
      | StListen HTTP \<Rightarrow>
          (if listens then Goes (on_server HTTP (sv_listener_update (\<lambda>_. Open)) s \<lparr>sr_start := StStore HTTP\<rparr>)
           else Goes (s\<lparr>sr_start := StDefer (Some ErrCreateHTTPListener)\<rparr>))
      | StListen HTTPS \<Rightarrow>
          (if listens then Goes (on_server HTTPS (sv_listener_update (\<lambda>_. Open)) s \<lparr>sr_start := StStore HTTPS\<rparr>)
           else Goes (on_server HTTP shut_listener s \<lparr>sr_start := StDefer (Some ErrCreateHTTPSListener)\<rparr>))
      | StStore w \<Rightarrow>
          Goes (on_server w (sv_field_update (\<lambda>_. True)) s
            \<lparr>sr_start := (if w = HTTP \<and> en_TLSEnabled env then StListen HTTPS else StSpawn HTTP)\<rparr>)
      | StSpawn w \<Rightarrow>
          Goes (on_server w (sv_serve_update (\<lambda>_. SvSpawned)) s
            \<lparr>sr_start := (if w = HTTP \<and> en_TLSEnabled env then StSpawn HTTPS else StWait)\<rparr>)
      | StWait \<Rightarrow> Blocks
      | StDefer r \<Rightarrow> once_do s (sr_start_update (\<lambda>_. StStopping r)) (sr_start_update (\<lambda>_. StReturned r))
      | StStopping r \<Rightarrow> if sr_once s = OnceDone then Goes (s\<lparr>sr_start := StReturned r\<rparr>) else Blocks
      | StReturned r \<Rightarrow> Blocks)"

text \<open>The cases of the \<open>select\<close> in \<open>waitForCompletion\<close>.\<close>

datatype wait_case = OnCtx | OnDone | OnErr which

definition wake_step :: "wait_case \<Rightarrow> server_run \<Rightarrow> server_run outcome" where
  "wake_step c s =
     (if sr_start s \<noteq> StWait then Blocks
      else case c of
        OnCtx \<Rightarrow>
          if sr_cancelled s then Goes (s\<lparr>sr_start := StDefer (waitForCompletion CtxDone)\<rparr>) else Blocks
      | OnDone \<Rightarrow>
          then_go (chan_recv (sr_doneCh s)) (\<lambda>_. Goes (s\<lparr>sr_start := StDefer (waitForCompletion StopCalled)\<rparr>))
      | OnErr w \<Rightarrow>
          then_go (chan_recv (sv_errCh (sr_srv s w)))
            (\<lambda>(e, ch). Goes (on_server w (sv_errCh_update (\<lambda>_. ch)) s
               \<lparr>sr_start := StDefer (waitForCompletion ((if w = HTTP then HTTPFailed else HTTPSFailed) (the e)))\<rparr>)))"

text \<open>A step of a goroutine of \<open>startServers\<close>; \<open>keys\<close> says whether the key pair loads, \<open>fails\<close> whether \<open>Accept\<close> fails.\<close>

definition serve_step :: "bool \<Rightarrow> which \<Rightarrow> bool \<Rightarrow> server_run \<Rightarrow> server_run outcome" where
  "serve_step keys w fails s =
     (let v = sr_srv s w in
      case sv_serve v of
        SvNone \<Rightarrow> Blocks
      | SvSpawned \<Rightarrow>
          Goes (on_server w (sv_serve_update (\<lambda>_.
            if w = HTTPS \<and> \<not> keys then SvReport ''tls: failed to load the key pair'' else SvTrack)) s)
      | SvTrack \<Rightarrow>
          if sv_shutting v then Goes (on_server w (\<lambda>v. (shut_listener v)\<lparr>sv_serve := SvEnd\<rparr>) s)
          else Goes (on_server w (sv_serve_update (\<lambda>_. SvAccept)) s)
      | SvAccept \<Rightarrow>
          if sv_listener v = Open \<and> \<not> fails then Blocks
          else Goes (on_server w (\<lambda>v. (shut_listener v)
            \<lparr>sv_serve := (if sv_shutting v then SvEnd else SvReport ''accept failed'')\<rparr>) s)
      | SvReport e \<Rightarrow>
          then_go (chan_send e (sv_errCh v))
            (\<lambda>ch. Goes (on_server w (\<lambda>v. v\<lparr>sv_errCh := ch, sv_serve := SvEnd\<rparr>) s))
      | SvEnd \<Rightarrow> Blocks)"

text \<open>A step of a goroutine of \<open>Stop\<close> that calls \<open>Shutdown\<close> and records its error with \<open>addError\<close>, which is not locked.\<close>

definition shutdown_step :: "server_env \<Rightarrow> which \<Rightarrow> server_run \<Rightarrow> server_run outcome" where
  "shutdown_step env w s =
     (let v = sr_srv s w in
      case sv_shut v of
        ShFlag \<Rightarrow> Goes (on_server w (\<lambda>v. v\<lparr>sv_shutting := True, sv_shut := ShClose\<rparr>) s)
      | ShClose \<Rightarrow>
          if sv_serve v = SvAccept
          then Goes (on_server w (\<lambda>v. (shut_listener v)
            \<lparr>sv_shut := ShWait (sv_listener v = Open \<and> en_close_fails env (server_name w))\<rparr>) s)
          else Goes (on_server w (sv_shut_update (\<lambda>_. ShWait False)) s)
      | ShWait failed \<Rightarrow>
          if sv_conns v = 0 then Goes (on_server w (sv_shut_update (\<lambda>_. if failed then ShLoad else ShEnd False)) s)
          else if sr_expired s then Goes (on_server w (sv_shut_update (\<lambda>_. ShLoad)) s)
          else Blocks
      | ShLoad \<Rightarrow> Goes (on_server w (sv_shut_update (\<lambda>_. ShStore (sr_errs s))) s)
      | ShStore es \<Rightarrow>
          Goes (on_server w (sv_shut_update (\<lambda>_. ShEnd True)) s \<lparr>sr_errs := es @ [ErrShutdown (server_name w)]\<rparr>)
      | _ \<Rightarrow> Blocks)"

fun shut_over :: "shut_pc \<Rightarrow> bool" where
  "shut_over ShNone = True"
| "shut_over (ShEnd failed) = True"
| "shut_over p = False"

text \<open>\<open>closeListeners\<close> closes the listeners the fields hold.\<close>

definition close_field :: "server_env \<Rightarrow> which \<Rightarrow> net_server \<Rightarrow> server_error list \<times> net_server" where
  "close_field env w v =
     (if sv_field v
      then (case closeListener env (server_name w) (sv_listener v) of (e, l) \<Rightarrow> (e, v\<lparr>sv_listener := l\<rparr>))
      else ([], v))"

definition once_step :: "server_env \<Rightarrow> server_run \<Rightarrow> server_run outcome" where
  "once_step env s =
     (case sr_once s of
        OnceClose \<Rightarrow> then_go (chan_close (sr_doneCh s)) (\<lambda>ch. Goes (s\<lparr>sr_doneCh := ch, sr_once := OnceSpawn HTTP\<rparr>))
      | OnceSpawn w \<Rightarrow>
          Goes (on_server w (sv_shut_update (\<lambda>_. ShFlag)) s
            \<lparr>sr_once := (if w = HTTP \<and> en_TLSEnabled env then OnceSpawn HTTPS else OnceWait)\<rparr>)
      | OnceWait \<Rightarrow>
          if shut_over (sv_shut (sr_srv s HTTP)) \<and> shut_over (sv_shut (sr_srv s HTTPS))
          then Goes (s\<lparr>sr_once := OnceListeners\<rparr>) else Blocks
      | OnceListeners \<Rightarrow>
          Goes (on_server HTTP (\<lambda>v. snd (close_field env HTTP v)) (on_server HTTPS (\<lambda>v. snd (close_field env HTTPS v)) s)
            \<lparr>sr_errs := sr_errs s @ fst (close_field env HTTP (sr_srv s HTTP)) @ fst (close_field env HTTPS (sr_srv s HTTPS)),
             sr_once := OnceDone\<rparr>)
      | _ \<Rightarrow> Blocks)"

text \<open>A step of the \<open>i\<close>-th call of \<open>Stop\<close>: only the one that ran the function has an error to return.\<close>

definition stop_error :: "server_error list \<Rightarrow> server_error option" where
  "stop_error es = (case es of [] \<Rightarrow> None | e # _ \<Rightarrow> Some e)"

definition set_caller :: "nat \<Rightarrow> caller_pc \<Rightarrow> server_run \<Rightarrow> server_run" where
  "set_caller i c s = s\<lparr>sr_callers := (sr_callers s)[i := c]\<rparr>"

definition stop_call_step :: "nat \<Rightarrow> server_run \<Rightarrow> server_run outcome" where
  "stop_call_step i s =
     (if length (sr_callers s) \<le> i then Blocks
      else case sr_callers s ! i of
        ClCalling \<Rightarrow> once_do s (set_caller i ClRunning) (set_caller i (ClReturned None))
      | ClRunning \<Rightarrow>
          if sr_once s = OnceDone then Goes (set_caller i (ClReturned (stop_error (sr_errs s))) s) else Blocks
      | ClReturned r \<Rightarrow> Blocks)"

text \<open>
  The moves. The last four are the environment's: a new call of \<open>Stop\<close>, the end of the context of \<open>Start\<close>, a
  connection that comes and one that is done. \<open>MExpire\<close> is the end of the shutdown context, which its timeout ensures.
\<close>

datatype server_move =
    MStart bool | MWake wait_case | MServe which bool | MShut which | MOnce | MCaller nat | MExpire
  | MCallStop | MCancel | MAccept which | MFinish which

definition server_step :: "server_env \<Rightarrow> bool \<Rightarrow> server_move \<Rightarrow> server_run \<Rightarrow> server_run outcome" where
  "server_step env keys m s =
     (case m of
        MStart listens \<Rightarrow> start_step env listens s
      | MWake c \<Rightarrow> wake_step c s
      | MServe w fails \<Rightarrow> serve_step keys w fails s
      | MShut w \<Rightarrow> shutdown_step env w s
      | MOnce \<Rightarrow> once_step env s
      | MCaller i \<Rightarrow> stop_call_step i s
      | MExpire \<Rightarrow>
          if sr_once s \<in> {OnceFresh, OnceClose} \<or> sr_expired s then Blocks else Goes (s\<lparr>sr_expired := True\<rparr>)
      | MCallStop \<Rightarrow> Goes (s\<lparr>sr_callers := sr_callers s @ [ClCalling]\<rparr>)
      | MCancel \<Rightarrow> Goes (s\<lparr>sr_cancelled := True\<rparr>)
      | MAccept w \<Rightarrow>
          if sv_serve (sr_srv s w) = SvAccept \<and> sv_listener (sr_srv s w) = Open
          then Goes (on_server w (\<lambda>v. v\<lparr>sv_conns := sv_conns v + 1\<rparr>) s) else Blocks
      | MFinish w \<Rightarrow>
          if 0 < sv_conns (sr_srv s w)
          then Goes (on_server w (\<lambda>v. v\<lparr>sv_conns := sv_conns v - 1\<rparr>) s) else Blocks)"

definition own_server_move :: "server_move \<Rightarrow> bool" where
  "own_server_move m \<longleftrightarrow>
     (case m of MCallStop \<Rightarrow> False | MCancel \<Rightarrow> False | MAccept _ \<Rightarrow> False | MFinish _ \<Rightarrow> False | _ \<Rightarrow> True)"

text \<open>Whether the server was told to end, and whether every thread has ended.\<close>

definition told_to_end :: "server_run \<Rightarrow> bool" where
  "told_to_end s \<longleftrightarrow> sr_cancelled s \<or> sr_once s \<noteq> OnceFresh"

definition server_over :: "server_run \<Rightarrow> bool" where
  "server_over s \<longleftrightarrow> (\<exists>r. sr_start s = StReturned r) \<and> (\<forall>c \<in> set (sr_callers s). \<exists>r. c = ClReturned r)
     \<and> (\<forall>w. sv_serve (sr_srv s w) \<in> {SvNone, SvEnd} \<and> shut_over (sv_shut (sr_srv s w)))"

end
