(* ===== verification/Server_Run_Invariant.thy ===== *)
theory Server_Run_Invariant imports Server_Run begin

text \<open>
  The invariant of a running server and that every step keeps it. It has eight parts, each over the piece of the state
  it is about and each kept on its own: the order of \<open>Stop\<close>'s statements against \<open>doneCh\<close>, the shutdowns and the calls,
  the order of \<open>Start\<close>'s, the error channels, who holds an open listener, and that a failed shutdown leaves an error.
\<close>

section \<open>The invariant\<close>

text \<open>Where \<open>Start\<close> has not yet begun to serve on a server, and where it alone holds the open listener.\<close>

fun before_serving :: "which \<Rightarrow> start_pc \<Rightarrow> bool" where
  "before_serving w StValidate = True"
| "before_serving w (StListen u) = True"
| "before_serving w (StStore u) = True"
| "before_serving w (StSpawn u) = (u = HTTP \<or> w = HTTPS)"
| "before_serving w p = False"

fun holds_listener :: "which \<Rightarrow> start_pc \<Rightarrow> bool" where
  "holds_listener w (StListen u) = (u = HTTPS \<and> w = HTTP)"
| "holds_listener w (StStore u) = (u = HTTPS \<or> w = HTTP)"
| "holds_listener w (StSpawn u) = (u = HTTP \<or> w = HTTPS)"
| "holds_listener w p = False"

fun stored :: "bool \<Rightarrow> which \<Rightarrow> start_pc \<Rightarrow> bool" where
  "stored tls w (StListen u) = (u = HTTPS \<and> w = HTTP)"
| "stored tls w (StStore u) = (u = HTTPS \<and> w = HTTP)"
| "stored tls w (StSpawn u) = (w = HTTP \<or> tls)"
| "stored tls w p = False"

fun start_is_back :: "start_pc \<Rightarrow> bool" where
  "start_is_back (StReturned r) = True"
| "start_is_back p = False"

fun stopping_or_back :: "start_pc \<Rightarrow> bool" where
  "stopping_or_back (StStopping r) = True"
| "stopping_or_back (StReturned r) = True"
| "stopping_or_back p = False"

fun ends_quietly :: "start_pc \<Rightarrow> bool" where
  "ends_quietly (StDefer r) = (r = None)"
| "ends_quietly (StStopping r) = (r = None)"
| "ends_quietly (StReturned r) = (r = None)"
| "ends_quietly p = False"

fun on_tls :: "start_pc \<Rightarrow> bool" where
  "on_tls (StListen u) = (u = HTTPS)"
| "on_tls (StStore u) = (u = HTTPS)"
| "on_tls (StSpawn u) = (u = HTTPS)"
| "on_tls p = False"

text \<open>Where the function of \<open>stopOnce\<close> has not started the shutdown of a server, and where it has seen all of them end.\<close>

fun unshut :: "bool \<Rightarrow> which \<Rightarrow> once_pc \<Rightarrow> bool" where
  "unshut tls w OnceFresh = True"
| "unshut tls w OnceClose = True"
| "unshut tls w (OnceSpawn u) = (u = HTTP \<or> w = HTTPS)"
| "unshut tls w oc = (w = HTTPS \<and> \<not> tls)"

fun signalled :: "once_pc \<Rightarrow> bool" where
  "signalled OnceFresh = False"
| "signalled OnceClose = False"
| "signalled oc = True"

fun all_shut :: "once_pc \<Rightarrow> bool" where
  "all_shut OnceListeners = True"
| "all_shut OnceDone = True"
| "all_shut oc = False"

text \<open>Where \<open>Shutdown\<close> has marked the server, and where it has closed the listener being served.\<close>

fun marked :: "shut_pc \<Rightarrow> bool" where
  "marked ShNone = False"
| "marked ShFlag = False"
| "marked p = True"

fun has_closed :: "shut_pc \<Rightarrow> bool" where
  "has_closed ShClose = False"
| "has_closed p = marked p"

fun serving :: "serve_pc \<Rightarrow> bool" where
  "serving SvSpawned = True"
| "serving SvTrack = True"
| "serving SvAccept = True"
| "serving p = False"

definition shut_ok :: "bool \<Rightarrow> which \<Rightarrow> once_pc \<Rightarrow> net_server \<Rightarrow> bool" where
  "shut_ok tls w oc v \<longleftrightarrow> (sv_shut v = ShNone \<longleftrightarrow> unshut tls w oc)
   \<and> (all_shut oc \<longrightarrow> shut_over (sv_shut v)) \<and> (marked (sv_shut v) \<longrightarrow> sv_shutting v)"

definition serve_ok :: "bool \<Rightarrow> which \<Rightarrow> start_pc \<Rightarrow> once_pc \<Rightarrow> net_server \<Rightarrow> bool" where
  "serve_ok tls w p oc v \<longleftrightarrow>
     (w = HTTPS \<and> sv_serve v \<noteq> SvNone \<longrightarrow> tls) \<and> (before_serving w p \<longrightarrow> sv_serve v = SvNone)
   \<and> (stored tls w p \<or> sv_serve v \<noteq> SvNone \<longrightarrow> sv_field v)
   \<and> (oc = OnceFresh \<and> start_is_back p \<longrightarrow> sv_serve v = SvNone)"

definition errCh_ok :: "net_server \<Rightarrow> bool" where
  "errCh_ok v \<longleftrightarrow> ch_cap (sv_errCh v) = 1 \<and> \<not> ch_closed (sv_errCh v)
     \<and> (sv_serve v \<noteq> SvEnd \<longrightarrow> ch_buf (sv_errCh v) = [])"

definition listener_ok :: "bool \<Rightarrow> bool \<Rightarrow> which \<Rightarrow> start_pc \<Rightarrow> net_server \<Rightarrow> bool" where
  "listener_ok tls keys w p v \<longleftrightarrow> (w = HTTPS \<and> sv_listener v = Open \<longrightarrow> tls) \<and>
     (sv_listener v = Open \<longrightarrow> holds_listener w p \<or> serving (sv_serve v)
        \<or> w = HTTPS \<and> \<not> keys \<and> sv_serve v \<noteq> SvNone)
   \<and> (has_closed (sv_shut v) \<and> sv_serve v = SvAccept \<longrightarrow> sv_listener v \<noteq> Open)"

text \<open>And of the state they share: \<open>doneCh\<close> and \<open>stopOnce\<close>, and what is so while nobody else calls \<open>Stop\<close>.\<close>

definition control_ok :: "bool \<Rightarrow> start_pc \<Rightarrow> once_pc \<Rightarrow> unit channel \<Rightarrow> caller_pc list \<Rightarrow> bool" where
  "control_ok tls p oc ch cs \<longleftrightarrow>
     (ch_closed ch \<longleftrightarrow> signalled oc) \<and> ch_buf ch = []
   \<and> (oc = OnceFresh \<longrightarrow> ClRunning \<notin> set cs \<and> (stopping_or_back p \<longrightarrow> start_is_back p))
   \<and> (\<forall>r. ClReturned r \<in> set cs \<longrightarrow> oc = OnceDone)
   \<and> (oc = OnceSpawn HTTPS \<or> on_tls p \<longrightarrow> tls)"

definition alone_ok :: "start_pc \<Rightarrow> once_pc \<Rightarrow> caller_pc list \<Rightarrow> bool" where
  "alone_ok p oc cs \<longleftrightarrow>
     (cs = [] \<and> oc \<noteq> OnceFresh \<longrightarrow> stopping_or_back p \<and> (start_is_back p \<longrightarrow> oc = OnceDone))
   \<and> (ends_quietly p \<longrightarrow> cs \<noteq> [])"

definition closed_ok :: "once_pc \<Rightarrow> caller_pc list \<Rightarrow> net_server \<Rightarrow> bool" where
  "closed_ok oc cs v \<longleftrightarrow> (cs = [] \<and> oc = OnceDone \<and> sv_field v \<longrightarrow> sv_listener v \<noteq> Open)"

definition errors_ok :: "server_error list \<Rightarrow> net_server \<Rightarrow> bool" where
  "errors_ok es v \<longleftrightarrow> (sv_shut v = ShEnd True \<longrightarrow> es \<noteq> [])"

definition server_inv :: "server_env \<Rightarrow> bool \<Rightarrow> server_run \<Rightarrow> bool" where
  "server_inv env keys s \<longleftrightarrow>
     control_ok (en_TLSEnabled env) (sr_start s) (sr_once s) (sr_doneCh s) (sr_callers s)
   \<and> alone_ok (sr_start s) (sr_once s) (sr_callers s)
   \<and> (\<forall>w. shut_ok (en_TLSEnabled env) w (sr_once s) (sr_srv s w)
        \<and> serve_ok (en_TLSEnabled env) w (sr_start s) (sr_once s) (sr_srv s w)
        \<and> errCh_ok (sr_srv s w) \<and> listener_ok (en_TLSEnabled env) keys w (sr_start s) (sr_srv s w)
        \<and> closed_ok (sr_once s) (sr_callers s) (sr_srv s w) \<and> errors_ok (sr_errs s) (sr_srv s w))"

lemma on_server_simps [simp]:
  "sr_srv (on_server w f s) = (sr_srv s)(w := f (sr_srv s w))"
  "sr_start (on_server w f s) = sr_start s" "sr_once (on_server w f s) = sr_once s"
  "sr_doneCh (on_server w f s) = sr_doneCh s" "sr_errs (on_server w f s) = sr_errs s"
  "sr_cancelled (on_server w f s) = sr_cancelled s" "sr_expired (on_server w f s) = sr_expired s"
  "sr_callers (on_server w f s) = sr_callers s"
  by (simp_all add: on_server_def)

lemma close_listener_Open [simp]: "close_listener l \<noteq> Open"
  by (simp add: close_listener_def)

lemma closeListener_Open [simp]: "snd (closeListener env name l) \<noteq> Open"
  by (simp add: closeListener_def split: listener.split)

lemma shut_listener_simps [simp]:
  "sv_listener (shut_listener v) \<noteq> Open" "sv_field (shut_listener v) = sv_field v"
  "sv_shutting (shut_listener v) = sv_shutting v" "sv_conns (shut_listener v) = sv_conns v"
  "sv_serve (shut_listener v) = sv_serve v" "sv_errCh (shut_listener v) = sv_errCh v"
  "sv_shut (shut_listener v) = sv_shut v"
  by (simp_all add: shut_listener_def)

lemma close_field_simps [simp]:
  "sv_field (snd (close_field env w v)) = sv_field v"
  "sv_shutting (snd (close_field env w v)) = sv_shutting v"
  "sv_serve (snd (close_field env w v)) = sv_serve v" "sv_errCh (snd (close_field env w v)) = sv_errCh v"
  "sv_shut (snd (close_field env w v)) = sv_shut v"
  by (simp_all add: close_field_def split: prod.split)

lemma close_field_listener:
  "sv_listener (snd (close_field env w v)) = Open \<longleftrightarrow> sv_listener v = Open \<and> \<not> sv_field v"
  using closeListener_Open [of env "server_name w" "sv_listener v"]
  by (auto simp: close_field_def split_beta simp del: closeListener_Open)

lemmas server_inv_defs = server_inv_def control_ok_def alone_ok_def shut_ok_def serve_ok_def errCh_ok_def
  listener_ok_def closed_ok_def errors_ok_def

lemma once_do_Goes:
  "once_do s begins returns = Goes s' \<longleftrightarrow>
     sr_once s = OnceFresh \<and> s' = begins (s\<lparr>sr_once := OnceClose\<rparr>) \<or> sr_once s = OnceDone \<and> s' = returns s"
  by (cases "sr_once s") (auto simp: once_do_def)

lemma shut_ok_open: "shut_ok tls w oc v \<Longrightarrow> \<not> sv_shutting v \<Longrightarrow> \<not> has_closed (sv_shut v)"
  by (cases "sv_shut v") (simp_all add: shut_ok_def)

lemma start_pc_cases:
  assumes "p = StValidate \<Longrightarrow> Q"
    and l: "p = StListen HTTP \<Longrightarrow> Q" "p = StListen HTTPS \<Longrightarrow> Q" and s: "p = StStore HTTP \<Longrightarrow> Q" "p = StStore HTTPS \<Longrightarrow> Q"
    and p: "p = StSpawn HTTP \<Longrightarrow> Q" "p = StSpawn HTTPS \<Longrightarrow> Q" and "p = StWait \<Longrightarrow> Q"
    and "\<And>r. p = StDefer r \<Longrightarrow> Q" and "\<And>r. p = StStopping r \<Longrightarrow> Q" and "\<And>r. p = StReturned r \<Longrightarrow> Q"
  shows Q
proof (cases p)
  case (StListen u)
  with l show ?thesis by (cases u) simp_all
next
  case (StStore u)
  with s show ?thesis by (cases u) simp_all
next
  case (StSpawn u)
  with p show ?thesis by (cases u) simp_all
qed (fact assms)+

lemma once_pc_cases:
  assumes "oc = OnceFresh \<Longrightarrow> Q" and "oc = OnceClose \<Longrightarrow> Q"
    and u: "oc = OnceSpawn HTTP \<Longrightarrow> Q" "oc = OnceSpawn HTTPS \<Longrightarrow> Q"
    and "oc = OnceWait \<Longrightarrow> Q" and "oc = OnceListeners \<Longrightarrow> Q" and "oc = OnceDone \<Longrightarrow> Q"
  shows Q
proof (cases oc)
  case (OnceSpawn w)
  with u show ?thesis by (cases w) simp_all
qed (fact assms)+

lemma serve_step_frame:
  assumes "serve_step keys u fails s = Goes s'"
  shows "sr_start s' = sr_start s" "sr_once s' = sr_once s" "sr_doneCh s' = sr_doneCh s"
    "sr_callers s' = sr_callers s" "sr_errs s' = sr_errs s" "sv_shut (sr_srv s' w) = sv_shut (sr_srv s w)"
    "sv_shutting (sr_srv s' w) = sv_shutting (sr_srv s w)" "sv_field (sr_srv s' w) = sv_field (sr_srv s w)"
  using assms
  by (cases "sv_serve (sr_srv s u)"; simp add: serve_step_def Let_def then_go_Goes split: if_splits; auto)+

lemma shutdown_step_frame:
  assumes "shutdown_step env u s = Goes s'"
  shows "sr_start s' = sr_start s" "sr_once s' = sr_once s" "sr_doneCh s' = sr_doneCh s"
    "sr_callers s' = sr_callers s" "sv_serve (sr_srv s' w) = sv_serve (sr_srv s w)"
    "sv_errCh (sr_srv s' w) = sv_errCh (sr_srv s w)" "sv_field (sr_srv s' w) = sv_field (sr_srv s w)"
  using assms
  by (cases "sv_shut (sr_srv s u)"; simp add: shutdown_step_def Let_def split: if_splits; auto)+

lemma start_step_frame:
  assumes "start_step env listens s = Goes s'"
  shows "sr_doneCh s' = sr_doneCh s" "sr_callers s' = sr_callers s" "sr_errs s' = sr_errs s"
    "sv_shut (sr_srv s' w) = sv_shut (sr_srv s w)" "sv_shutting (sr_srv s' w) = sv_shutting (sr_srv s w)"
    "sv_errCh (sr_srv s' w) = sv_errCh (sr_srv s w)"
  using assms
  by (cases "sr_start s" rule: start_pc_cases; simp add: start_step_def once_do_Goes split: if_splits; auto)+

lemma wake_step_frame:
  assumes "wake_step c s = Goes s'"
  shows "sr_once s' = sr_once s" "sr_doneCh s' = sr_doneCh s" "sr_callers s' = sr_callers s" "sr_errs s' = sr_errs s"
    "sv_shut (sr_srv s' w) = sv_shut (sr_srv s w)" "sv_shutting (sr_srv s' w) = sv_shutting (sr_srv s w)"
    "sv_serve (sr_srv s' w) = sv_serve (sr_srv s w)" "sv_field (sr_srv s' w) = sv_field (sr_srv s w)"
    "sv_listener (sr_srv s' w) = sv_listener (sr_srv s w)"
  using assms by (cases c; auto simp: wake_step_def then_go_Goes split: if_splits prod.splits)+

lemma stop_call_step_frame:
  assumes "stop_call_step i s = Goes s'"
  shows "sr_start s' = sr_start s" "sr_doneCh s' = sr_doneCh s" "sr_srv s' = sr_srv s" "sr_errs s' = sr_errs s"
  using assms
  by (cases "sr_callers s ! i"; auto simp: stop_call_step_def once_do_Goes set_caller_def split: if_splits)+

lemma once_step_frame:
  assumes "once_step env s = Goes s'"
  shows "sr_start s' = sr_start s" "sr_callers s' = sr_callers s"
    "sv_serve (sr_srv s' w) = sv_serve (sr_srv s w)" "sv_field (sr_srv s' w) = sv_field (sr_srv s w)"
    "sv_errCh (sr_srv s' w) = sv_errCh (sr_srv s w)"
  using assms
  by (cases "sr_once s" rule: once_pc_cases; auto simp: once_step_def then_go_Goes split: if_splits)+

lemmas step_frames = start_step_frame wake_step_frame serve_step_frame shutdown_step_frame once_step_frame stop_call_step_frame

lemmas start_move_defs = server_step_def start_step_def once_do_Goes

lemmas server_move_defs = server_step_def wake_step_def serve_step_def shutdown_step_def once_step_def stop_call_step_def
  once_do_Goes set_caller_def chan_send_def chan_recv_def chan_close_def waitForCompletion_def then_go_Goes Let_def

lemma server_inv_init: "server_inv env keys starting_server"
  by (simp add: server_inv_defs starting_server_def new_net_server_def make_channel_def)



lemma control_ok_step:
  assumes "server_step env keys m s = Goes s'"
    and "control_ok (en_TLSEnabled env) (sr_start s) (sr_once s) (sr_doneCh s) (sr_callers s)"
  shows "control_ok (en_TLSEnabled env) (sr_start s') (sr_once s') (sr_doneCh s') (sr_callers s')"
proof (cases m)
  case (MStart listens)
  with assms show ?thesis
    by (cases "sr_start s" rule: start_pc_cases;
      auto simp: start_move_defs split: if_splits option.splits; auto simp: control_ok_def)
next
  case (MWake c)
  with assms show ?thesis
    by (cases c; auto simp: server_move_defs split: if_splits list.splits; auto simp: control_ok_def)
next
  case MOnce
  with assms show ?thesis
    by (cases "sr_once s" rule: once_pc_cases; auto simp: server_move_defs split: if_splits;
      auto simp: close_field_listener control_ok_def)
next
  case (MCaller i)
  with assms show ?thesis
    by (cases "sr_callers s ! i"; auto simp: server_move_defs split: if_splits;
      auto simp: control_ok_def dest!: set_update_cases)
qed (use assms in \<open>auto simp: server_step_def step_frames split: if_splits\<close>, (auto simp: control_ok_def step_frames)?)

lemma alone_ok_step:
  assumes "server_step env keys m s = Goes s'"
    and "alone_ok (sr_start s) (sr_once s) (sr_callers s)"
    and "control_ok (en_TLSEnabled env) (sr_start s) (sr_once s) (sr_doneCh s) (sr_callers s)"
  shows "alone_ok (sr_start s') (sr_once s') (sr_callers s')"
proof (cases m)
  case (MStart listens)
  with assms show ?thesis
    by (cases "sr_start s" rule: start_pc_cases;
      auto simp: start_move_defs split: if_splits option.splits; auto simp: alone_ok_def control_ok_def)
next
  case (MWake c)
  with assms show ?thesis
    by (cases c; auto simp: server_move_defs split: if_splits list.splits; auto simp: alone_ok_def control_ok_def)
next
  case MOnce
  with assms show ?thesis
    by (cases "sr_once s" rule: once_pc_cases; auto simp: server_move_defs split: if_splits;
      auto simp: close_field_listener alone_ok_def control_ok_def)
next
  case (MCaller i)
  with assms show ?thesis
    by (cases "sr_callers s ! i"; auto simp: server_move_defs split: if_splits;
      auto simp: alone_ok_def control_ok_def dest!: set_update_cases)
qed (use assms in \<open>auto simp: server_step_def step_frames split: if_splits\<close>, (auto simp: alone_ok_def control_ok_def step_frames)?)

lemma shut_ok_step:
  assumes "server_step env keys m s = Goes s'"
    and "shut_ok (en_TLSEnabled env) w (sr_once s) (sr_srv s w)"
    and "control_ok (en_TLSEnabled env) (sr_start s) (sr_once s) (sr_doneCh s) (sr_callers s)"
  shows "shut_ok (en_TLSEnabled env) w (sr_once s') (sr_srv s' w)"
proof (cases m)
  case (MStart listens)
  with assms show ?thesis
    by (cases w; cases "sr_start s" rule: start_pc_cases;
      auto simp: start_move_defs split: if_splits option.splits; auto simp: shut_ok_def control_ok_def)
next
  case (MShut u)
  with assms show ?thesis
    by (cases w; cases u; cases "sv_shut (sr_srv s u)"; auto simp: server_move_defs split: if_splits;
      auto simp: shut_ok_def control_ok_def)
next
  case MOnce
  with assms show ?thesis
    by (cases w; cases "sr_once s" rule: once_pc_cases; auto simp: server_move_defs split: if_splits;
      auto simp: close_field_listener shut_ok_def control_ok_def)
next
  case (MCaller i)
  with assms show ?thesis
    by (cases "sr_callers s ! i"; auto simp: server_move_defs split: if_splits;
      auto simp: shut_ok_def control_ok_def dest!: set_update_cases)
qed (use assms in \<open>auto simp: server_step_def step_frames split: if_splits\<close>, (auto simp: shut_ok_def control_ok_def step_frames)?)

lemma serve_ok_step:
  assumes "server_step env keys m s = Goes s'"
    and "serve_ok (en_TLSEnabled env) w (sr_start s) (sr_once s) (sr_srv s w)"
    and "control_ok (en_TLSEnabled env) (sr_start s) (sr_once s) (sr_doneCh s) (sr_callers s)"
  shows "serve_ok (en_TLSEnabled env) w (sr_start s') (sr_once s') (sr_srv s' w)"
proof (cases m)
  case (MStart listens)
  with assms show ?thesis
    by (cases w; cases "sr_start s" rule: start_pc_cases;
      auto simp: start_move_defs split: if_splits option.splits; auto simp: serve_ok_def control_ok_def)
next
  case (MWake c)
  with assms show ?thesis
    by (cases w; cases c; auto simp: server_move_defs split: if_splits list.splits; auto simp: serve_ok_def control_ok_def)
next
  case (MServe u fails)
  with assms show ?thesis
    by (cases w; cases u; cases "sv_serve (sr_srv s u)"; auto simp: server_move_defs split: if_splits;
      auto simp: serve_ok_def control_ok_def)
next
  case MOnce
  with assms show ?thesis
    by (cases w; cases "sr_once s" rule: once_pc_cases; auto simp: server_move_defs split: if_splits;
      auto simp: close_field_listener serve_ok_def control_ok_def)
next
  case (MCaller i)
  with assms show ?thesis
    by (cases "sr_callers s ! i"; auto simp: server_move_defs split: if_splits;
      auto simp: serve_ok_def control_ok_def dest!: set_update_cases)
qed (use assms in \<open>auto simp: server_step_def step_frames split: if_splits\<close>, (auto simp: serve_ok_def control_ok_def step_frames)?)

lemma errCh_ok_step:
  assumes "server_step env keys m s = Goes s'"
    and "errCh_ok (sr_srv s w)"
    and "serve_ok (en_TLSEnabled env) w (sr_start s) (sr_once s) (sr_srv s w)"
  shows "errCh_ok (sr_srv s' w)"
proof (cases m)
  case (MStart listens)
  with assms show ?thesis
    by (cases w; cases "sr_start s" rule: start_pc_cases;
      auto simp: start_move_defs split: if_splits option.splits; auto simp: errCh_ok_def serve_ok_def)
next
  case (MWake c)
  with assms show ?thesis
    by (cases w; cases c; auto simp: server_move_defs split: if_splits list.splits; auto simp: errCh_ok_def serve_ok_def)
next
  case (MServe u fails)
  with assms show ?thesis
    by (cases w; cases u; cases "sv_serve (sr_srv s u)"; auto simp: server_move_defs split: if_splits;
      auto simp: errCh_ok_def serve_ok_def)
qed (use assms in \<open>auto simp: server_step_def step_frames split: if_splits\<close>, (auto simp: errCh_ok_def serve_ok_def step_frames)?)

lemma listener_ok_step:
  assumes "server_step env keys m s = Goes s'"
    and "listener_ok (en_TLSEnabled env) keys w (sr_start s) (sr_srv s w)"
    and "control_ok (en_TLSEnabled env) (sr_start s) (sr_once s) (sr_doneCh s) (sr_callers s)"
    and "serve_ok (en_TLSEnabled env) w (sr_start s) (sr_once s) (sr_srv s w)"
    and "shut_ok (en_TLSEnabled env) w (sr_once s) (sr_srv s w)"
  shows "listener_ok (en_TLSEnabled env) keys w (sr_start s') (sr_srv s' w)"
proof (cases m)
  case (MStart listens)
  with assms show ?thesis
    by (cases w; cases "sr_start s" rule: start_pc_cases;
      auto simp: start_move_defs split: if_splits option.splits; auto simp: listener_ok_def serve_ok_def shut_ok_def control_ok_def)
next
  case (MWake c)
  with assms show ?thesis
    by (cases w; cases c; auto simp: server_move_defs split: if_splits list.splits; auto simp: listener_ok_def serve_ok_def shut_ok_def control_ok_def)
next
  case (MServe u fails)
  with assms show ?thesis
    by (cases w; cases u; cases "sv_serve (sr_srv s u)"; auto simp: server_move_defs split: if_splits;
      auto simp: listener_ok_def dest: shut_ok_open)
next
  case (MShut u)
  with assms show ?thesis
    by (cases w; cases u; cases "sv_shut (sr_srv s u)"; auto simp: server_move_defs split: if_splits;
      auto simp: listener_ok_def serve_ok_def shut_ok_def control_ok_def)
next
  case MOnce
  with assms show ?thesis
    by (cases w; cases "sr_once s" rule: once_pc_cases; auto simp: server_move_defs split: if_splits;
      auto simp: close_field_listener listener_ok_def serve_ok_def shut_ok_def control_ok_def)
qed (use assms in \<open>auto simp: server_step_def step_frames split: if_splits\<close>, (auto simp: listener_ok_def serve_ok_def shut_ok_def control_ok_def step_frames)?)

lemma closed_ok_step:
  assumes "server_step env keys m s = Goes s'"
    and "closed_ok (sr_once s) (sr_callers s) (sr_srv s w)"
    and "alone_ok (sr_start s) (sr_once s) (sr_callers s)"
  shows "closed_ok (sr_once s') (sr_callers s') (sr_srv s' w)"
proof (cases m)
  case (MStart listens)
  with assms show ?thesis
    by (cases w; cases "sr_start s" rule: start_pc_cases;
      auto simp: start_move_defs split: if_splits option.splits; auto simp: closed_ok_def alone_ok_def)
next
  case (MServe u fails)
  with assms show ?thesis
    by (cases w; cases u; cases "sv_serve (sr_srv s u)"; auto simp: server_move_defs split: if_splits;
      auto simp: closed_ok_def alone_ok_def)
next
  case (MShut u)
  with assms show ?thesis
    by (cases w; cases u; cases "sv_shut (sr_srv s u)"; auto simp: server_move_defs split: if_splits;
      auto simp: closed_ok_def alone_ok_def)
next
  case MOnce
  with assms show ?thesis
    by (cases w; cases "sr_once s" rule: once_pc_cases; auto simp: server_move_defs split: if_splits;
      auto simp: close_field_listener closed_ok_def alone_ok_def)
next
  case (MCaller i)
  with assms show ?thesis
    by (cases "sr_callers s ! i"; auto simp: server_move_defs split: if_splits;
      auto simp: closed_ok_def alone_ok_def dest!: set_update_cases)
qed (use assms in \<open>auto simp: server_step_def step_frames split: if_splits\<close>, (auto simp: closed_ok_def alone_ok_def step_frames)?)

lemma errors_ok_step:
  assumes "server_step env keys m s = Goes s'"
    and "errors_ok (sr_errs s) (sr_srv s w)"
  shows "errors_ok (sr_errs s') (sr_srv s' w)"
proof (cases m)
  case (MShut u)
  with assms show ?thesis
    by (cases w; cases u; cases "sv_shut (sr_srv s u)"; auto simp: server_move_defs split: if_splits;
      auto simp: errors_ok_def)
next
  case MOnce
  with assms show ?thesis
    by (cases w; cases "sr_once s" rule: once_pc_cases; auto simp: server_move_defs split: if_splits;
      auto simp: close_field_listener errors_ok_def)
qed (use assms in \<open>auto simp: server_step_def step_frames split: if_splits\<close>, (auto simp: errors_ok_def step_frames)?)

lemma server_inv_step:
  assumes "server_inv env keys s" and "server_step env keys m s = Goes s'"
  shows "server_inv env keys s'"
  using assms(1) control_ok_step [OF assms(2)] alone_ok_step [OF assms(2)] shut_ok_step [OF assms(2)]
    serve_ok_step [OF assms(2)] errCh_ok_step [OF assms(2)] listener_ok_step [OF assms(2)]
    closed_ok_step [OF assms(2)] errors_ok_step [OF assms(2)]
  unfolding server_inv_def by blast

end
