(* ===== verification/Server_Run_Correct.thy ===== *)
theory Server_Run_Correct imports Server_Run_Invariant begin

text \<open>
  What holds of every run of a server: it ends when it is told to, within a bounded number of steps of its own (the
  locale \<open>finishing\<close> of \<open>Go_Sync\<close>, whose instance is here); it leaves no listener open; it accepts nothing after a
  stop; it does not panic; every result of \<open>Start\<close> is one the function of \<open>Server_Lifecycle\<close> gives. The last part has runs that show what the code does when a stop meets a start or two
  shutdowns fail together.
\<close>

section \<open>Progress\<close>

text \<open>What is left for each thread to do.\<close>

fun start_work :: "start_pc \<Rightarrow> nat" where
  "start_work StValidate = 10"
| "start_work (StListen HTTP) = 9"
| "start_work (StStore HTTP) = 8"
| "start_work (StListen HTTPS) = 7"
| "start_work (StStore HTTPS) = 6"
| "start_work (StSpawn HTTP) = 5"
| "start_work (StSpawn HTTPS) = 4"
| "start_work StWait = 3"
| "start_work (StDefer r) = 2"
| "start_work (StStopping r) = 1"
| "start_work (StReturned r) = 0"

fun once_work :: "once_pc \<Rightarrow> nat" where
  "once_work OnceFresh = 6"
| "once_work OnceClose = 5"
| "once_work (OnceSpawn HTTP) = 4"
| "once_work (OnceSpawn HTTPS) = 3"
| "once_work OnceWait = 2"
| "once_work OnceListeners = 1"
| "once_work OnceDone = 0"

fun serve_work :: "serve_pc \<Rightarrow> nat" where
  "serve_work SvNone = 5"
| "serve_work SvSpawned = 4"
| "serve_work SvTrack = 3"
| "serve_work SvAccept = 2"
| "serve_work (SvReport e) = 1"
| "serve_work SvEnd = 0"

fun shut_work :: "shut_pc \<Rightarrow> nat" where
  "shut_work ShNone = 6"
| "shut_work ShFlag = 5"
| "shut_work ShClose = 4"
| "shut_work (ShWait failed) = 3"
| "shut_work ShLoad = 2"
| "shut_work (ShStore es) = 1"
| "shut_work (ShEnd failed) = 0"

fun caller_work :: "caller_pc \<Rightarrow> nat" where
  "caller_work ClCalling = 2"
| "caller_work ClRunning = 1"
| "caller_work (ClReturned r) = 0"

definition server_work :: "net_server \<Rightarrow> nat" where
  "server_work v = serve_work (sv_serve v) + shut_work (sv_shut v)"

definition server_run_work :: "server_run \<Rightarrow> nat" where
  "server_run_work s = start_work (sr_start s) + once_work (sr_once s) + server_work (sr_srv s HTTP) + server_work (sr_srv s HTTPS)
     + sum_list (map caller_work (sr_callers s)) + (if sr_expired s then 0 else 1)"

lemma shut_ok_spawn: "shut_ok tls w (OnceSpawn w) v \<Longrightarrow> sv_shut v = ShNone"
  by (cases w) (simp_all add: shut_ok_def)

lemma own_server_step:
  assumes "server_inv env keys s" and "own_server_move m" and "server_step env keys m s = Goes s'"
  shows "server_run_work s' < server_run_work s"
proof (cases m)
  case (MStart listens)
  have "serve_ok (en_TLSEnabled env) w (sr_start s) (sr_once s) (sr_srv s w)" for w
    using assms(1) by (simp add: server_inv_def)
  with this [of HTTP] this [of HTTPS] MStart assms(3) show ?thesis
    by (cases "sr_start s" rule: start_pc_cases;
      auto simp: start_move_defs server_run_work_def server_work_def split: if_splits option.splits; auto simp: serve_ok_def)
next
  case (MWake c)
  with assms(3) show ?thesis
    by (cases c; auto simp: server_move_defs server_run_work_def server_work_def split: if_splits list.splits)
next
  case (MServe u fails)
  with assms(3) show ?thesis
    by (cases u; cases "sv_serve (sr_srv s u)"; auto simp: server_move_defs server_run_work_def server_work_def split: if_splits)
next
  case (MShut u)
  with assms(3) show ?thesis
    by (cases u; cases "sv_shut (sr_srv s u)"; auto simp: server_move_defs server_run_work_def server_work_def split: if_splits)
next
  case MOnce
  have "sr_once s = OnceSpawn u \<Longrightarrow> sv_shut (sr_srv s u) = ShNone" for u
    using assms(1) shut_ok_spawn [of "en_TLSEnabled env" u] by (auto simp: server_inv_def)
  with this [of HTTP] this [of HTTPS] MOnce assms(3) show ?thesis
    by (cases "sr_once s" rule: once_pc_cases;
      auto simp: server_move_defs server_run_work_def server_work_def split: if_splits)
next
  case (MCaller i)
  have "i < length (sr_callers s) \<Longrightarrow> sum_list (map caller_work ((sr_callers s)[i := c])) + caller_work (sr_callers s ! i)
      = sum_list (map caller_work (sr_callers s)) + caller_work c" for c
    by (rule sum_list_map_update)
  from this [of ClRunning] this [of "ClReturned None"] this [of "ClReturned (stop_error (sr_errs s))"] MCaller assms(3)
  show ?thesis
    by (cases "sr_callers s ! i") (auto simp: server_move_defs server_run_work_def split: if_splits)
qed (use assms in \<open>auto simp: own_server_move_def server_step_def server_run_work_def split: if_splits\<close>)

text \<open>The parts of the invariant, for one server.\<close>

lemma server_invD:
  assumes "server_inv env keys s"
  shows "control_ok (en_TLSEnabled env) (sr_start s) (sr_once s) (sr_doneCh s) (sr_callers s)"
    and "alone_ok (sr_start s) (sr_once s) (sr_callers s)"
    and "shut_ok (en_TLSEnabled env) w (sr_once s) (sr_srv s w)"
    and "serve_ok (en_TLSEnabled env) w (sr_start s) (sr_once s) (sr_srv s w)"
    and "errCh_ok (sr_srv s w)" and "listener_ok (en_TLSEnabled env) keys w (sr_start s) (sr_srv s w)"
    and "closed_ok (sr_once s) (sr_callers s) (sr_srv s w)" and "errors_ok (sr_errs s) (sr_srv s w)"
  using assms by (simp_all add: server_inv_def)

definition can_move :: "server_env \<Rightarrow> bool \<Rightarrow> server_run \<Rightarrow> bool" where
  "can_move env keys s \<longleftrightarrow> (\<exists>m. own_server_move m \<and> goes (server_step env keys m s) \<noteq> None)"

lemma stuck_moves:
  assumes "\<not> can_move env keys s"
  shows "goes (start_step env True s) = None" and "goes (wake_step c s) = None" and "goes (serve_step keys w False s) = None"
    and "goes (shutdown_step env w s) = None" and "goes (once_step env s) = None" and "goes (stop_call_step i s) = None"
    and "sr_once s \<notin> {OnceFresh, OnceClose} \<Longrightarrow> sr_expired s"
proof -
  have stuck: "goes (server_step env keys m s) = None" if "own_server_move m" for m
    using assms that by (auto simp: can_move_def)
  show "goes (start_step env True s) = None" "goes (wake_step c s) = None" "goes (serve_step keys w False s) = None"
      "goes (shutdown_step env w s) = None" "goes (once_step env s) = None" "goes (stop_call_step i s) = None"
    using stuck [of "MStart True"] stuck [of "MWake c"] stuck [of "MServe w False"] stuck [of "MShut w"] stuck [of MOnce]
      stuck [of "MCaller i"] by (simp_all add: own_server_move_def server_step_def)
  show "sr_once s \<notin> {OnceFresh, OnceClose} \<Longrightarrow> sr_expired s"
    using stuck [of MExpire] by (auto simp: own_server_move_def server_step_def split: if_splits)
qed

lemma start_moves:
  assumes "\<not> can_move env keys s"
  shows "sr_start s = StWait \<and> \<not> sr_cancelled s \<and> (ch_buf (sr_doneCh s) = [] \<longrightarrow> \<not> ch_closed (sr_doneCh s))
    \<or> (\<exists>r. sr_start s = StDefer r) \<and> sr_once s \<notin> {OnceFresh, OnceDone}
    \<or> (\<exists>r. sr_start s = StStopping r) \<and> sr_once s \<noteq> OnceDone \<or> start_is_back (sr_start s)"
proof (cases "sr_start s" rule: start_pc_cases)
  case 8
  with stuck_moves(2) [OF assms, of OnCtx] stuck_moves(2) [OF assms, of OnDone]
  show ?thesis by (auto simp: wake_step_def chan_recv_def split: list.splits if_splits)
next
  case (9 r)
  with stuck_moves(1) [OF assms] show ?thesis by (cases "sr_once s") (auto simp: start_step_def once_do_def)
qed (use stuck_moves(1) [OF assms] in \<open>auto simp: start_step_def split: if_splits\<close>)

lemma shutdown_moves:
  assumes "\<not> can_move env keys s" and "sr_once s \<notin> {OnceFresh, OnceClose}"
  shows "shut_over (sv_shut (sr_srv s w))"
  using stuck_moves(4) [OF assms(1), of w] stuck_moves(7) [OF assms]
  by (cases "sv_shut (sr_srv s w)") (auto simp: shutdown_step_def Let_def split: if_splits)

lemma once_moves:
  assumes "\<not> can_move env keys s"
    and "control_ok (en_TLSEnabled env) (sr_start s) (sr_once s) (sr_doneCh s) (sr_callers s)"
  shows "sr_once s = OnceFresh \<or> sr_once s = OnceDone"
proof (cases "sr_once s" rule: once_pc_cases)
  case 5
  then have "shut_over (sv_shut (sr_srv s w))" for w using shutdown_moves [OF assms(1)] by simp
  with 5 stuck_moves(5) [OF assms(1)] show ?thesis by (simp add: once_step_def)
qed (use stuck_moves(5) [OF assms(1)] assms(2) in \<open>auto simp: once_step_def chan_close_def control_ok_def\<close>)

lemma serve_moves:
  assumes "\<not> can_move env keys s" and "errCh_ok (sr_srv s w)"
  shows "sv_serve (sr_srv s w) \<in> {SvNone, SvEnd} \<or> sv_serve (sr_srv s w) = SvAccept \<and> sv_listener (sr_srv s w) = Open"
  using stuck_moves(3) [OF assms(1), of w] assms(2)
  by (cases "sv_serve (sr_srv s w)") (auto simp: serve_step_def Let_def errCh_ok_def chan_send_def split: if_splits)

lemma caller_moves:
  assumes "\<not> can_move env keys s" and "c \<in> set (sr_callers s)"
    and "control_ok (en_TLSEnabled env) (sr_start s) (sr_once s) (sr_doneCh s) (sr_callers s)"
  shows "\<exists>r. c = ClReturned r"
proof -
  obtain i where i: "i < length (sr_callers s)" "sr_callers s ! i = c" using assms(2) by (auto simp: in_set_conv_nth)
  have r: "c = ClRunning \<Longrightarrow> sr_once s \<noteq> OnceFresh" using assms(2,3) by (auto simp: control_ok_def)
  from once_moves [OF assms(1,3)] show ?thesis
    using i r stuck_moves(6) [OF assms(1), of i]
    by (cases c; elim disjE) (simp_all add: stop_call_step_def once_do_def)
qed

text \<open>A run told to end in which no thread can move is over.\<close>

lemma server_stuck_over:
  assumes "server_inv env keys s" and "told_to_end s" and "\<not> can_move env keys s"
  shows "server_over s"
proof -
  note inv = server_invD [OF assms(1)]
  note once = once_moves [OF assms(3) inv(1)]
  have over: "start_is_back (sr_start s)"
    using start_moves [OF assms(3)] once inv(1) assms(2) by (auto simp: control_ok_def told_to_end_def)
  have shut: "shut_over (sv_shut (sr_srv s w))" for w
    using once inv(3) [of w] by (auto simp: shut_ok_def)
  have serve: "sv_serve (sr_srv s w) \<in> {SvNone, SvEnd}" for w
  proof -
    have "sv_serve (sr_srv s w) \<noteq> SvAccept \<or> sv_listener (sr_srv s w) \<noteq> Open"
    proof (cases "sr_once s = OnceFresh")
      case True
      with over inv(4) [of w] show ?thesis by (simp add: serve_ok_def)
    next
      case False
      with once have d: "sr_once s = OnceDone" by simp
      have "sv_shut (sr_srv s w) \<noteq> ShNone" if "sv_serve (sr_srv s w) = SvAccept"
        using inv(3,4) [of w] d that by (auto simp: shut_ok_def serve_ok_def)
      then have "sv_serve (sr_srv s w) = SvAccept \<Longrightarrow> has_closed (sv_shut (sr_srv s w))"
        using shut [of w] by (cases "sv_shut (sr_srv s w)") simp_all
      with inv(6) [of w] show ?thesis by (auto simp: listener_ok_def)
    qed
    with serve_moves [OF assms(3) inv(5) [of w]] show ?thesis by auto
  qed
  show ?thesis
    unfolding server_over_def
    using over shut serve caller_moves [OF assms(3) _ inv(1)] by (cases "sr_start s") auto
qed

lemma told_to_end_step: "told_to_end s \<Longrightarrow> server_step env keys m s = Goes s' \<Longrightarrow> told_to_end s'"
proof (cases m)
  case (MStart listens)
  then show "told_to_end s \<Longrightarrow> server_step env keys m s = Goes s' \<Longrightarrow> told_to_end s'"
    by (cases "sr_start s" rule: start_pc_cases; auto simp: start_move_defs told_to_end_def split: if_splits)
next
  case (MWake c)
  then show "told_to_end s \<Longrightarrow> server_step env keys m s = Goes s' \<Longrightarrow> told_to_end s'"
    by (cases c; auto simp: server_move_defs told_to_end_def split: if_splits list.splits)
next
  case (MServe u fails)
  then show "told_to_end s \<Longrightarrow> server_step env keys m s = Goes s' \<Longrightarrow> told_to_end s'"
    by (cases "sv_serve (sr_srv s u)"; auto simp: server_move_defs told_to_end_def split: if_splits)
next
  case (MShut u)
  then show "told_to_end s \<Longrightarrow> server_step env keys m s = Goes s' \<Longrightarrow> told_to_end s'"
    by (cases "sv_shut (sr_srv s u)"; auto simp: server_move_defs told_to_end_def split: if_splits)
next
  case MOnce
  then show "told_to_end s \<Longrightarrow> server_step env keys m s = Goes s' \<Longrightarrow> told_to_end s'"
    by (cases "sr_once s" rule: once_pc_cases; auto simp: server_move_defs told_to_end_def split: if_splits)
next
  case (MCaller i)
  then show "told_to_end s \<Longrightarrow> server_step env keys m s = Goes s' \<Longrightarrow> told_to_end s'"
    by (cases "sr_callers s ! i"; auto simp: server_move_defs told_to_end_def split: if_splits)
qed (auto simp: server_step_def told_to_end_def split: if_splits)

interpretation sv: finishing "server_step env keys" starting_server "server_inv env keys" own_server_move told_to_end
    server_over server_run_work for env keys
proof
  show "server_inv env keys starting_server" for env keys by (rule server_inv_init)
  show "server_inv env keys s \<Longrightarrow> server_step env keys m s = Goes s' \<Longrightarrow> server_inv env keys s'" for env keys s m s'
    by (rule server_inv_step)
  show "\<exists>m s'. own_server_move m \<and> server_step env keys m s = Goes s'"
    if "server_inv env keys s" "told_to_end s" "\<not> server_over s" for env keys s
  proof -
    from that server_stuck_over have "can_move env keys s" by blast
    then obtain m where "own_server_move m" "goes (server_step env keys m s) \<noteq> None" by (auto simp: can_move_def)
    then show ?thesis by (cases "server_step env keys m s") auto
  qed
  show "told_to_end s' \<and> server_run_work s' < server_run_work s"
    if "server_inv env keys s" "told_to_end s" "own_server_move m" "server_step env keys m s = Goes s'" for env keys s m s'
    using that told_to_end_step own_server_step by blast
qed

section \<open>Properties\<close>

lemma server_run_inv: "run (server_step env keys) ms starting_server = Goes s \<Longrightarrow> server_inv env keys s"
  by (rule sv.reaches_inv [OF run_from_init])

lemma server_never_panics: "run (server_step env keys) ms starting_server \<noteq> Panics v"
proof -
  have step: "server_step env keys m s \<noteq> Panics v" if "server_inv env keys s" for m s
  proof (cases m)
    case (MStart listens)
    then show ?thesis
      by (cases "sr_start s" rule: start_pc_cases; cases "sr_once s") (simp_all add: server_step_def start_step_def once_do_def)
  next
    case (MWake c)
    then show ?thesis
      by (cases c) (auto simp: server_step_def wake_step_def chan_recv_def then_go_Panics split: list.splits if_splits)
  next
    case (MServe u fails)
    with server_invD(5) [OF that, of u] show ?thesis
      by (cases "sv_serve (sr_srv s u)")
        (auto simp: server_step_def serve_step_def Let_def chan_send_def errCh_ok_def then_go_Panics split: if_splits)
  next
    case (MShut u)
    then show ?thesis
      by (cases "sv_shut (sr_srv s u)") (auto simp: server_step_def shutdown_step_def Let_def split: if_splits)
  next
    case MOnce
    with server_invD(1) [OF that] show ?thesis
      by (cases "sr_once s") (auto simp: server_step_def once_step_def chan_close_def control_ok_def then_go_Panics split: if_splits)
  next
    case (MCaller i)
    then show ?thesis
      by (cases "sr_callers s ! i"; cases "sr_once s") (auto simp: server_step_def stop_call_step_def once_do_def)
  qed (auto simp: server_step_def)
  have "server_inv env keys s \<Longrightarrow> run (server_step env keys) ms s \<noteq> Panics v" for s
    by (induction ms arbitrary: s) (auto simp: then_go_Panics dest: step server_inv_step)
  then show ?thesis using server_inv_init by blast
qed

lemma over_closed:
  assumes "server_inv env keys s" and "server_over s" and "keys \<or> sr_callers s = []"
  shows "sv_listener (sr_srv s w) \<noteq> Open"
proof
  assume o: "sv_listener (sr_srv s w) = Open"
  note inv = server_invD [OF assms(1)]
  obtain r where r: "sr_start s = StReturned r" using assms(2) by (auto simp: server_over_def)
  have ended: "\<not> serving (sv_serve (sr_srv s w))" using assms(2) by (auto simp: server_over_def dest: spec [of _ w])
  with o r inv(6) [of w] have leak: "w = HTTPS" "\<not> keys" "sv_serve (sr_srv s w) \<noteq> SvNone"
    by (auto simp: listener_ok_def)
  with assms(3) have alone: "sr_callers s = []" by simp
  from leak(3) r inv(4) [of w] have f: "sv_field (sr_srv s w)" "sr_once s \<noteq> OnceFresh" by (auto simp: serve_ok_def)
  from alone r f(2) inv(2) have "sr_once s = OnceDone" by (simp add: alone_ok_def)
  with f(1) alone o inv(7) [of w] show False by (simp add: closed_ok_def)
qed

lemma once_done_step:
  assumes "server_step env keys m s = Goes s'" and "sr_once s = OnceDone"
  shows "sr_once s' = OnceDone"
proof (cases m)
  case (MStart listens)
  with assms show ?thesis
    by (cases "sr_start s" rule: start_pc_cases; auto simp: start_move_defs split: if_splits)
next
  case (MWake c)
  with assms show ?thesis by (cases c; auto simp: server_move_defs split: if_splits list.splits)
next
  case (MCaller i)
  with assms show ?thesis by (cases "sr_callers s ! i"; auto simp: server_move_defs split: if_splits)
qed (use assms in \<open>auto simp: server_step_def once_step_def serve_step_frame shutdown_step_frame split: if_splits\<close>)

lemma once_done_run: "run (server_step env keys) ns s = Goes s' \<Longrightarrow> sr_once s = OnceDone \<Longrightarrow> sr_once s' = OnceDone"
  by (induction ns arbitrary: s) (auto simp: then_go_Goes dest: once_done_step)

lemma stopped_accepts_nothing:
  assumes "server_inv env keys s" and "sr_once s = OnceDone"
  shows "server_step env keys (MAccept w) s = Blocks"
proof -
  note inv = server_invD [OF assms(1)]
  have "has_closed (sv_shut (sr_srv s w))" if "sv_serve (sr_srv s w) = SvAccept"
    using inv(3,4) [of w] assms(2) that by (cases "sv_shut (sr_srv s w)") (auto simp: shut_ok_def serve_ok_def)
  with inv(6) [of w] show ?thesis by (auto simp: server_step_def listener_ok_def)
qed

text \<open>
  C17: once the server is told to end (by the context of \<open>Start\<close> or by a call of \<open>Stop\<close>, at any moment, also in the
  middle of a start), \<open>Start\<close>, all calls of \<open>Stop\<close> and all goroutines come to an end by themselves within a bounded
  number of steps of their own; and then no listener is open, if the key pair can be loaded or nobody but \<open>Start\<close>
  has called \<open>Stop\<close>.
\<close>

theorem server_ends_closed:
  assumes "run (server_step env keys) ms starting_server = Goes s" and "told_to_end s"
  shows "(\<exists>ns s'. list_all own_server_move ns \<and> run (server_step env keys) ns s = Goes s' \<and> server_over s')
    \<and> (\<forall>ns s'. list_all own_server_move ns \<and> run (server_step env keys) ns s = Goes s' \<longrightarrow> length ns \<le> server_run_work s)
    \<and> (\<forall>ns s' w. run (server_step env keys) ns s = Goes s' \<and> server_over s' \<and> (keys \<or> sr_callers s' = [])
        \<longrightarrow> sv_listener (sr_srv s' w) \<noteq> Open)"
proof (intro conjI allI impI)
  note inv = server_run_inv [OF assms(1)]
  show "\<exists>ns s'. list_all own_server_move ns \<and> run (server_step env keys) ns s = Goes s' \<and> server_over s'"
    by (rule sv.own_run_finishes [OF inv assms(2)])
  show "length ns \<le> server_run_work s" if "list_all own_server_move ns \<and> run (server_step env keys) ns s = Goes s'" for ns s'
    using sv.own_run_bounded [OF inv assms(2), of ns s'] that by simp
  show "sv_listener (sr_srv s' w) \<noteq> Open"
    if r: "run (server_step env keys) ns s = Goes s' \<and> server_over s' \<and> (keys \<or> sr_callers s' = [])" for ns s' w
  proof -
    from r assms(1) have "run (server_step env keys) (ms @ ns) starting_server = Goes s'" by (simp add: run_append)
    from over_closed [OF server_run_inv [OF this]] r show ?thesis by blast
  qed
qed

text \<open>A server with TLS whose context ends when only the HTTP listener is open.\<close>

definition tls_env :: server_env where
  "tls_env = quiet_env\<lparr>en_listen_https := True\<rparr>"

definition half_started :: "server_move list" where
  "half_started = [MStart True, MStart True, MCancel]"

lemma server_ends_closed_witness:
  "\<exists>s ns s'. run (server_step tls_env False) half_started starting_server = Goes s
    \<and> sv_listener (sr_srv s HTTP) = Open \<and> run (server_step tls_env False) ns s = Goes s' \<and> server_over s'"
proof -
  obtain s where s: "run (server_step tls_env False) half_started starting_server = Goes s"
    and "told_to_end s" "sv_listener (sr_srv s HTTP) = Open"
    by (simp add: half_started_def server_step_def start_step_def starting_server_def tls_env_def quiet_env_def
        validateTLSConfig_def told_to_end_def)
  with server_ends_closed [OF s] show ?thesis by blast
qed

text \<open>
  C18: after any call of \<open>Stop\<close> has returned the server never accepts a connection again, whatever else happens.
\<close>

theorem no_connection_after_stop:
  assumes "run (server_step env keys) ms starting_server = Goes s" and "ClReturned r \<in> set (sr_callers s)"
  shows "run (server_step env keys) (ns @ [MAccept w]) s \<noteq> Goes s'"
proof
  assume "run (server_step env keys) (ns @ [MAccept w]) s = Goes s'"
  then obtain t where t: "run (server_step env keys) ns s = Goes t" "server_step env keys (MAccept w) t = Goes s'"
    by (auto simp: run_append then_go_Goes)
  have "run (server_step env keys) (ms @ ns) starting_server = Goes t" using assms(1) t(1) by (simp add: run_append)
  moreover have "sr_once t = OnceDone"
    using once_done_run [OF t(1)] server_invD(1) [OF server_run_inv [OF assms(1)]] assms(2) by (auto simp: control_ok_def)
  ultimately show False using stopped_accepts_nothing [OF server_run_inv] t(2) by fastforce
qed

text \<open>A whole run of a server without TLS: it serves one connection, is stopped, and ends.\<close>

definition stopped_run :: "server_move list" where
  "stopped_run =
     [MStart True, MStart True, MStart True, MStart True, MServe HTTP False, MServe HTTP False, MAccept HTTP,
      MCallStop, MCaller 0, MOnce, MOnce, MShut HTTP, MShut HTTP, MServe HTTP False, MFinish HTTP, MShut HTTP,
      MOnce, MOnce, MCaller 0]"

lemma no_connection_after_stop_witness:
  "\<exists>s. run (server_step (tls_env\<lparr>en_TLSEnabled := False\<rparr>) True) stopped_run starting_server = Goes s
    \<and> sr_callers s = [ClReturned None]
    \<and> (\<forall>ns s'. run (server_step (tls_env\<lparr>en_TLSEnabled := False\<rparr>) True) (ns @ [MAccept HTTP]) s \<noteq> Goes s')"
proof -
  let ?step = "server_step (tls_env\<lparr>en_TLSEnabled := False\<rparr>) True"
  have "map_option sr_callers (goes (run ?step stopped_run starting_server)) = Some [ClReturned None]" by code_simp
  from goes_mapD [OF this] obtain s
    where s: "run ?step stopped_run starting_server = Goes s" "sr_callers s = [ClReturned None]" by blast
  with no_connection_after_stop [OF s(1), of None] show ?thesis by (intro exI [of _ s]) simp
qed

text \<open>\<open>Start\<close> returns without an error only if somebody else has called \<open>Stop\<close>.\<close>

lemma start_nil_only_if_stopped:
  "run (server_step env keys) ms starting_server = Goes s \<Longrightarrow> sr_start s = StReturned None \<Longrightarrow> sr_callers s \<noteq> []"
  using server_invD(2) [OF server_run_inv] by (fastforce simp: alone_ok_def)

text \<open>
  The function \<open>Start\<close> of \<open>Server_Lifecycle\<close> gives every result that \<open>Start\<close> can return here: whatever the interleaving, it is
  the error of the TLS check, of a listener, or what \<open>waitForCompletion\<close> makes of the event that ended the wait.
\<close>

fun start_result :: "start_pc \<Rightarrow> server_error option option" where
  "start_result (StDefer r) = Some r"
| "start_result (StStopping r) = Some r"
| "start_result (StReturned r) = Some r"
| "start_result p = None"

definition possible_result :: "server_env \<Rightarrow> server_error option \<Rightarrow> bool" where
  "possible_result env r \<longleftrightarrow>
     (case validateTLSConfig env of
        Some e \<Rightarrow> r = Some e
      | None \<Rightarrow> r = Some ErrCreateHTTPListener \<or> en_TLSEnabled env \<and> r = Some ErrCreateHTTPSListener
          \<or> (\<exists>ev. r = waitForCompletion ev))"

definition start_result_ok :: "server_env \<Rightarrow> start_pc \<Rightarrow> bool" where
  "start_result_ok env p \<longleftrightarrow>
     (case start_result p of
        Some r \<Rightarrow> possible_result env r
      | None \<Rightarrow> p = StValidate \<or> validateTLSConfig env = None)"

lemma start_result_ok_step:
  assumes "server_step env keys m s = Goes s'" and "server_inv env keys s" and "start_result_ok env (sr_start s)"
  shows "start_result_ok env (sr_start s')"
proof (cases m)
  case (MStart listens)
  with assms(1,3) server_invD(1) [OF assms(2)] show ?thesis
    by (cases "sr_start s" rule: start_pc_cases; auto simp: start_move_defs split: if_splits option.splits;
      auto simp: start_result_ok_def possible_result_def control_ok_def)
next
  case (MWake c)
  with assms(1) have w: "sr_start s = StWait" "\<exists>ev. sr_start s' = StDefer (waitForCompletion ev)"
    by (cases c; auto simp: server_step_def wake_step_def then_go_Goes split: if_splits prod.splits)+
  with assms(3) show ?thesis by (auto simp: start_result_ok_def possible_result_def)
qed (use assms in \<open>auto simp: server_step_def step_frames split: if_splits\<close>)

lemma start_result_ok_run:
  "run (server_step env keys) ns s = Goes s' \<Longrightarrow> server_inv env keys s \<Longrightarrow> start_result_ok env (sr_start s) \<Longrightarrow>
   start_result_ok env (sr_start s')"
  by (induction ns arbitrary: s) (auto simp: then_go_Goes dest: start_result_ok_step server_inv_step)

lemma possible_result_Start:
  assumes "possible_result env r" and "setupRouter router routes \<noteq> None"
  shows "\<exists>a b ev stop_err s'.
    Start (env\<lparr>en_listen_http := a, en_listen_https := b\<rparr>) router routes ev left NewServer = Some (r, stop_err, s')"
proof -
  have v: "validateTLSConfig (env\<lparr>en_listen_http := a, en_listen_https := b\<rparr>) = validateTLSConfig env" for a b
    by (simp add: validateTLSConfig_def)
  note defs = possible_result_def Start_def createListeners_def v Let_def split_beta
  consider e where "validateTLSConfig env = Some e" "r = Some e"
    | "validateTLSConfig env = None" "r = Some ErrCreateHTTPListener"
    | "validateTLSConfig env = None" "en_TLSEnabled env" "r = Some ErrCreateHTTPSListener"
    | ev where "validateTLSConfig env = None" "r = waitForCompletion ev"
    using assms(1) by (auto simp: possible_result_def split: option.splits)
  then show ?thesis
  proof cases
    case 2
    with assms(2) show ?thesis by (intro exI [of _ False]) (auto simp: defs)
  next
    case 3
    with assms(2) show ?thesis by (intro exI [of _ True] exI [of _ False]) (auto simp: defs)
  next
    case (4 ev)
    with assms(2) show ?thesis by (intro exI [of _ True] exI [of _ ev]) (auto simp: defs)
  qed (use assms(2) in \<open>auto simp: defs\<close>)
qed

lemma run_refines_Start:
  assumes "run (server_step env keys) ms starting_server = Goes s" and "sr_start s = StReturned r"
    and "setupRouter router routes \<noteq> None"
  shows "\<exists>a b ev stop_err s'.
    Start (env\<lparr>en_listen_http := a, en_listen_https := b\<rparr>) router routes ev left NewServer = Some (r, stop_err, s')"
proof (rule possible_result_Start [OF _ assms(3)])
  have "start_result_ok env (sr_start starting_server)" by (simp add: start_result_ok_def starting_server_def)
  from start_result_ok_run [OF assms(1) server_inv_init this] assms(2) show "possible_result env r" by (simp add: start_result_ok_def)
qed

text \<open>
  If a shutdown fails the call of \<open>Stop\<close> that runs it has an error to return. But the errors are appended without a
  lock: when both shutdowns fail at once, one error may be lost (a data race of the two goroutines).
\<close>

lemma shutdown_error_reported:
  assumes "run (server_step env keys) ms starting_server = Goes s" and "sv_shut (sr_srv s w) = ShEnd True"
  shows "stop_error (sr_errs s) \<noteq> None"
  using server_invD(8) [OF server_run_inv [OF assms(1)], of w] assms(2)
  by (simp add: errors_ok_def stop_error_def split: list.split)

definition started_tls :: "server_move list" where
  "started_tls = replicate 7 (MStart True)
     @ [MServe HTTP False, MServe HTTP False, MServe HTTPS False, MServe HTTPS False]"

lemma shutdown_error_lost:
  "map_option (\<lambda>s. (sv_shut (sr_srv s HTTP), sv_shut (sr_srv s HTTPS), length (sr_errs s)))
     (goes (run (server_step tls_env True)
       (started_tls @ [MAccept HTTP, MAccept HTTPS, MCallStop, MCaller 0, MOnce, MOnce, MOnce, MExpire]
        @ replicate 4 (MShut HTTP) @ replicate 4 (MShut HTTPS) @ [MShut HTTP, MShut HTTPS]) starting_server))
   = Some (ShEnd True, ShEnd True, 1)"
  by code_simp

text \<open>
  A server that was stopped before it is started opens its listeners all the same; \<open>Start\<close> returns no error and has
  not served. If moreover the key pair does not load, nobody closes the HTTPS listener: the stop is over, and
  \<open>ServeTLS\<close> returns before it has taken the listener.
\<close>

definition stopped_first :: "server_move list" where
  "stopped_first = [MCallStop, MCaller 0, MOnce, MOnce, MOnce]
     @ replicate 3 (MShut HTTP) @ replicate 3 (MShut HTTPS) @ [MOnce, MOnce, MCaller 0]
     @ replicate 7 (MStart True) @ replicate 2 (MServe HTTP False) @ replicate 2 (MServe HTTPS False)
     @ [MWake OnDone, MStart True]"

definition server_view :: "server_run \<Rightarrow> start_pc \<times> caller_pc list \<times> (serve_pc \<times> shut_pc \<times> listener) list" where
  "server_view s = (sr_start s, sr_callers s,
     map (\<lambda>w. (sv_serve (sr_srv s w), sv_shut (sr_srv s w), sv_listener (sr_srv s w))) [HTTP, HTTPS])"

lemma start_after_stop:
  "map_option server_view (goes (run (server_step tls_env True) stopped_first starting_server))
     = Some (StReturned None, [ClReturned None], [(SvEnd, ShEnd False, Closed), (SvEnd, ShEnd False, Closed)])"
  by code_simp

lemma early_stop_leaks_listener:
  "map_option server_view (goes (run (server_step tls_env False) stopped_first starting_server))
     = Some (StReturned None, [ClReturned None], [(SvEnd, ShEnd False, Closed), (SvEnd, ShEnd False, Open)])"
  by code_simp

end
