(* ===== verification/Go_Url_String.thy ===== *)
theory Go_Url_String imports Go_Query begin

text \<open>
  The text of a URL (\<open>URL.String\<close>, \<open>URL.EscapedPath\<close>) and that parsing it gives the URL back, for the URLs the
  client builds: \<open>http\<close> or \<open>https\<close>, a host that came from a parsed URL, no user information and no fragment.
  The flag for a question mark with nothing behind it is not kept.
\<close>

definition host_plain :: "char \<Rightarrow> bool" where
  "host_plain c \<longleftrightarrow> host_byte c \<and> code c < 128"

fun escape_host :: "string \<Rightarrow> string" where
  "escape_host [] = []"
| "escape_host (c # r) =
     (if host_plain c then c # escape_host r
      else CHR 0x25 # hex_digit (code c div 16) # hex_digit (code c mod 16) # escape_host r)"

text \<open>\<open>validEncoded\<close>: whether a raw path is an encoding as it stands.\<close>

definition valid_encoded :: "string \<Rightarrow> bool" where
  "valid_encoded s \<longleftrightarrow> list_all (\<lambda>c. c \<in> set ''!$&()*+,;=:@[]'' \<or> c = CHR 0x27 \<or> c = CHR 0x25 \<or> path_byte c) s"

definition EscapedPath :: "url \<Rightarrow> string" where
  "EscapedPath u =
     (if u_RawPath u \<noteq> [] \<and> valid_encoded (u_RawPath u) \<and> unescape EncPath (u_RawPath u) = Some (u_Path u) then u_RawPath u
      else if u_Path u = ''*'' then ''*''
      else escape_path (u_Path u))"

text \<open>\<open>String\<close> for a URL with a scheme and a host, without user and fragment.\<close>

definition url_string :: "url \<Rightarrow> string" where
  "url_string u =
     (let p = EscapedPath u
      in u_Scheme u @ ''://'' @ escape_host (u_Host u)
           @ (if p \<noteq> [] \<and> hd p \<noteq> CHR ''/'' then CHR ''/'' # p else p)
           @ (if u_RawQuery u = [] then [] else CHR ''?'' # u_RawQuery u))"

definition rooted_path :: "string \<Rightarrow> string" where
  "rooted_path p = (if p \<noteq> [] \<and> hd p \<noteq> CHR ''/'' then CHR ''/'' # p else p)"

section \<open>Hosts\<close>

definition host_ok :: "string \<Rightarrow> bool" where
  "host_ok h \<longleftrightarrow> h \<noteq> [] \<and> list_all (\<lambda>c. host_byte c \<or> c = CHR 0x25) h
     \<and> (if hd h = CHR ''['' then CHR '']'' \<in> set h \<and> valid_optional_port (tl (from_last CHR '']'' h))
        else valid_optional_port (from_last CHR '':'' h))"

lemma hex_digit_facts:
  assumes "n < 16"
  shows "hex_digit n \<noteq> CHR 0x25" "is_letter (hex_digit n) \<or> is_digit (hex_digit n)"
  using hex_digit_byte [OF assms] by (auto simp: is_letter_def is_digit_def code_def)

lemma host_plain_facts: "host_plain c \<Longrightarrow> c \<noteq> CHR 0x25 \<and> c \<noteq> CHR ''/'' \<and> c \<noteq> CHR ''?'' \<and> c \<noteq> CHR ''#'' \<and> c \<noteq> CHR ''@'' \<and> 32 < code c \<and> code c < 127"
  by (auto simp: host_plain_def host_byte_def is_letter_def is_digit_def code_def)

definition escaped_host_byte :: "char \<Rightarrow> bool" where
  "escaped_host_byte c \<longleftrightarrow> host_plain c \<or> c = CHR 0x25"

lemma host_plain_alnum: "is_letter c \<or> is_digit c \<Longrightarrow> host_plain c"
  by (auto simp: host_plain_def host_byte_def is_letter_def is_digit_def)

lemma escape_host_bytes: "list_all escaped_host_byte (escape_host h)"
proof (induction h)
  case (Cons c h)
  have "escaped_host_byte (hex_digit n)" if "n < 16" for n
    using hex_digit_facts(2) [OF that] host_plain_alnum by (auto simp: escaped_host_byte_def)
  moreover have "escaped_host_byte (CHR 0x25)" "host_plain c \<Longrightarrow> escaped_host_byte c" by (simp_all add: escaped_host_byte_def)
  ultimately show ?case using Cons by (simp add: code_nibbles)
qed simp

lemma escaped_host_not:
  assumes "c \<in> set (escape_host h)"
  shows "c \<noteq> CHR ''/'' \<and> c \<noteq> CHR ''?'' \<and> c \<noteq> CHR ''#'' \<and> c \<noteq> CHR ''@'' \<and> 32 < code c \<and> code c < 127"
proof -
  have "escaped_host_byte c" using assms escape_host_bytes [of h] by (simp add: list_all_iff)
  then show ?thesis using host_plain_facts [of c] by (auto simp: escaped_host_byte_def code_def)
qed

lemma unescape_escape_host:
  "list_all (\<lambda>c. host_byte c \<or> c = CHR 0x25) h \<Longrightarrow> unescape EncHost (escape_host h) = Some h"
proof (induction h)
  case (Cons c h)
  show ?case
  proof (cases "host_plain c")
    case True
    with Cons host_plain_facts [of c] show ?thesis by (simp add: host_plain_def)
  next
    case False
    have b: "char_of (16 * (code c div 16) + code c mod 16) = c" by (simp add: code_def)
    have "8 \<le> code c div 16 \<or> hex_digit (code c div 16) = CHR ''2'' \<and> hex_digit (code c mod 16) = CHR ''5''"
    proof (cases "c = CHR 0x25")
      case True
      have "hex_digit (code (CHR 0x25) div 16) = CHR ''2'' \<and> hex_digit (code (CHR 0x25) mod 16) = CHR ''5''" by code_simp
      with True show ?thesis by simp
    next
      case f: False
      then have "128 \<le> code c" using Cons.prems False by (auto simp: host_plain_def)
      then show ?thesis by auto
    qed
    with False Cons b show ?thesis by (auto simp: unhex_hex_digit code_nibbles)
  qed
qed simp

text \<open>What is behind the last bracket or colon is the same before and after escaping.\<close>

lemma from_last_snoc: "from_last c (s @ [x]) = (if x = c then [c] else if c \<in> set s then from_last c s @ [x] else [])"
  by (auto simp: from_last_def)

lemma from_last_append: "c \<notin> set t \<Longrightarrow> from_last c (s @ t) = (if c \<in> set s then from_last c s @ t else [])"
proof (induction t rule: rev_induct)
  case (snoc x t)
  then show ?case unfolding append_assoc [symmetric] from_last_snoc by auto
qed (auto simp: from_last_def)

lemma from_last_mid: "c \<notin> set b \<Longrightarrow> from_last c (a @ c # b) = c # b"
  using from_last_append [of c b "a @ [c]"] by (simp add: from_last_snoc)

lemma from_last_split: "c \<in> set s \<Longrightarrow> \<exists>a b. s = a @ c # b \<and> c \<notin> set b \<and> from_last c s = c # b"
proof -
  assume "c \<in> set s"
  then obtain a b where s: "s = a @ c # b" "c \<notin> set b" by (meson split_list_last)
  with from_last_mid [OF s(2)] show ?thesis by blast
qed

lemma escape_host_append: "escape_host (a @ b) = escape_host a @ escape_host b"
  by (induction a) auto

lemma escape_host_plain: "list_all host_plain s \<Longrightarrow> escape_host s = s"
  by (induction s) auto

lemma escape_host_mem: "host_plain c \<Longrightarrow> \<not> is_letter c \<Longrightarrow> \<not> is_digit c \<Longrightarrow> c \<in> set (escape_host s) \<longleftrightarrow> c \<in> set s"
proof (induction s)
  case (Cons x s)
  have "c \<noteq> hex_digit n" if "n < 16" for n using hex_digit_facts [OF that] Cons.prems by auto
  with Cons host_plain_facts [OF Cons.prems(1)] code_nibbles [of x] show ?case by auto
qed simp

lemma from_last_escape_host:
  assumes "host_plain c" and "\<not> is_letter c" and "\<not> is_digit c" and "list_all host_plain (tl (from_last c s))"
  shows "from_last c (escape_host s) = from_last c s"
proof (cases "c \<in> set s")
  case True
  from from_last_split [OF this] obtain a b where s: "s = a @ c # b" "c \<notin> set b" "from_last c s = c # b" by blast
  then have b: "escape_host b = b" using assms(4) by (intro escape_host_plain) simp
  have "escape_host s = escape_host a @ c # b" using assms(1) b by (simp add: s(1) escape_host_append)
  then show ?thesis using s(2,3) by (simp add: from_last_mid)
next
  case False
  then show ?thesis using escape_host_mem [OF assms(1-3)] by (simp add: from_last_def)
qed

lemma port_plain: "valid_optional_port p \<Longrightarrow> list_all host_plain p"
  by (cases p) (auto simp: valid_optional_port_def list_all_iff host_plain_def host_byte_def code_def is_digit_def)

lemma parse_host_escape:
  assumes "host_ok h"
  shows "parse_host (escape_host h) = Some h"
proof -
  note u = unescape_escape_host [of h]
  have all: "list_all (\<lambda>c. host_byte c \<or> c = CHR 0x25) h" and ne: "h \<noteq> []" using assms by (simp_all add: host_ok_def)
  obtain x t where h: "h = x # t" using ne by (cases h) auto
  have special: "host_plain (CHR ''['')" "host_plain (CHR '']'')" "host_plain (CHR '':'')"
    "\<not> is_letter (CHR '']'')" "\<not> is_digit (CHR '']'')" "\<not> is_letter (CHR '':'')" "\<not> is_digit (CHR '':'')"
    by code_simp+
  show ?thesis
  proof (cases "x = CHR ''[''")
    case True
    then have p: "CHR '']'' \<in> set h" "valid_optional_port (tl (from_last CHR '']'' h))" using assms h by (simp_all add: host_ok_def)
    have f: "from_last CHR '']'' (escape_host h) = from_last CHR '']'' h"
      by (rule from_last_escape_host [OF special(2,4,5) port_plain [OF p(2)]])
    have "hd (escape_host h) = CHR ''[''" "escape_host h \<noteq> []" using h True special(1) by simp_all
    then show ?thesis using p f u [OF all] escape_host_mem [OF special(2,4,5)] by (simp add: parse_host_def)
  next
    case False
    then have p: "valid_optional_port (from_last CHR '':'' h)" using assms h by (simp add: host_ok_def)
    then have "list_all host_plain (tl (from_last CHR '':'' h))" using port_plain [OF p] by (cases "from_last CHR '':'' h") auto
    then have f: "from_last CHR '':'' (escape_host h) = from_last CHR '':'' h"
      by (rule from_last_escape_host [OF special(3,6,7)])
    have "hd (escape_host h) \<noteq> CHR ''[''" "escape_host h \<noteq> []" using h False by auto
    then show ?thesis using p f u [OF all] by (simp add: parse_host_def)
  qed
qed

section \<open>Hosts of parsed URLs\<close>

lemma unescape_host_bytes: "unescape EncHost s = Some h \<Longrightarrow> list_all (\<lambda>c. host_byte c \<or> c = CHR 0x25) h"
proof (induction EncHost s arbitrary: h rule: unescape.induct)
  case (2 c r)
  show ?case
  proof (cases "c = CHR 0x25")
    case False
    with 2 show ?thesis by (auto split: if_splits)
  next
    case True
    then obtain x l r' where r: "r = x # l # r'" using 2(3) by (auto split: list.splits)
    obtain a b where ab: "unhex x = Some a" "unhex l = Some b" using 2(3) True r by (auto split: option.splits)
    have ok: "8 \<le> a \<or> x = CHR ''2'' \<and> l = CHR ''5''" using 2(3) True r ab by (auto split: if_splits)
    obtain t where t: "unescape EncHost r' = Some t" "h = char_of (16 * a + b) # t"
      using 2(3) True r ab ok by (auto split: if_splits)
    have "b < 16" "a < 16" using ab by (auto simp: unhex_def is_digit_def split: if_splits)
    have "host_byte (char_of (16 * a + b)) \<or> char_of (16 * a + b) = CHR 0x25"
    proof (cases "8 \<le> a")
      case True
      then have "code (char_of (16 * a + b)) = 16 * a + b" using \<open>a < 16\<close> \<open>b < 16\<close> by (simp add: code_def)
      with True show ?thesis by (simp add: host_byte_def)
    next
      case False
      have "unhex (CHR ''2'') = Some 2" "unhex (CHR ''5'') = Some 5" by code_simp+
      with False ok ab have "a = 2" "b = 5" by auto
      moreover have "char_of (16 * 2 + 5 :: nat) = CHR 0x25" by code_simp
      ultimately show ?thesis by simp
    qed
    moreover have "list_all (\<lambda>c. host_byte c \<or> c = CHR 0x25) t"
      using 2(1) [OF True r refl refl ab _ t(1)] ok by auto
    ultimately show ?thesis using t(2) by simp
  qed
qed simp

lemma unescape_split:
  assumes "unescape EncHost (a @ c # b) = Some h" and "unhex c = None" and "c \<noteq> CHR 0x25"
  shows "\<exists>ha hb. unescape EncHost a = Some ha \<and> unescape EncHost b = Some hb \<and> h = ha @ c # hb"
  using assms(1)
proof (induction EncHost a arbitrary: h rule: unescape.induct)
  case 1
  with assms(3) show ?case by (auto split: if_splits)
next
  case (2 x r)
  show ?case
  proof (cases "x = CHR 0x25")
    case False
    with 2(3) have hb: "host_byte x" by (auto split: if_splits)
    with False 2(3) obtain t where "unescape EncHost (r @ c # b) = Some t" "h = x # t" by auto
    with 2(2) [OF False] hb False show ?thesis by fastforce
  next
    case True
    show ?thesis
    proof (cases r)
      case Nil
      with True 2(3) assms(2) show ?thesis by (cases b) auto
    next
      case (Cons y r1)
      show ?thesis
      proof (cases r1)
        case Nil
        with True Cons 2(3) assms(2) show ?thesis by (auto split: option.splits)
      next
        case (Cons z r2)
        note r = \<open>r = y # r1\<close> this
        obtain m n where mn: "unhex y = Some m" "unhex z = Some n" using 2(3) True r by (auto split: option.splits)
        have ok: "\<not> (EncHost = EncHost \<and> m < 8 \<and> \<not> (y = CHR ''2'' \<and> z = CHR ''5''))"
          using 2(3) True r mn by (auto split: if_splits)
        then obtain t where t: "unescape EncHost (r2 @ c # b) = Some t" "h = char_of (16 * m + n) # t"
          using 2(3) True r mn by auto
        from 2(1) [OF True r(1) r(2) refl mn ok t(1)] obtain ha hb
          where "unescape EncHost r2 = Some ha" "unescape EncHost b = Some hb" "t = ha @ c # hb" by blast
        with True r mn ok t(2) show ?thesis by auto
      qed
    qed
  qed
qed

lemma unescape_plain: "list_all host_plain s \<Longrightarrow> unescape EncHost s = Some s"
  using unescape_escape_host [of s] by (simp add: escape_host_plain) (simp add: list_all_iff host_plain_def)

lemma unescape_last:
  assumes "unescape EncHost s = Some h" and "c \<in> set s" and "unhex c = None" and "c \<noteq> CHR 0x25"
    and "list_all host_plain (tl (from_last c s))"
  shows "c \<in> set h \<and> from_last c h = from_last c s"
proof -
  from from_last_split [OF assms(2)] obtain a b where s: "s = a @ c # b" "c \<notin> set b" "from_last c s = c # b" by blast
  then have "unescape EncHost b = Some b" using assms(5) by (intro unescape_plain) simp
  then obtain ha where "h = ha @ c # b" using unescape_split [OF assms(1) [unfolded s(1)] assms(3,4)] by auto
  with s show ?thesis by (simp add: from_last_mid)
qed

lemma unescape_no_new:
  assumes "unescape EncHost s = Some h" and "c \<in> set h" and "code c < 128" and "c \<noteq> CHR 0x25"
  shows "c \<in> set s"
  using assms(1,2)
proof (induction EncHost s arbitrary: h rule: unescape.induct)
  case (2 x r)
  show ?case
  proof (cases "x = CHR 0x25")
    case False
    with 2 show ?thesis by (auto split: if_splits)
  next
    case True
    then obtain y z r2 where r: "r = y # z # r2" using 2(3) by (auto split: list.splits)
    obtain m n where mn: "unhex y = Some m" "unhex z = Some n" using 2(3) True r by (auto split: option.splits)
    have ok: "\<not> (EncHost = EncHost \<and> m < 8 \<and> \<not> (y = CHR ''2'' \<and> z = CHR ''5''))"
      using 2(3) True r mn by (auto split: if_splits)
    then obtain t where t: "unescape EncHost r2 = Some t" "h = char_of (16 * m + n) # t"
      using 2(3) True r mn by auto
    have "c \<noteq> char_of (16 * m + n)"
    proof
      assume c: "c = char_of (16 * m + n)"
      have "m < 16" "n < 16" using mn by (auto simp: unhex_def is_digit_def split: if_splits)
      then have "code c = 16 * m + n" using c by (simp add: code_def)
      with assms(3) have "m < 8" by auto
      with ok have "y = CHR ''2''" "z = CHR ''5''" by auto
      moreover have "unhex (CHR ''2'') = Some 2" "unhex (CHR ''5'') = Some 5" "char_of (16 * 2 + 5 :: nat) = CHR 0x25"
        by code_simp+
      ultimately show False using mn c assms(4) by simp
    qed
    with 2(1) [OF True r refl refl mn ok t(1)] 2(4) t(2) r show ?thesis by auto
  qed
qed simp

lemma parse_host_ok:
  assumes "parse_host s = Some h" and "h \<noteq> []"
  shows "host_ok h"
proof -
  have un: "unescape EncHost s = Some h" using assms(1) by (auto simp: parse_host_def split: if_splits)
  have facts: "unhex (CHR '']'') = None" "unhex (CHR '':'') = None" "code (CHR '':'') < 128" "code (CHR ''['') < 128"
    by code_simp+
  obtain x t where s: "s = x # t" using un assms(2) by (cases s) auto
  have all: "list_all (\<lambda>c. host_byte c \<or> c = CHR 0x25) h" by (rule unescape_host_bytes [OF un])
  show ?thesis
  proof (cases "x = CHR ''[''")
    case True
    then have p: "CHR '']'' \<in> set s" "valid_optional_port (tl (from_last CHR '']'' s))"
      using assms(1) s by (auto simp: parse_host_def split: if_splits)
    from unescape_last [OF un p(1) facts(1) _ port_plain [OF p(2)]] p(2)
    have "CHR '']'' \<in> set h \<and> valid_optional_port (tl (from_last CHR '']'' h))" by simp
    moreover have "hd h = CHR ''[''" using un s True by (auto split: if_splits)
    ultimately show ?thesis using all assms(2) by (simp add: host_ok_def)
  next
    case False
    then have p: "valid_optional_port (from_last CHR '':'' s)"
      using assms(1) s by (auto simp: parse_host_def split: if_splits)
    then have tl: "list_all host_plain (tl (from_last CHR '':'' s))" using port_plain [OF p] by (cases "from_last CHR '':'' s") auto
    have v: "valid_optional_port (from_last CHR '':'' h)"
    proof (cases "CHR '':'' \<in> set s")
      case True
      from unescape_last [OF un True facts(2) _ tl] p show ?thesis by simp
    next
      case False
      then have "CHR '':'' \<notin> set h" using unescape_no_new [OF un _ facts(3)] by auto
      then show ?thesis by (simp add: from_last_def valid_optional_port_def)
    qed
    have "hd h \<noteq> CHR ''[''"
    proof
      assume "hd h = CHR ''[''"
      then have "x = CHR 0x25" using un s False assms(2) by (auto split: if_splits)
      obtain y z r2 where r: "t = y # z # r2" using un s \<open>x = CHR 0x25\<close> by (auto split: list.splits)
      obtain m n where mn: "unhex y = Some m" "unhex z = Some n" using un s \<open>x = CHR 0x25\<close> r by (auto split: option.splits)
      have ok: "\<not> (m < 8 \<and> \<not> (y = CHR ''2'' \<and> z = CHR ''5''))"
        using un s \<open>x = CHR 0x25\<close> r mn by (auto split: if_splits)
      have b: "m < 16" "n < 16" using mn by (auto simp: unhex_def is_digit_def split: if_splits)
      have c: "char_of (16 * m + n) = CHR ''[''" using un s \<open>x = CHR 0x25\<close> r mn ok \<open>hd h = CHR ''[''\<close> by (auto split: if_splits)
      moreover have "code (char_of (16 * m + n)) = 16 * m + n" using b by (simp add: code_def)
      moreover have "code (CHR ''['') = 91" by code_simp
      ultimately have "16 * m + n = 91" by simp
      then have "m = 5" using b by auto
      with ok have "y = CHR ''2''" by auto
      moreover have "unhex (CHR ''2'') = Some 2" by code_simp
      ultimately show False using mn \<open>m = 5\<close> by simp
    qed
    with all assms(2) v show ?thesis by (simp add: host_ok_def)
  qed
qed

section \<open>The URL comes back\<close>

definition path_char :: "char \<Rightarrow> bool" where
  "path_char c \<longleftrightarrow> 32 < code c \<and> code c < 127 \<and> c \<noteq> CHR ''?'' \<and> c \<noteq> CHR ''#''"

lemma path_byte_char: "path_byte c \<Longrightarrow> path_char c"
  by (auto simp: path_byte_def path_char_def is_letter_def is_digit_def code_def)

lemma hex_path_char: "n < 16 \<Longrightarrow> path_char (hex_digit n)"
  using hex_digit_byte [of n] by (intro path_byte_char) (auto simp: path_byte_def)

lemma escape_path_chars: "list_all path_char (escape_path p)"
proof (induction p)
  case (Cons c p)
  moreover have "path_char (CHR 0x25)" by code_simp
  ultimately show ?case by (simp add: path_byte_char hex_path_char code_nibbles)
qed simp

lemma valid_encoded_chars: "valid_encoded s \<Longrightarrow> list_all path_char s"
proof -
  have "\<forall>c \<in> set ''!$&()*+,;=:@[]''. path_char c" "path_char (CHR 0x27)" "path_char (CHR 0x25)" by code_simp+
  moreover assume "valid_encoded s"
  ultimately show ?thesis unfolding valid_encoded_def list_all_iff using path_byte_char by blast
qed

definition url_ok :: "url \<Rightarrow> bool" where
  "url_ok u \<longleftrightarrow> (u_Scheme u = ''http'' \<or> u_Scheme u = ''https'') \<and> host_ok (u_Host u) \<and> u_User u = None
     \<and> u_Fragment u = [] \<and> u_Opaque u = [] \<and> (u_RawPath u = [] \<or> hd (u_RawPath u) = CHR ''/'')"

lemma unescape_slash: "unescape EncPath (CHR ''/'' # p) = map_option (\<lambda>q. CHR ''/'' # q) (unescape EncPath p)"
  by simp

lemma unescape_Nil: "unescape m s = Some [] \<Longrightarrow> s = []"
  by (cases s) (auto split: list.splits option.splits if_splits)

lemma EscapedPath_facts:
  assumes "url_ok u"
  shows "list_all path_char (EscapedPath u)" and "unescape EncPath (rooted_path (EscapedPath u)) = Some (rooted_path (u_Path u))"
proof -
  have star: "list_all path_char ''*''" "unescape EncPath ''*'' = Some ''*''" by code_simp+
  show "list_all path_char (EscapedPath u)"
    using star by (auto simp: EscapedPath_def escape_path_chars intro: valid_encoded_chars)
  have "unescape EncPath (EscapedPath u) = Some (u_Path u)"
    using star(2) by (auto simp: EscapedPath_def unescape_escape)
  moreover have "EscapedPath u = [] \<longleftrightarrow> u_Path u = []"
    using calculation unescape_Nil [of EncPath "EscapedPath u"] by (cases "EscapedPath u") auto
  moreover have "hd (EscapedPath u) = CHR ''/'' \<longleftrightarrow> hd (u_Path u) = CHR ''/''" if "u_Path u \<noteq> []"
  proof (cases "u_RawPath u \<noteq> [] \<and> valid_encoded (u_RawPath u) \<and> unescape EncPath (u_RawPath u) = Some (u_Path u)")
    case True
    then obtain r where r: "u_RawPath u = CHR ''/'' # r" using assms by (cases "u_RawPath u") (auto simp: url_ok_def)
    with True have "hd (u_Path u) = CHR ''/''"
      by (cases "u_Path u") (auto simp: unescape_slash simp del: unescape.simps)
    with True r show ?thesis by (simp add: EscapedPath_def)
  next
    case False
    have b: "path_byte (CHR ''/'')" by code_simp
    have e: "EscapedPath u = (if u_Path u = ''*'' then ''*'' else escape_path (u_Path u))"
      unfolding EscapedPath_def using False by (rule if_not_P)
    show ?thesis using that b unfolding e by (cases "u_Path u") auto
  qed
  ultimately show "unescape EncPath (rooted_path (EscapedPath u)) = Some (rooted_path (u_Path u))"
    by (auto simp: rooted_path_def unescape_slash simp del: unescape.simps)
qed

lemma no_cut: "c \<notin> set s \<Longrightarrow> str_cut c s = (s, [], False)"
  by (simp add: str_cut_def)

lemma takeWhile_dropWhile_slash:
  assumes "CHR ''/'' \<notin> set h" and "p = [] \<or> hd p = CHR ''/''"
  shows "takeWhile (\<lambda>c. c \<noteq> CHR ''/'') (h @ p) = h" and "dropWhile (\<lambda>c. c \<noteq> CHR ''/'') (h @ p) = p"
  using assms by (induction h) (cases p; auto)+

lemma url_string_parse:
  assumes "url_ok u" and "list_all (\<lambda>c. encoded_byte c \<or> c = amp \<or> c = equals) (u_RawQuery u)"
  shows "\<exists>raw. url_parse (url_string u) = Some (u\<lparr>u_Path := rooted_path (u_Path u), u_RawPath := raw\<rparr>)"
proof -
  let ?p = "rooted_path (EscapedPath u)" and ?h = "escape_host (u_Host u)"
  let ?q = "if u_RawQuery u = [] then [] else CHR ''?'' # u_RawQuery u"
  let ?rest = "''//'' @ ?h @ ?p"
  have s: "url_string u = u_Scheme u @ CHR '':'' # ?rest @ ?q" by (simp add: url_string_def rooted_path_def Let_def)
  have query: "32 < code c \<and> code c < 127 \<and> c \<noteq> CHR ''#''" if "c \<in> set ?q" for c
  proof (cases "c = CHR ''?''")
    case False
    then have "encoded_byte c \<or> c = amp \<or> c = equals" using that assms(2) by (auto simp: list_all_iff split: if_splits)
    then show ?thesis using encoded_byte_not [of c] by (auto simp: amp_def equals_def code_def)
  qed (simp add: code_def)
  have path: "path_char c" if "c \<in> set ?p" for c
  proof -
    have "path_char (CHR ''/'')" by code_simp
    then show ?thesis using that EscapedPath_facts(1) [OF assms(1)] by (auto simp: rooted_path_def list_all_iff split: if_splits)
  qed
  have rest: "32 < code c \<and> code c < 127 \<and> c \<noteq> CHR ''#'' \<and> c \<noteq> CHR ''?''" if "c \<in> set ?rest" for c
    using that path [of c] escaped_host_not [of c "u_Host u"] by (auto simp: path_char_def code_def)
  have sch: "u_Scheme u = ''http'' \<or> u_Scheme u = ''https''" using assms(1) by (simp add: url_ok_def)
  have scheme: "32 < code c \<and> code c < 127 \<and> c \<noteq> CHR ''#''" if "c \<in> set (u_Scheme u)" for c
    using that sch by (auto simp: code_def)
  have all: "32 < code c \<and> code c < 127 \<and> c \<noteq> CHR ''#''" if "c \<in> set (url_string u)" for c
  proof -
    have colon: "32 < code (CHR '':'') \<and> code (CHR '':'') < 127 \<and> CHR '':'' \<noteq> CHR ''#''" by code_simp
    from that consider "c \<in> set (u_Scheme u)" | "c = CHR '':''" | "c \<in> set ?rest" | "c \<in> set ?q"
      unfolding s set_append list.set by blast
    then show ?thesis using scheme [of c] colon rest [of c] query [of c] by cases blast+
  qed
  have "CHR ''#'' \<notin> set (url_string u)" using all by blast
  note cut = no_cut [OF this]
  have "\<not> has_ctl (url_string u)"
    unfolding has_ctl_def list_ex_iff using all by fastforce
  moreover have "url_string u \<noteq> ''*''" using s sch by auto
  moreover have gs: "get_scheme (url_string u) = Some (u_Scheme u, ?rest @ ?q)"
  proof -
    have "\<not> scheme_byte (CHR '':'')" "list_all scheme_byte ''https''" "list_all scheme_byte ''http''" "is_letter (CHR ''h'')"
      by code_simp+
    with sch show ?thesis unfolding s get_scheme_def by (auto simp: Let_def)
  qed
  moreover have "split_query (?rest @ ?q) = (?rest, u_RawQuery u)"
  proof (cases "u_RawQuery u = []")
    case True
    have "CHR ''?'' \<notin> set ?rest" using rest by blast
    from no_cut [OF this] True show ?thesis by (simp add: split_query_def)
  next
    case False
    have "CHR ''?'' \<notin> set ?rest" using rest by blast
    from str_cut_append [OF this, of "u_RawQuery u"] False show ?thesis by (simp add: split_query_def)
  qed
  moreover have "to_lower (u_Scheme u) = u_Scheme u"
    using sch by (elim disjE) (simp_all only:, code_simp+)
  moreover have slash: "CHR ''/'' \<notin> set ?h" "CHR ''@'' \<notin> set ?h" using escaped_host_not [of _ "u_Host u"] by blast+
  moreover have "?p = [] \<or> hd ?p = CHR ''/''" by (simp add: rooted_path_def)
  note split = takeWhile_dropWhile_slash [OF slash(1) this]
  have auth: "parse_authority ?h = Some (None, u_Host u)"
    using slash(2) parse_host_escape [of "u_Host u"] assms(1) by (simp add: parse_authority_def url_ok_def)
  have "parse_no_frag (url_string u) = set_path ?p (empty_url\<lparr>u_Scheme := u_Scheme u, u_RawQuery := u_RawQuery u, u_User := None, u_Host := u_Host u\<rparr>)"
    using calculation sch auth split unfolding parse_no_frag_def by (auto simp: Let_def has_prefix_def)
  moreover have "set_path ?p (empty_url\<lparr>u_Scheme := u_Scheme u, u_RawQuery := u_RawQuery u, u_User := None, u_Host := u_Host u\<rparr>)
      = Some (u\<lparr>u_Path := rooted_path (u_Path u),
                 u_RawPath := (if escape_path (rooted_path (u_Path u)) = ?p then [] else ?p)\<rparr>)"
    using EscapedPath_facts(2) [OF assms(1)] assms(1)
    by (cases u) (simp add: set_path_def empty_url_def url_ok_def del: unescape.simps)
  ultimately have "parse_no_frag (url_string u) = Some (u\<lparr>u_Path := rooted_path (u_Path u),
      u_RawPath := (if escape_path (rooted_path (u_Path u)) = ?p then [] else ?p)\<rparr>)"
    by simp
  then show ?thesis unfolding url_parse_def cut by (intro exI) simp
qed

lemma set_path_fields:
  assumes "set_path p u0 = Some u"
  shows "u_RawPath u = [] \<or> u_RawPath u = p" and "u_Host u = u_Host u0" and "u_Opaque u = u_Opaque u0"
  using assms by (auto simp: set_path_def split: option.splits)

lemma parsed_url_ok:
  assumes "url_parse s = Some u" and "u_Scheme u = ''http'' \<or> u_Scheme u = ''https''" and "u_Host u \<noteq> []"
    and "u_User u = None" and "u_Fragment u = []"
  shows "url_ok u"
proof -
  obtain v where v: "parse_no_frag (fst (str_cut CHR ''#'' s)) = Some v" "u = v\<lparr>u_Fragment := u_Fragment u\<rparr>"
    using assms(1) by (auto simp: url_parse_def split: prod.splits option.splits if_splits)
  have vh: "u_Host v \<noteq> []" using assms(3) v(2) by (metis url.select_convs(4) url.surjective url.update_convs(8))
  have "host_ok (u_Host v) \<and> u_Opaque v = [] \<and> (u_RawPath v = [] \<or> hd (u_RawPath v) = CHR ''/'')"
  proof -
    let ?t = "fst (str_cut CHR ''#'' s)"
    obtain auth path u0 usr host where a: "parse_authority auth = Some (usr, host)" "set_path path u0 = Some v"
      "u_Host u0 = host" "u_Opaque u0 = []" "path = [] \<or> hd path = CHR ''/''"
    proof -
      obtain sch rest where g: "get_scheme ?t = Some (sch, rest)" "\<not> has_ctl ?t" "?t \<noteq> ''*''"
        using v(1) vh by (auto simp: parse_no_frag_def empty_url_def split: if_splits option.splits)
      let ?r = "fst (split_query rest)"
      let ?auth = "takeWhile (\<lambda>c. c \<noteq> CHR ''/'') (drop 2 ?r)" and ?path = "dropWhile (\<lambda>c. c \<noteq> CHR ''/'') (drop 2 ?r)"
      let ?u = "empty_url\<lparr>u_Scheme := to_lower sch, u_RawQuery := snd (split_query rest)\<rparr>"
      have "?path = [] \<or> hd ?path = CHR ''/''" using hd_dropWhile [of "\<lambda>c. c \<noteq> CHR ''/''" "drop 2 ?r"] by auto
      moreover have "u_Host w = []" if "set_path ?r ?u = Some w" for w
        using set_path_fields(2) [OF that] by (simp add: empty_url_def)
      ultimately show thesis
        using v(1) vh g that [of ?auth _ _ ?path]
        by (auto simp: parse_no_frag_def Let_def empty_url_def split: if_splits option.splits)
    qed
    have h: "u_Host v = host" "u_Opaque v = []" using set_path_fields(2,3) [OF a(2)] a(3,4) by simp_all
    have "\<exists>s'. parse_host s' = Some host"
      using a(1) by (auto simp: parse_authority_def Let_def split: if_splits option.splits)
    then have "host_ok host" using parse_host_ok vh h(1) by auto
    moreover have "u_RawPath v = [] \<or> hd (u_RawPath v) = CHR ''/''" using set_path_fields(1) [OF a(2)] a(5) by auto
    ultimately show ?thesis using h by simp
  qed
  then show ?thesis using assms(2,4,5) unfolding url_ok_def by (subst (1 2 3 4) v(2)) simp
qed

lemma parsed_path_rooted:
  assumes "url_parse s = Some u" and "u_Host u \<noteq> []"
  shows "u_Path u = [] \<or> hd (u_Path u) = CHR ''/''"
proof -
  obtain v where v: "parse_no_frag (fst (str_cut CHR ''#'' s)) = Some v" "u_Host v = u_Host u" "u_Path v = u_Path u"
    using assms(1) by (auto simp: url_parse_def split: prod.splits option.splits if_splits)
  let ?t = "fst (str_cut CHR ''#'' s)"
  have slash: "u_Path w = [] \<or> hd (u_Path w) = CHR ''/''" if "set_path (dropWhile (\<lambda>c. c \<noteq> CHR ''/'') p) u0 = Some w" for p u0 w
  proof (cases "dropWhile (\<lambda>c. c \<noteq> CHR ''/'') p")
    case Nil
    from that [unfolded Nil] show ?thesis by (simp add: set_path_def) auto
  next
    case (Cons c r)
    moreover have "c = CHR ''/''" using Cons hd_dropWhile [of "\<lambda>c. c \<noteq> CHR ''/''" p] by auto
    ultimately have "set_path (CHR ''/'' # r) u0 = Some w" using that by simp
    then obtain q where "u_Path w = CHR ''/'' # q"
      by (auto simp: set_path_def unescape_slash simp del: unescape.simps split: option.splits)
    then show ?thesis by simp
  qed
  obtain sch rest where g: "get_scheme ?t = Some (sch, rest)" "\<not> has_ctl ?t" "?t \<noteq> ''*''"
    using v(1,2) assms(2) by (auto simp: parse_no_frag_def empty_url_def split: if_splits option.splits)
  have "u_Host w = []" if "set_path (fst (split_query rest)) (empty_url\<lparr>u_Scheme := x, u_RawQuery := y\<rparr>) = Some w" for w x y
    using set_path_fields(2) [OF that] by (simp add: empty_url_def)
  then show ?thesis
    using v g assms(2) slash by (fastforce simp: parse_no_frag_def Let_def empty_url_def split: if_splits option.splits)
qed

end
