(* ===== verification/Klhayyent_Request.thy ===== *)
theory Klhayyent_Request imports Go_Url_String Go_Path Request_Utils Go_Json Go_Net begin

text \<open>
  The HTTP client, first half (\<open>klhayyent/request_options.go\<close>, \<open>errors.go\<close> and the part of \<open>client.go\<close> up to the
  request that is sent): base URL and target, headers, query and body. A failure is \<open>Inl\<close> of the error the
  source wraps; of an error of the standard library only the kind is kept. \<open>render\<close> is the text of a JSON
  value. A nil option is \<open>None\<close>. The order in which a Go map is visited is that of its list.
\<close>

section \<open>Errors\<close>

record kl_response =
  kr_StatusCode :: int
  kr_Header :: header
  kr_Body :: string

datatype status_error =
    ErrBadRequest | ErrUnauthorized | ErrForbidden | ErrNotFound | ErrMethodNotAllowed | ErrConflict | ErrGone
  | ErrUnprocessableEntity | ErrTooManyRequests | ErrInternalServer | ErrBadGateway | ErrServiceUnavailable
  | ErrGatewayTimeout | ErrUnexpectedResponseStatus

datatype client_error =
    ErrInvalidBaseURL
  | ErrInvalidRequestTarget
  | ErrInvalidOption
  | ErrResponseBodyTooLarge
  | ErrEncodeBody
  | ErrCreateRequest
  | ErrTransport go_error
  | ErrReadBody
  | ErrWriteBody
  | ErrDecodeBody
  | ErrCookieJar
  | ErrPolicy string
  | HTTPError kl_response error_response status_error

type_synonym 'a result = "client_error + 'a"

section \<open>The base URL\<close>

definition parseBaseURL :: "string \<Rightarrow> url result" where
  "parseBaseURL rawBaseURL =
     (case url_parse rawBaseURL of
        None \<Rightarrow> Inl ErrInvalidBaseURL
      | Some u \<Rightarrow>
          if u_Scheme u \<noteq> ''http'' \<and> u_Scheme u \<noteq> ''https'' then Inl ErrInvalidBaseURL
          else if u_Host u = [] \<or> u_User u \<noteq> None \<or> u_RawQuery u \<noteq> [] \<or> u_Fragment u \<noteq> [] then Inl ErrInvalidBaseURL
          else Inr u)"

section \<open>The target\<close>

text \<open>\<open>unicode.IsControl\<close> on the runes of a text: the C0 codes, DEL, and the C1 codes, two bytes in UTF-8.\<close>

fun has_control :: "string \<Rightarrow> bool" where
  "has_control [] = False"
| "has_control (c # r) =
     (code c < 32 \<or> code c = 127
      \<or> (code c = 194 \<and> (case r of d # _ \<Rightarrow> 128 \<le> code d \<and> code d \<le> 159 | [] \<Rightarrow> False))
      \<or> has_control r)"

definition hasUnsafeTargetText :: "string \<Rightarrow> bool" where
  "hasUnsafeTargetText target \<longleftrightarrow> has_prefix target ''//'' \<or> CHR 0x5C \<in> set target \<or> has_control target"

fun contains :: "string \<Rightarrow> string \<Rightarrow> bool" where
  "contains [] p = (p = [])"
| "contains (c # s) p = (has_prefix (c # s) p \<or> contains s p)"

fun traversal_loop :: "nat \<Rightarrow> string \<Rightarrow> bool" where
  "traversal_loop 0 decodedPath = contains (to_lower decodedPath) (CHR 0x25 # ''2e'')"
| "traversal_loop (Suc n) decodedPath =
     (case PathUnescape decodedPath of
        None \<Rightarrow> True
      | Some unescapedPath \<Rightarrow>
          if dotdot \<in> set (split_on slash unescapedPath) then True
          else if unescapedPath = decodedPath then False
          else traversal_loop n unescapedPath)"

definition hasTraversalSegment :: "string \<Rightarrow> bool" where
  "hasTraversalSegment escapedPath = traversal_loop 3 escapedPath"

definition isInvalidParsedTarget :: "url \<Rightarrow> bool" where
  "isInvalidParsedTarget target \<longleftrightarrow>
     IsAbs target \<or> u_Host target \<noteq> [] \<or> u_User target \<noteq> None \<or> u_Fragment target \<noteq> []
     \<or> hasTraversalSegment (EscapedPath target)"

definition trim_slash :: "string \<Rightarrow> string" where
  "trim_slash p = (if has_prefix p [slash] then tl p else p)"

definition buildRequestURL :: "url \<Rightarrow> string \<Rightarrow> url result" where
  "buildRequestURL baseURL target =
     (if hasUnsafeTargetText target then Inl ErrInvalidRequestTarget
      else case url_parse target of
        None \<Rightarrow> Inl ErrInvalidRequestTarget
      | Some parsedTarget \<Rightarrow>
          if isInvalidParsedTarget parsedTarget then Inl ErrInvalidRequestTarget
          else
            let requestURL = (if u_Path parsedTarget \<noteq> []
                  then baseURL\<lparr>u_Path := path_join [u_Path baseURL, trim_slash (u_Path parsedTarget)], u_RawPath := []\<rparr>
                  else baseURL)
            in Inr (requestURL\<lparr>u_RawQuery := u_RawQuery parsedTarget\<rparr>))"

section \<open>Options of a request\<close>

record request_config =
  rc_headers :: header
  rc_query :: url_values

type_synonym request_option = "request_config \<Rightarrow> request_config result"

definition isValidHeaderName :: "string \<Rightarrow> bool" where
  "isValidHeaderName name \<longleftrightarrow> name \<noteq> [] \<and>
     list_all (\<lambda>c. is_letter c \<or> is_digit c \<or> c \<in> set (CHR 0x27 # CHR 0x25 # CHR 0x60 # ''!#$&*+-.^_|~'')) name"

definition validateHeader :: "string \<Rightarrow> string \<Rightarrow> client_error option" where
  "validateHeader name value =
     (if \<not> isValidHeaderName name then Some ErrInvalidOption
      else if CHR 0x0D \<in> set value \<or> CHR 0x0A \<in> set value then Some ErrInvalidOption
      else None)"

definition WithHeader :: "string \<Rightarrow> string \<Rightarrow> request_option" where
  "WithHeader name value config =
     (case validateHeader name value of
        Some err \<Rightarrow> Inl err
      | None \<Rightarrow> Inr (config\<lparr>rc_headers := hdr_set (rc_headers config) name value\<rparr>))"

fun first_error :: "'a list \<Rightarrow> ('a \<Rightarrow> client_error option) \<Rightarrow> client_error option" where
  "first_error [] f = None"
| "first_error (x # xs) f = (case f x of Some err \<Rightarrow> Some err | None \<Rightarrow> first_error xs f)"

fun set_all_headers :: "header \<Rightarrow> request_config \<Rightarrow> request_config result" where
  "set_all_headers [] config = Inr config"
| "set_all_headers ((name, values) # rest) config =
     (case first_error values (validateHeader name) of
        Some err \<Rightarrow> Inl err
      | None \<Rightarrow>
          set_all_headers rest
            (config\<lparr>rc_headers := foldl (\<lambda>h value. hdr_add h name value) (hdr_del (rc_headers config) name) values\<rparr>))"

definition WithHeaders :: "header \<Rightarrow> request_option" where
  "WithHeaders headers config = set_all_headers headers config"

definition WithBearerToken :: "string \<Rightarrow> request_option" where
  "WithBearerToken token = WithHeader HeaderNameAuthorization (AuthSchemeBearer @ token)"

definition WithBasicAuth :: "string \<Rightarrow> string \<Rightarrow> request_option" where
  "WithBasicAuth username password =
     WithHeader HeaderNameAuthorization (AuthSchemeBasic @ b64_encode (username @ '':'' @ password))"

definition WithQuery :: "string \<Rightarrow> string \<Rightarrow> request_option" where
  "WithQuery key value config = Inr (config\<lparr>rc_query := values_set (rc_query config) key value\<rparr>)"

definition add_all_values :: "url_values \<Rightarrow> url_values \<Rightarrow> url_values" where
  "add_all_values q values = foldl (\<lambda>q (key, entries). foldl (\<lambda>q entry. values_add q key entry) q entries) q values"

definition WithQueryValues :: "url_values \<Rightarrow> request_option" where
  "WithQueryValues values config = Inr (config\<lparr>rc_query := add_all_values (rc_query config) values\<rparr>)"

fun apply_fallible :: "('c \<Rightarrow> 'c result) option list \<Rightarrow> 'c \<Rightarrow> 'c result" where
  "apply_fallible [] config = Inr config"
| "apply_fallible (None # opts) config = apply_fallible opts config"
| "apply_fallible (Some opt # opts) config =
     (case opt config of Inl err \<Rightarrow> Inl err | Inr config' \<Rightarrow> apply_fallible opts config')"

definition buildRequestConfig :: "header \<Rightarrow> request_option option list \<Rightarrow> request_config result" where
  "buildRequestConfig defaultHeaders options = apply_fallible options \<lparr>rc_headers = defaultHeaders, rc_query = []\<rparr>"

definition mergeQuery :: "url_values \<Rightarrow> url_values \<Rightarrow> url_values" where
  "mergeQuery baseValues requestValues = add_all_values baseValues requestValues"

section \<open>The body\<close>

text \<open>\<open>JSONBody None\<close> is a value the encoder refuses.\<close>

datatype request_body =
    NoBody
  | ReaderBody string
  | BytesBody string
  | StringBody string
  | ValuesBody url_values
  | JSONBody "json option"

definition ContentTypeOctetStream :: string where
  "ContentTypeOctetStream = ''application/octet-stream''"

definition ContentTypeTextPlain :: string where
  "ContentTypeTextPlain = ''text/plain''"

definition encodeRequestBody :: "(json \<Rightarrow> string) \<Rightarrow> request_body \<Rightarrow> (string option \<times> string) result" where
  "encodeRequestBody render requestBody =
     (case requestBody of
        NoBody \<Rightarrow> Inr (None, [])
      | ReaderBody body \<Rightarrow> Inr (Some body, [])
      | BytesBody body \<Rightarrow> Inr (Some body, ContentTypeOctetStream)
      | StringBody body \<Rightarrow> Inr (Some body, ContentTypeTextPlain)
      | ValuesBody body \<Rightarrow> Inr (Some (values_Encode body), ContentTypeApplicationFormURLEncoded)
      | JSONBody None \<Rightarrow> Inl ErrEncodeBody
      | JSONBody (Some j) \<Rightarrow> Inr (Some (render j), ContentTypeJSON))"

section \<open>The request\<close>

record client_request =
  cr_Method :: string
  cr_URL :: url
  cr_Header :: header
  cr_Body :: "string option"

definition valid_method :: "string \<Rightarrow> bool" where
  "valid_method method \<longleftrightarrow> method \<noteq> [] \<and> list_all token_byte method"

text \<open>\<open>http.NewRequestWithContext\<close> takes the text of the URL and parses it again.\<close>

definition NewRequest :: "string \<Rightarrow> string \<Rightarrow> string option \<Rightarrow> client_request result" where
  "NewRequest method rawURL body =
     (if \<not> valid_method method then Inl ErrCreateRequest
      else case url_parse rawURL of
             None \<Rightarrow> Inl ErrCreateRequest
           | Some u \<Rightarrow> Inr \<lparr>cr_Method = method, cr_URL = u, cr_Header = [], cr_Body = body\<rparr>)"

text \<open>\<open>requestID\<close> is the value the context holds for the request id.\<close>

definition newRequest ::
    "(json \<Rightarrow> string) \<Rightarrow> url \<Rightarrow> header \<Rightarrow> string option \<Rightarrow> string \<Rightarrow> string \<Rightarrow> request_body \<Rightarrow> request_option option list
     \<Rightarrow> client_request result" where
  "newRequest render baseURL defaultHeaders requestID method target requestBody options =
     (case buildRequestURL baseURL target of
        Inl err \<Rightarrow> Inl err
      | Inr requestURL \<Rightarrow>
     (case encodeRequestBody render requestBody of
        Inl err \<Rightarrow> Inl err
      | Inr (body, contentType) \<Rightarrow>
     (case buildRequestConfig defaultHeaders options of
        Inl err \<Rightarrow> Inl err
      | Inr config \<Rightarrow>
          let query = mergeQuery (ParseQuery (u_RawQuery requestURL)) (rc_query config);
              requestURL = requestURL\<lparr>u_RawQuery := values_Encode query\<rparr>
          in case NewRequest method (url_string requestURL) body of
               Inl err \<Rightarrow> Inl err
             | Inr request \<Rightarrow>
                 let h0 = rc_headers config;
                     h1 = (if contentType \<noteq> [] \<and> hdr_get h0 HeaderNameContentType = []
                           then hdr_set h0 HeaderNameContentType contentType else h0);
                     h2 = (case requestID of
                             Some i \<Rightarrow> if i \<noteq> [] then hdr_set h1 HeaderNameXRequestID i else h1
                           | None \<Rightarrow> h1)
                 in Inr (request\<lparr>cr_Header := h2\<rparr>))))"

end
