(* ===== verification/Klhayyent_Client.thy ===== *)
theory Klhayyent_Client imports Klhayyent_Request Error_Codes "HOL-Library.Word" begin

text \<open>
  The HTTP client, second half (\<open>klhayyent/client.go\<close>, \<open>options.go\<close> and \<open>types.go\<close>): how a client is built, the redirect
  policy, one exchange, the answer and its decoding, and the errors.

  The peer is a \<open>transport\<close>, a function of the requests sent so far, the last one being the one to answer: it fails, answers,
  or redirects, and then also gives the request that \<open>net/http\<close> makes of the redirect. An answer is the bytes of its body and
  whether reading fails after them. \<open>parse\<close> and \<open>render\<close> read and write the text of a JSON value, \<open>status_text\<close> is
  \<open>http.StatusText\<close>. A nil context, client, transport or policy is \<open>None\<close>. Log lines are not part of this model.
\<close>

section \<open>One exchange of net/http\<close>

datatype exchange =
    Failed go_error
  | Answered http_response
  | Redirected client_request http_response

type_synonym transport = "client_request list \<Rightarrow> exchange"

text \<open>A redirect policy may change the request; \<open>UseLast\<close> is \<open>http.ErrUseLastResponse\<close>.\<close>

datatype verdict = Proceed | UseLast | Stop go_error

type_synonym policy = "client_request \<Rightarrow> client_request list \<Rightarrow> client_request \<times> verdict"

text \<open>A cookie jar is known by a number. A time is in nanoseconds.\<close>

record kl_http_client =
  kh_Transport :: "transport option"
  kh_CheckRedirect :: "policy option"
  kh_Jar :: "nat option"
  kh_Timeout :: int

section \<open>Options of the client\<close>

record kl_config =
  cc_httpClient :: kl_http_client
  cc_defaultHeaders :: header
  cc_maxResponseBodySize :: "64 word"
  cc_dependencyName :: string
  cc_cookieJar :: "nat option"
  cc_hasCookieJar :: bool
  cc_checkRedirect :: "policy option"

type_synonym kl_option = "kl_config \<Rightarrow> kl_config result"

definition WithHTTPClient :: "kl_http_client option \<Rightarrow> kl_option" where
  "WithHTTPClient client config =
     (case client of None \<Rightarrow> Inl ErrInvalidOption | Some c \<Rightarrow> Inr (config\<lparr>cc_httpClient := c\<rparr>))"

definition WithTransport :: "transport option \<Rightarrow> kl_option" where
  "WithTransport transport config =
     (case transport of
        None \<Rightarrow> Inl ErrInvalidOption
      | Some t \<Rightarrow> Inr (config\<lparr>cc_httpClient := (cc_httpClient config)\<lparr>kh_Transport := Some t\<rparr>\<rparr>))"

definition kl_WithTimeout :: "int \<Rightarrow> kl_option" where
  "kl_WithTimeout timeout config =
     (if timeout < 0 then Inl ErrInvalidOption
      else Inr (config\<lparr>cc_httpClient := (cc_httpClient config)\<lparr>kh_Timeout := timeout\<rparr>\<rparr>))"

definition WithCookieJar :: "nat option \<Rightarrow> kl_option" where
  "WithCookieJar jar config =
     (if jar = None then Inl ErrInvalidOption else Inr (config\<lparr>cc_cookieJar := jar, cc_hasCookieJar := True\<rparr>))"

definition WithDefaultHeader :: "string \<Rightarrow> string \<Rightarrow> kl_option" where
  "WithDefaultHeader name value config =
     (case validateHeader name value of
        Some err \<Rightarrow> Inl err
      | None \<Rightarrow> Inr (config\<lparr>cc_defaultHeaders := hdr_set (cc_defaultHeaders config) name value\<rparr>))"

fun add_validated :: "string \<Rightarrow> string list \<Rightarrow> header \<Rightarrow> header result" where
  "add_validated name [] validated = Inr validated"
| "add_validated name (value # values) validated =
     (case validateHeader name value of
        Some err \<Rightarrow> Inl err
      | None \<Rightarrow> add_validated name values (hdr_add validated name value))"

fun validated_headers :: "header \<Rightarrow> header \<Rightarrow> header result" where
  "validated_headers [] validated = Inr validated"
| "validated_headers ((name, values) # rest) validated =
     (case add_validated name values validated of
        Inl err \<Rightarrow> Inl err
      | Inr validated' \<Rightarrow> validated_headers rest validated')"

definition WithDefaultHeaders :: "header \<Rightarrow> kl_option" where
  "WithDefaultHeaders headers config =
     (case validated_headers headers [] of
        Inl err \<Rightarrow> Inl err
      | Inr validated \<Rightarrow> Inr (config\<lparr>cc_defaultHeaders := validated\<rparr>))"

definition MaxInt64 :: "64 word" where
  "MaxInt64 = 0x7FFFFFFFFFFFFFFF"

definition WithMaxResponseBodySize :: "64 word \<Rightarrow> kl_option" where
  "WithMaxResponseBodySize bytes config =
     (if bytes \<le>s 0 \<or> bytes = MaxInt64 then Inl ErrInvalidOption else Inr (config\<lparr>cc_maxResponseBodySize := bytes\<rparr>))"

definition WithDependencyName :: "string \<Rightarrow> kl_option" where
  "WithDependencyName name config =
     (if name = [] then Inl ErrInvalidOption else Inr (config\<lparr>cc_dependencyName := name\<rparr>))"

definition WithCheckRedirect :: "policy option \<Rightarrow> kl_option" where
  "WithCheckRedirect policy config =
     (if Option.is_none policy then Inl ErrInvalidOption else Inr (config\<lparr>cc_checkRedirect := policy\<rparr>))"

definition DefaultHTTPClientTimeout :: int where
  "DefaultHTTPClientTimeout = 30 * 1000000000"

definition DefaultMaxResponseBodySize :: "64 word" where
  "DefaultMaxResponseBodySize = push_bit 20 10"

definition defaultDependencyName :: string where
  "defaultDependencyName = ''http_client''"

definition defaultMaxRedirects :: nat where
  "defaultMaxRedirects = 10"

definition defaultClientConfig :: kl_config where
  "defaultClientConfig =
     \<lparr>cc_httpClient = \<lparr>kh_Transport = None, kh_CheckRedirect = None, kh_Jar = None, kh_Timeout = DefaultHTTPClientTimeout\<rparr>,
      cc_defaultHeaders = [(HeaderNameAccept, [ContentTypeJSON])],
      cc_maxResponseBodySize = DefaultMaxResponseBodySize, cc_dependencyName = defaultDependencyName,
      cc_cookieJar = None, cc_hasCookieJar = False, cc_checkRedirect = None\<rparr>"

definition applyClientOptions :: "kl_config \<Rightarrow> kl_option option list \<Rightarrow> kl_config result" where
  "applyClientOptions config options = apply_fallible options config"

section \<open>The redirect policy\<close>

definition sameOrigin :: "url \<Rightarrow> url \<Rightarrow> bool" where
  "sameOrigin baseURL requestURL \<longleftrightarrow>
     equal_fold (u_Scheme baseURL) (u_Scheme requestURL) \<and> equal_fold (u_Host baseURL) (u_Host requestURL)"

definition invalid_target_error :: "string \<Rightarrow> go_error" where
  "invalid_target_error msg = WrapError msg (PlainError ''invalid request target'')"

definition checkRedirect ::
    "url \<Rightarrow> client_request \<Rightarrow> client_request list \<Rightarrow> policy option \<Rightarrow> policy option \<Rightarrow> client_request \<times> verdict" where
  "checkRedirect baseURL request via configuredPolicy originalPolicy =
     (if length via \<ge> defaultMaxRedirects \<or> \<not> sameOrigin baseURL (cr_URL request)
      then (request, Stop (invalid_target_error ''reject unsafe redirect''))
      else
        let policy = (if Option.is_none configuredPolicy then originalPolicy else configuredPolicy)
        in case (case policy of Some p \<Rightarrow> p request via | None \<Rightarrow> (request, Proceed)) of
             (request', Proceed) \<Rightarrow>
               if \<not> sameOrigin baseURL (cr_URL request')
               then (request', Stop (invalid_target_error ''reject redirect policy URL mutation''))
               else (request', Proceed)
           | answer \<Rightarrow> answer)"

lemma checkRedirect_Proceed:
  assumes "checkRedirect base request via configured original = (request', Proceed)"
  shows "length via < 10" and "sameOrigin base (cr_URL request')"
  using assms by (auto simp: checkRedirect_def defaultMaxRedirects_def Let_def split: if_splits prod.splits verdict.splits)

section \<open>The client\<close>

record kl_client =
  kc_baseURL :: url
  kc_httpClient :: kl_http_client
  kc_defaultHeaders :: header
  kc_maxResponseBodySize :: "64 word"
  kc_dependencyName :: string

text \<open>\<open>new_jar\<close> is the jar that \<open>cookiejar.New\<close> makes, \<open>None\<close> when it fails.\<close>

definition configuredHTTPClient :: "nat option \<Rightarrow> kl_config \<Rightarrow> url \<Rightarrow> kl_http_client result" where
  "configuredHTTPClient new_jar config baseURL =
     (let jar = (if cc_hasCookieJar config then cc_cookieJar config else kh_Jar (cc_httpClient config));
          wrapped = (\<lambda>request via. checkRedirect baseURL request via (cc_checkRedirect config)
                                     (kh_CheckRedirect (cc_httpClient config)))
      in case (if jar = None then new_jar else jar) of
           None \<Rightarrow> Inl ErrCookieJar
         | Some j \<Rightarrow> Inr ((cc_httpClient config)\<lparr>kh_Jar := Some j, kh_CheckRedirect := Some wrapped\<rparr>))"

definition New :: "nat option \<Rightarrow> string \<Rightarrow> kl_option option list \<Rightarrow> kl_client result" where
  "New new_jar baseURL options =
     (case parseBaseURL baseURL of
        Inl err \<Rightarrow> Inl err
      | Inr parsedBaseURL \<Rightarrow>
     (case applyClientOptions defaultClientConfig options of
        Inl err \<Rightarrow> Inl err
      | Inr config \<Rightarrow>
     (case configuredHTTPClient new_jar config parsedBaseURL of
        Inl err \<Rightarrow> Inl err
      | Inr httpClient \<Rightarrow>
          Inr \<lparr>kc_baseURL = parsedBaseURL, kc_httpClient = httpClient, kc_defaultHeaders = cc_defaultHeaders config,
               kc_maxResponseBodySize = cc_maxResponseBodySize config, kc_dependencyName = cc_dependencyName config\<rparr>)))"

definition CookieJar :: "kl_client option \<Rightarrow> nat option" where
  "CookieJar c = (case c of None \<Rightarrow> None | Some c \<Rightarrow> kh_Jar (kc_httpClient c))"

section \<open>The exchange\<close>

text \<open>
  \<open>http.Client.Do\<close>: the loop over redirects, with the requests that were sent and what it returns; an error is wrapped with
  the URL of the last request sent. Without a policy it allows nine redirects. The loop ends because both policies stop it
  when ten requests were sent; the fuel of a policy that would not is 11.
\<close>

definition defaultCheckRedirect :: policy where
  "defaultCheckRedirect request via =
     (request, if length via \<ge> 10 then Stop (PlainError ''stopped after 10 redirects'') else Proceed)"

fun follow ::
    "nat \<Rightarrow> transport \<Rightarrow> policy \<Rightarrow> client_request list \<Rightarrow> client_request
     \<Rightarrow> client_request list \<times> (go_error + http_response) option" where
  "follow 0 net policy via request = (via, None)"
| "follow (Suc n) net policy via request =
     (let reqs = via @ [request]
      in case net reqs of
           Failed err \<Rightarrow> (reqs, Some (Inl (UrlError (url_string (cr_URL request)) (Some err))))
         | Answered resp \<Rightarrow> (reqs, Some (Inr resp))
         | Redirected next_req resp \<Rightarrow>
             (case policy next_req reqs of
                (next_req', Proceed) \<Rightarrow> follow n net policy reqs next_req'
              | (_, UseLast) \<Rightarrow> (reqs, Some (Inr resp))
              | (_, Stop err) \<Rightarrow> (reqs, Some (Inl (UrlError (url_string (cr_URL request)) (Some err))))))"

definition http_Do :: "transport \<Rightarrow> kl_http_client \<Rightarrow> client_request \<Rightarrow> client_request list \<times> (go_error + http_response) option" where
  "http_Do default_transport client request =
     follow 11 (case kh_Transport client of Some t \<Rightarrow> t | None \<Rightarrow> default_transport)
       (case kh_CheckRedirect client of Some p \<Rightarrow> p | None \<Rightarrow> defaultCheckRedirect) [] request"

function sanitizeTransportError :: "go_error \<Rightarrow> go_error" where
  "sanitizeTransportError err =
     (case as_url_error err of
        Some (Some inner) \<Rightarrow> sanitizeTransportError inner
      | _ \<Rightarrow> err)"
  by pat_completeness auto
termination
  by (relation "measure size") (auto dest: as_url_error_size)

declare sanitizeTransportError.simps [simp del]

interpretation transport_errors: url_stripper sanitizeTransportError
  by unfold_locales (rule sanitizeTransportError.simps)

definition executeRequest ::
    "transport \<Rightarrow> kl_client \<Rightarrow> client_request \<Rightarrow> client_request list \<times> http_response result option" where
  "executeRequest default_transport c request =
     (case http_Do default_transport (kc_httpClient c) request of
        (sent, None) \<Rightarrow> (sent, None)
      | (sent, Some (Inl err)) \<Rightarrow> (sent, Some (Inl (ErrTransport (sanitizeTransportError err))))
      | (sent, Some (Inr resp)) \<Rightarrow> (sent, Some (Inr resp)))"

section \<open>The answer\<close>

definition responseReadExtraByte :: "64 word" where
  "responseReadExtraByte = 1"

definition readResponse :: "kl_client \<Rightarrow> http_response \<Rightarrow> kl_response result" where
  "readResponse c httpResponse =
     (case read_limited (sint (kc_maxResponseBodySize c + responseReadExtraByte)) httpResponse of
        None \<Rightarrow> Inl ErrReadBody
      | Some body \<Rightarrow>
          if int (length body) > sint (kc_maxResponseBodySize c) then Inl ErrResponseBodyTooLarge
          else Inr \<lparr>kr_StatusCode = hr_StatusCode httpResponse, kr_Header = hr_Header httpResponse, kr_Body = body\<rparr>)"

definition isSuccessStatus :: "int \<Rightarrow> bool" where
  "isSuccessStatus statusCode \<longleftrightarrow> 200 \<le> statusCode \<and> statusCode < 300"

definition responseOutcome :: "int \<Rightarrow> string" where
  "responseOutcome statusCode = (if isSuccessStatus statusCode then ''success'' else ''http_error'')"

text \<open>
  The place an answer is decoded into: a writer, which may refuse the bytes, a byte slice, or a value of a type that takes
  some JSON values and not others. \<open>delivered\<close> is what arrived there.
\<close>

datatype response_target = NoTarget | WriterTarget "string \<Rightarrow> bool" | BytesTarget | JSONTarget "json \<Rightarrow> bool"

datatype delivered = Nothing | Written string | Bytes string | Decoded json

definition decodeResponseBody :: "(string \<Rightarrow> json option) \<Rightarrow> string \<Rightarrow> response_target \<Rightarrow> delivered result" where
  "decodeResponseBody parse body target =
     (if body = [] then Inr Nothing
      else case target of
        NoTarget \<Rightarrow> Inr Nothing
      | WriterTarget takes \<Rightarrow> if takes body then Inr (Written body) else Inl ErrWriteBody
      | BytesTarget \<Rightarrow> Inr (Bytes body)
      | JSONTarget fits \<Rightarrow>
          (case parse body of
             None \<Rightarrow> Inl ErrDecodeBody
           | Some j \<Rightarrow> if fits j then Inr (Decoded j) else Inl ErrDecodeBody))"

section \<open>HTTP errors\<close>

definition serverStatusError :: "int \<Rightarrow> status_error" where
  "serverStatusError statusCode =
     (if statusCode = 422 then ErrUnprocessableEntity
      else if statusCode = 429 then ErrTooManyRequests
      else if statusCode = 500 then ErrInternalServer
      else if statusCode = 502 then ErrBadGateway
      else if statusCode = 503 then ErrServiceUnavailable
      else if statusCode = 504 then ErrGatewayTimeout
      else ErrUnexpectedResponseStatus)"

definition statusError :: "int \<Rightarrow> status_error" where
  "statusError statusCode =
     (if statusCode = 400 then ErrBadRequest
      else if statusCode = 401 then ErrUnauthorized
      else if statusCode = 403 then ErrForbidden
      else if statusCode = 404 then ErrNotFound
      else if statusCode = 405 then ErrMethodNotAllowed
      else if statusCode = 409 then ErrConflict
      else if statusCode = 410 then ErrGone
      else serverStatusError statusCode)"

text \<open>
  \<open>json.Unmarshal\<close> into an \<open>ErrorResponse\<close>: keys match up to case, the last of several wins, null leaves a string as it is
  and empties the details, any other type is an error. A text that is not an object decodes only if it is null.
\<close>

fun decode_text :: "json \<Rightarrow> string \<Rightarrow> string option" where
  "decode_text JNull old = Some old"
| "decode_text (JStr s) old = Some s"
| "decode_text _ old = None"

fun decode_members :: "(string \<times> json) list \<Rightarrow> error_response \<Rightarrow> error_response option" where
  "decode_members [] e = Some e"
| "decode_members ((k, j) # rest) e =
     (if equal_fold k ''code'' then
        (case decode_text j (er_Code e) of None \<Rightarrow> None | Some s \<Rightarrow> decode_members rest (e\<lparr>er_Code := s\<rparr>))
      else if equal_fold k ''message'' then
        (case decode_text j (er_Message e) of None \<Rightarrow> None | Some s \<Rightarrow> decode_members rest (e\<lparr>er_Message := s\<rparr>))
      else if equal_fold k ''details'' then
        decode_members rest (e\<lparr>er_Details := (if j = JNull then None else Some j)\<rparr>)
      else decode_members rest e)"

definition empty_error_response :: error_response where
  "empty_error_response = \<lparr>er_Code = [], er_Message = [], er_Details = None\<rparr>"

definition decode_error_response :: "json \<Rightarrow> error_response option" where
  "decode_error_response j =
     (case j of
        JObj members \<Rightarrow> decode_members members empty_error_response
      | JNull \<Rightarrow> Some empty_error_response
      | _ \<Rightarrow> None)"

definition newHTTPError :: "(string \<Rightarrow> json option) \<Rightarrow> (int \<Rightarrow> string) \<Rightarrow> kl_response \<Rightarrow> client_error" where
  "newHTTPError parse status_text response =
     (let fallback = \<lparr>er_Code = ErrorCodeFromHTTPStatus (kr_StatusCode response),
                      er_Message = status_text (kr_StatusCode response), er_Details = None\<rparr>;
          errorResponse =
            (case Option.bind (parse (kr_Body response)) decode_error_response of
               None \<Rightarrow> fallback
             | Some e \<Rightarrow> if er_Code e = [] then fallback else e)
      in HTTPError response errorResponse (statusError (kr_StatusCode response)))"

text \<open>\<open>Error\<close> and \<open>Unwrap\<close> of an \<open>HTTPError\<close>; \<open>itoa\<close> is its \<open>%d\<close>.\<close>

definition HTTPError_Error :: "kl_response option \<Rightarrow> string" where
  "HTTPError_Error response =
     (case response of
        None \<Rightarrow> ''HTTP request failed''
      | Some r \<Rightarrow> ''HTTP request failed with status '' @ itoa (kr_StatusCode r))"

fun Unwrap :: "client_error \<Rightarrow> status_error option" where
  "Unwrap (HTTPError _ _ cause) = Some cause"
| "Unwrap _ = None"

section \<open>Do\<close>

text \<open>The context: \<open>None\<close> when nil, otherwise the request id it holds.\<close>

type_synonym client_ctx = "string option option"

definition validateRequest :: "kl_client option \<Rightarrow> client_ctx \<Rightarrow> string \<Rightarrow> client_error option" where
  "validateRequest c ctx method =
     (if Option.is_none c then Some ErrInvalidOption
      else if ctx = None then Some ErrInvalidOption
      else if method = [] then Some ErrInvalidOption
      else None)"

text \<open>
  What \<open>Do\<close> gives back: the response and the error (either may be nil), what arrived in the target, the requests that went
  out, and whether the body of the answer was closed.
\<close>

record do_result =
  do_response :: "kl_response option"
  do_error :: "client_error option"
  do_delivered :: delivered
  do_sent :: "client_request list"
  do_closed :: bool

definition failed :: "client_error \<Rightarrow> do_result" where
  "failed err = \<lparr>do_response = None, do_error = Some err, do_delivered = Nothing, do_sent = [], do_closed = False\<rparr>"

text \<open>The parameters of an environment: JSON, the texts of the statuses, the default transport.\<close>

record env =
  env_parse :: "string \<Rightarrow> json option"
  env_render :: "json \<Rightarrow> string"
  env_status_text :: "int \<Rightarrow> string"
  env_transport :: transport

definition finish_Do :: "env \<Rightarrow> kl_client \<Rightarrow> response_target \<Rightarrow> client_request list \<Rightarrow> http_response \<Rightarrow> do_result" where
  "finish_Do env c responseBody sent httpResponse =
     (let r = (failed ErrReadBody)\<lparr>do_sent := sent, do_closed := True\<rparr>
      in case readResponse c httpResponse of
           Inl err \<Rightarrow> r\<lparr>do_error := Some err\<rparr>
         | Inr response \<Rightarrow>
             if \<not> isSuccessStatus (kr_StatusCode response)
             then r\<lparr>do_response := Some response, do_error := Some (newHTTPError (env_parse env) (env_status_text env) response)\<rparr>
             else case decodeResponseBody (env_parse env) (kr_Body response) responseBody of
                    Inl err \<Rightarrow> r\<lparr>do_response := Some response, do_error := Some err\<rparr>
                  | Inr d \<Rightarrow> r\<lparr>do_response := Some response, do_error := None, do_delivered := d\<rparr>)"

text \<open>\<open>None\<close> is a call that does not return, which no call is (\<open>redirects_stay_on_origin\<close>).\<close>

definition Do ::
    "env \<Rightarrow> kl_client option \<Rightarrow> client_ctx \<Rightarrow> string \<Rightarrow> string \<Rightarrow> request_body \<Rightarrow> response_target \<Rightarrow> request_option option list
     \<Rightarrow> do_result option" where
  "Do env client ctx method target requestBody responseBody options =
     (case validateRequest client ctx method of
        Some err \<Rightarrow> Some (failed err)
      | None \<Rightarrow>
          let c = the client
          in case newRequest (env_render env) (kc_baseURL c) (kc_defaultHeaders c) (the ctx) method target requestBody options of
               Inl err \<Rightarrow> Some (failed err)
             | Inr request \<Rightarrow>
                 (case executeRequest (env_transport env) c request of
                    (sent, None) \<Rightarrow> None
                  | (sent, Some (Inl err)) \<Rightarrow> Some ((failed err)\<lparr>do_sent := sent\<rparr>)
                  | (sent, Some (Inr httpResponse)) \<Rightarrow> Some (finish_Do env c responseBody sent httpResponse)))"

definition Get where
  "Get env c ctx target responseBody options = Do env c ctx ''GET'' target NoBody responseBody options"

definition Head where
  "Head env c ctx target options = Do env c ctx ''HEAD'' target NoBody NoTarget options"

definition Options where
  "Options env c ctx target responseBody options = Do env c ctx ''OPTIONS'' target NoBody responseBody options"

definition Delete where
  "Delete env c ctx target responseBody options = Do env c ctx ''DELETE'' target NoBody responseBody options"

definition Post where
  "Post env c ctx target requestBody responseBody options = Do env c ctx ''POST'' target requestBody responseBody options"

definition Put where
  "Put env c ctx target requestBody responseBody options = Do env c ctx ''PUT'' target requestBody responseBody options"

definition Patch where
  "Patch env c ctx target requestBody responseBody options = Do env c ctx ''PATCH'' target requestBody responseBody options"

end
