(* ===== verification/Klhayyent_Request_Correct.thy ===== *)
theory Klhayyent_Request_Correct imports Klhayyent_Request Middleware_Auth begin

text \<open>
  What the request of a client is: it stays under the base URL, carries the query values that were set, and the credentials
  in it are those the server's middleware reads.
\<close>

section \<open>Under the base\<close>

lemma traversal_loop_safe:
  "\<not> traversal_loop (Suc n) p \<Longrightarrow> \<exists>q. PathUnescape p = Some q \<and> dotdot \<notin> set (split_on slash q)"
  by (auto split: option.splits if_splits)

lemma no_traversal:
  assumes "\<not> hasTraversalSegment (EscapedPath u)" and "unescape EncPath (EscapedPath u) = Some (u_Path u)"
  shows "dotdot \<notin> set (split_on slash (u_Path u))"
  using traversal_loop_safe [of 2 "EscapedPath u"] assms
  by (auto simp: hasTraversalSegment_def numeral_3_eq_3 numeral_2_eq_2 PathUnescape_def simp del: traversal_loop.simps)

lemma EscapedPath_decodes: "unescape EncPath (EscapedPath u) = Some (u_Path u)"
proof -
  have "unescape EncPath ''*'' = Some ''*''" by code_simp
  then show ?thesis by (auto simp: EscapedPath_def unescape_escape)
qed

lemma trim_slash_segs: "dotdot \<notin> set (split_on slash p) \<Longrightarrow> dotdot \<notin> set (split_on slash (trim_slash p))"
proof (cases "has_prefix p [slash]")
  case True
  then obtain q where q: "p = slash # q" by (cases p) (auto simp: has_prefix_def)
  assume "dotdot \<notin> set (split_on slash p)"
  with q show ?thesis by (simp add: trim_slash_def has_prefix_def)
qed (simp add: trim_slash_def)

text \<open>A URL lies under the base: the same scheme and host, no user, and the path is the base's or below it.\<close>

definition under_base :: "url \<Rightarrow> url \<Rightarrow> bool" where
  "under_base base u \<longleftrightarrow> u_Scheme u = u_Scheme base \<and> u_Host u = u_Host base \<and> u_User u = None \<and> u_Fragment u = []
     \<and> (u_Path base \<noteq> [] \<longrightarrow> path_within (u_Path base) (u_Path u))"

lemma parseBaseURL_ok:
  assumes "parseBaseURL raw = Inr base"
  shows "url_ok base" and "u_Path base = [] \<or> hd (u_Path base) = CHR ''/''"
proof -
  have p: "url_parse raw = Some base" and c: "u_Scheme base = ''http'' \<or> u_Scheme base = ''https''" "u_Host base \<noteq> []"
    "u_User base = None" "u_Fragment base = []"
    using assms by (auto simp: parseBaseURL_def split: option.splits if_splits)
  show ok: "url_ok base" by (rule parsed_url_ok [OF p c])
  show "u_Path base = [] \<or> hd (u_Path base) = CHR ''/''" by (rule parsed_path_rooted [OF p c(2)])
qed

lemma buildRequestURL_ok:
  assumes "url_ok base" and "u_Path base = [] \<or> hd (u_Path base) = CHR ''/''" and "buildRequestURL base target = Inr u"
  shows "url_ok (u\<lparr>u_RawQuery := q\<rparr>) \<and> under_base base (u\<lparr>u_Path := rooted_path (u_Path u)\<rparr>)"
proof -
  obtain t where t: "url_parse target = Some t" "\<not> isInvalidParsedTarget t"
    using assms(3) by (auto simp: buildRequestURL_def split: if_splits option.splits)
  show ?thesis
  proof (cases "u_Path t = []")
    case True
    then have "u = base\<lparr>u_RawQuery := u_RawQuery t\<rparr>"
      using assms(3) t by (auto simp: buildRequestURL_def Let_def split: if_splits)
    moreover have "rooted_path (u_Path base) = u_Path base" using assms(2) by (auto simp: rooted_path_def)
    ultimately show ?thesis using assms(1) by (simp add: url_ok_def under_base_def)
  next
    case False
    let ?p = "trim_slash (u_Path t)"
    have u: "u = base\<lparr>u_Path := path_join [u_Path base, ?p], u_RawPath := [], u_RawQuery := u_RawQuery t\<rparr>"
      using assms(3) t False by (auto simp: buildRequestURL_def Let_def split: if_splits)
    have safe: "dotdot \<notin> set (split_on slash ?p)"
      using no_traversal [OF _ EscapedPath_decodes] t(2) by (intro trim_slash_segs) (simp add: isInvalidParsedTarget_def)
    have "path_within (u_Path base) (rooted_path (u_Path u))" if ne: "u_Path base \<noteq> []"
    proof -
      have w: "path_within (u_Path base) (u_Path u)" using path_join_within [OF ne safe] u by simp
      then have "is_rooted (u_Path u)" using assms(2) ne
        by (cases "u_Path base"; cases "u_Path u") (auto simp: path_within_def is_rooted_def)
      then have "rooted_path (u_Path u) = u_Path u" by (cases "u_Path u") (auto simp: rooted_path_def is_rooted_def)
      with w show ?thesis by simp
    qed
    then show ?thesis using assms(1) by (simp add: u url_ok_def under_base_def)
  qed
qed

lemma newRequest_parts:
  assumes "newRequest render base dh rid method target body options = Inr req"
  obtains u config where "buildRequestURL base target = Inr u" and "buildRequestConfig dh options = Inr config"
    and "url_parse (url_string (u\<lparr>u_RawQuery := values_Encode (mergeQuery (ParseQuery (u_RawQuery u)) (rc_query config))\<rparr>)) = Some (cr_URL req)"
  using assms by (auto simp: newRequest_def NewRequest_def Let_def split: sum.splits prod.splits if_splits option.splits)

lemma encoded_query_bytes: "list_all (\<lambda>c. encoded_byte c \<or> c = amp \<or> c = equals) (values_Encode q)"
  using values_Encode_bytes by (auto simp: list_all_iff)

text \<open>
  Whatever the target, its options and its body, a request the client makes goes to the scheme and host of the base
  URL, with no user information, and its path is that of the base or lies below it.
\<close>

lemma newRequest_under_base:
  assumes "parseBaseURL raw = Inr base"
    and "newRequest render base dh rid method target body options = Inr req"
  shows "under_base base (cr_URL req)"
proof -
  note b = parseBaseURL_ok [OF assms(1)]
  obtain u config where u: "buildRequestURL base target = Inr u" and "buildRequestConfig dh options = Inr config"
    and p: "url_parse (url_string (u\<lparr>u_RawQuery := values_Encode (mergeQuery (ParseQuery (u_RawQuery u)) (rc_query config))\<rparr>)) = Some (cr_URL req)"
    by (rule newRequest_parts [OF assms(2)])
  let ?q = "values_Encode (mergeQuery (ParseQuery (u_RawQuery u)) (rc_query config))"
  have ok: "url_ok (u\<lparr>u_RawQuery := ?q\<rparr>)" "under_base base (u\<lparr>u_Path := rooted_path (u_Path u)\<rparr>)"
    using buildRequestURL_ok [OF b u, of ?q] by simp_all
  obtain raw' where "cr_URL req = u\<lparr>u_RawQuery := ?q, u_Path := rooted_path (u_Path u), u_RawPath := raw'\<rparr>"
    using url_string_parse [OF ok(1)] p encoded_query_bytes [of "mergeQuery (ParseQuery (u_RawQuery u)) (rc_query config)"] by auto
  with ok(2) show ?thesis by (simp add: under_base_def)
qed

text \<open>
  What is refused: other hosts in all spellings, and going up, also when the dots are escaped once or more. What is lost: an
  escaped slash becomes a slash, and a slash at the end goes.
\<close>

definition accepted_path :: "string \<Rightarrow> string option" where
  "accepted_path target =
     (case buildRequestURL (empty_url\<lparr>u_Scheme := ''http'', u_Host := ''h'', u_Path := ''/api''\<rparr>) target of
        Inl _ \<Rightarrow> None
      | Inr u \<Rightarrow> Some (u_Path u))"

lemma refused_targets:
  "list_all (\<lambda>t. accepted_path t = None)
     [''//evil.com/x'', ''http://evil.com/x'', ''../x'', ''a/../../x'', ''%2e%2e/x'', ''%252e%252e/x'',
      ''%25252e%25252e/x'', ''%2525252e/x'', CHR 0x5C # ''evil'', ''a'' @ [CHR 0x0A], ''a#frag'']"
  by code_simp

lemma accepted_targets:
  "accepted_path ''a%2Fb'' = Some ''/api/a/b'' \<and> accepted_path ''a/'' = Some ''/api/a'' \<and> accepted_path ''/a'' = Some ''/api/a''
    \<and> accepted_path [] = Some ''/api''"
  by code_simp

section \<open>The query\<close>

lemma values_all_add: "values_all (values_add q k v) k' = values_all q k' @ (if k' = k then [v] else [])"
  by (simp add: values_add_def values_all_def)

lemma add_entries_all: "values_all (foldl (\<lambda>q entry. values_add q key entry) q es) k = values_all q k @ (if k = key then es else [])"
  by (induction es arbitrary: q) (auto simp: values_all_add)

lemma add_all_values_all: "gomap_ok vs \<Longrightarrow> values_all (add_all_values q vs) k = values_all q k @ values_all vs k"
  unfolding add_all_values_def
proof (induction vs arbitrary: q)
  case Nil
  then show ?case by (simp add: values_all_def map_get_def)
next
  case (Cons p vs)
  obtain key es where p: "p = (key, es)" by (cases p)
  have ok: "gomap_ok vs" and "key \<notin> fst ` set vs" using Cons.prems p by (simp_all add: gomap_ok_def)
  then have "values_all vs key = []" by (simp add: values_all_def map_get_def map_of_eq_None_iff [THEN iffD2])
  moreover have "values_all ((key, es) # vs) k = (if k = key then es else values_all vs k)"
    by (simp add: values_all_def map_get_def)
  ultimately show ?case using Cons.IH [OF ok] p by (simp add: add_entries_all)
qed

lemma add_all_values_ok: "gomap_ok q \<Longrightarrow> gomap_ok (add_all_values q vs)"
  unfolding add_all_values_def
proof (induction vs arbitrary: q)
  case (Cons p vs)
  have "gomap_ok (foldl (\<lambda>q entry. values_add q (fst p) entry) q es)" for es
    using Cons.prems by (induction es arbitrary: q) (simp_all add: values_ok)
  from Cons.IH [OF this] show ?case by (simp add: split_def)
qed simp

text \<open>
  C25: the server that parses the query of the request sees, for each key, the values the target carried and then those the
  options set, in their order, whatever bytes they are made of.
\<close>

theorem query_reaches_server:
  assumes "parseBaseURL raw = Inr base" and "buildRequestURL base target = Inr u"
    and "buildRequestConfig dh options = Inr config" and "gomap_ok (rc_query config)"
    and "newRequest render base dh rid method target body options = Inr req"
  shows "values_all (ParseQuery (u_RawQuery (cr_URL req))) k = values_all (ParseQuery (u_RawQuery u)) k @ values_all (rc_query config) k"
proof -
  obtain u' config' where u': "buildRequestURL base target = Inr u'" "buildRequestConfig dh options = Inr config'"
    and p: "url_parse (url_string (u'\<lparr>u_RawQuery := values_Encode (mergeQuery (ParseQuery (u_RawQuery u')) (rc_query config'))\<rparr>)) = Some (cr_URL req)"
    by (rule newRequest_parts [OF assms(5)])
  then have eq: "u' = u" "config' = config" using assms(2,3) by simp_all
  let ?q = "mergeQuery (ParseQuery (u_RawQuery u)) (rc_query config)"
  have ok: "url_ok (u\<lparr>u_RawQuery := values_Encode ?q\<rparr>)"
    using buildRequestURL_ok [OF parseBaseURL_ok [OF assms(1)] assms(2)] by blast
  have "u_RawQuery (cr_URL req) = values_Encode ?q"
    using url_string_parse [OF ok] p encoded_query_bytes [of ?q] unfolding eq by auto
  moreover have "gomap_ok ?q" unfolding mergeQuery_def by (rule add_all_values_ok [OF ParseQuery_ok])
  ultimately show ?thesis
    by (simp add: query_roundtrip mergeQuery_def add_all_values_all [OF assms(4)])
qed

section \<open>Credentials\<close>

lemma apply_fallible_append:
  "apply_fallible (opts @ opts') c = (case apply_fallible opts c of Inl e \<Rightarrow> Inl e | Inr c' \<Rightarrow> apply_fallible opts' c')"
  by (induction opts c rule: apply_fallible.induct) (auto split: sum.splits)

lemma newRequest_header:
  assumes "newRequest render base dh rid method target body options = Inr req" and "buildRequestConfig dh options = Inr config"
  shows "hdr_get (cr_Header req) HeaderNameAuthorization = hdr_get (rc_headers config) HeaderNameAuthorization"
proof -
  have names: "CanonicalHeaderKey HeaderNameAuthorization \<noteq> CanonicalHeaderKey HeaderNameContentType"
    "CanonicalHeaderKey HeaderNameAuthorization \<noteq> CanonicalHeaderKey HeaderNameXRequestID" by code_simp+
  show ?thesis
    using assms names
    by (auto simp: newRequest_def NewRequest_def Let_def hdr_get_set split: sum.splits prod.splits if_splits option.splits)
qed

lemma b64_no_breaks: "CHR 0x0D \<notin> set (b64_encode s) \<and> CHR 0x0A \<notin> set (b64_encode s)"
  using b64_encode_no_breaks [of s] by (auto simp: list_all_iff)

lemma WithBasicAuth_sets:
  "WithBasicAuth user pass c = Inr (c\<lparr>rc_headers := hdr_set (rc_headers c) HeaderNameAuthorization
     (AuthSchemeBasic @ b64_encode (user @ '':'' @ pass))\<rparr>)"
proof -
  have "isValidHeaderName HeaderNameAuthorization" "CHR 0x0D \<notin> set AuthSchemeBasic" "CHR 0x0A \<notin> set AuthSchemeBasic" by code_simp+
  with b64_no_breaks [of "user @ '':'' @ pass"] show ?thesis
    by (simp add: WithBasicAuth_def WithHeader_def validateHeader_def)
qed

lemma WithBearerToken_sets:
  assumes "WithBearerToken token c = Inr c'"
  shows "c' = c\<lparr>rc_headers := hdr_set (rc_headers c) HeaderNameAuthorization (AuthSchemeBearer @ token)\<rparr>"
  using assms by (auto simp: WithBearerToken_def WithHeader_def split: option.splits)

lemma query_reaches_server_witness:
  "\<exists>base req. parseBaseURL ''http://h'' = Inr base
    \<and> newRequest (\<lambda>_. []) base [] None ''GET'' ''x?q=1'' NoBody [Some (WithQuery ''a b'' ''&='')] = Inr req
    \<and> values_all (ParseQuery (u_RawQuery (cr_URL req))) ''a b'' = [''&='']"
proof -
  let ?b = "parseBaseURL ''http://h''" and ?u = "\<lambda>base. buildRequestURL base ''x?q=1''"
  let ?r = "\<lambda>base. newRequest (\<lambda>_. []) base [] None ''GET'' ''x?q=1'' NoBody [Some (WithQuery ''a b'' ''&='')]"
  let ?c = "\<lparr>rc_headers = [], rc_query = [(''a b'', [''&=''])]\<rparr> :: request_config"
  have "(case ?b of Inl _ \<Rightarrow> False | Inr base \<Rightarrow> (case ?r base of Inl _ \<Rightarrow> False | Inr req \<Rightarrow>
      (case ?u base of Inl _ \<Rightarrow> False | Inr u \<Rightarrow> values_all (ParseQuery (u_RawQuery u)) ''a b'' = [])))"
    by code_simp
  then obtain base req u where b: "?b = Inr base" and r: "?r base = Inr req" and u: "?u base = Inr u"
    and n: "values_all (ParseQuery (u_RawQuery u)) ''a b'' = []"
    by (auto split: sum.splits)
  have c: "buildRequestConfig [] [Some (WithQuery ''a b'' ''&='')] = Inr ?c"
    by (simp add: buildRequestConfig_def WithQuery_def values_set_def map_set_def)
  have ok: "gomap_ok (rc_query ?c)" by (simp add: gomap_ok_def)
  have "values_all (rc_query ?c) ''a b'' = [''&='']" by (simp add: values_all_def map_get_def)
  with query_reaches_server [OF b u c ok r, of "''a b''"] n
  have "values_all (ParseQuery (u_RawQuery (cr_URL req))) ''a b'' = [''&='']" by simp
  with b r show ?thesis by blast
qed

lemma sent_authorization:
  assumes "newRequest render base dh rid method target body (opts @ [Some (WithHeader HeaderNameAuthorization v)]) = Inr req"
  shows "hdr_get (cr_Header req) HeaderNameAuthorization = v"
proof -
  obtain u config where "buildRequestURL base target = Inr u"
    and c: "buildRequestConfig dh (opts @ [Some (WithHeader HeaderNameAuthorization v)]) = Inr config"
    and "url_parse (url_string (u\<lparr>u_RawQuery := values_Encode (mergeQuery (ParseQuery (u_RawQuery u)) (rc_query config))\<rparr>)) = Some (cr_URL req)"
    by (rule newRequest_parts [OF assms])
  then obtain c0 where "WithHeader HeaderNameAuthorization v c0 = Inr config"
    by (auto simp: buildRequestConfig_def apply_fallible_append split: sum.splits)
  then have "hdr_get (rc_headers config) HeaderNameAuthorization = v"
    by (auto simp: WithHeader_def hdr_get_set split: option.splits)
  with newRequest_header [OF assms c] show ?thesis by simp
qed

text \<open>
  C10: credentials set on a request with \<open>WithBasicAuth\<close> pass the server's \<open>BasicAuth\<close> for a user and password that are
  configured there, and a token set with \<open>WithBearerToken\<close> passes \<open>BearerAuth\<close> for a configured token: the handler is
  reached, with that user. The user name must not contain a colon, the token must not be empty.
\<close>

theorem credentials_accepted:
  assumes "rq_Header r = cr_Header req" and "gomap_ok users"
  shows "(newRequest render base dh rid method target body (opts @ [Some (WithBasicAuth user pass)]) = Inr req
      \<and> CHR '':'' \<notin> set user \<and> map_get users user = Some pass
      \<longrightarrow> BasicAuth sha [WithBasicAuthUsers users] next_h r = next_h (r\<lparr>rq_User := Some user\<rparr>))
    \<and> (newRequest render base dh rid method target body (opts @ [Some (WithBearerToken token)]) = Inr req
      \<and> token \<noteq> [] \<and> token \<in> set tokens
      \<longrightarrow> BearerAuth sha [WithBearerAuthTokens tokens] next_h r = next_h r)"
proof (intro conjI impI)
  assume a: "newRequest render base dh rid method target body (opts @ [Some (WithBasicAuth user pass)]) = Inr req
      \<and> CHR '':'' \<notin> set user \<and> map_get users user = Some pass"
  then have "hdr_get (rq_Header r) HeaderNameAuthorization = AuthSchemeBasic @ b64_encode (user @ '':'' @ pass)"
    using sent_authorization assms(1) unfolding WithBasicAuth_def by metis
  then have "request_BasicAuth r = Some (user, pass)"
    using parse_basic_auth_value [of user pass] a
    by (simp add: request_BasicAuth_def HeaderNameAuthorization_def AuthSchemeBasic_def basic_auth_value_def)
  moreover have "foldl (\<lambda>m (k, v). map_set m k v) [] users = users"
    using foldl_map_set_fresh [of "[]" users] assms(2) by (simp add: gomap_ok_def)
  moreover have "users \<noteq> []" using a by (auto simp: map_get_def)
  ultimately show "BasicAuth sha [WithBasicAuthUsers users] next_h r = next_h (r\<lparr>rq_User := Some user\<rparr>)"
    using a by (simp add: BasicAuth_def apply_options_def WithBasicAuthUsers_def default_basic_config_def basic_handler_def
        flag_def authenticateUser_def authenticateWithUsers_def constantTimeAuth_def map_get_def [of "[]"])
next
  assume a: "newRequest render base dh rid method target body (opts @ [Some (WithBearerToken token)]) = Inr req
      \<and> token \<noteq> [] \<and> token \<in> set tokens"
  then have "hdr_get (rq_Header r) HeaderNameAuthorization = AuthSchemeBearer @ token"
    using sent_authorization assms(1) unfolding WithBearerToken_def by metis
  then have "bearerToken r = Some token" using a by (simp add: bearerToken_def Let_def)
  moreover have m: "map_get (set_flags (filter (\<lambda>t. t \<noteq> []) tokens) []) token = Some True"
    using a flag_set_flags [of "filter (\<lambda>t. t \<noteq> []) tokens" "[]" token] by (simp add: flag_def)
  then have "constantTimeTokenAuth sha (set_flags (filter (\<lambda>t. t \<noteq> []) tokens) []) token"
    by (force simp: constant_time_tokens dest: map_get_SomeD)
  moreover have "set_flags (filter (\<lambda>t. t \<noteq> []) tokens) [] \<noteq> []" using m by (auto simp: map_get_def)
  ultimately show "BearerAuth sha [WithBearerAuthTokens tokens] next_h r = next_h r"
    by (simp add: BearerAuth_def apply_options_def WithBearerAuthTokens_def default_bearer_config_def bearer_handler_def
        flag_def authenticateToken_def map_get_def [of "[]"])
qed

lemma credentials_accepted_witness:
  "\<exists>base req r. newRequest (\<lambda>_. []) base [] None ''GET'' ''x'' NoBody [Some (WithBasicAuth ''u'' ''p:q'')] = Inr req
    \<and> rq_Header r = cr_Header req
    \<and> BasicAuth id [WithBasicAuthUsers [(''u'', ''p:q'')]] (\<lambda>r. Return) r = Return"
proof -
  let ?b = "empty_url\<lparr>u_Scheme := ''http'', u_Host := ''h''\<rparr>"
  let ?r = "newRequest (\<lambda>_. []) ?b [] None ''GET'' ''x'' NoBody ([] @ [Some (WithBasicAuth ''u'' ''p:q'')])"
  have "(case ?r of Inl _ \<Rightarrow> False | Inr _ \<Rightarrow> True)" by code_simp
  then obtain req where r: "?r = Inr req" by (auto split: sum.splits)
  have ok: "gomap_ok [(''u'', ''p:q'')]" by (simp add: gomap_ok_def)
  have h: "rq_Header (get_request\<lparr>rq_Header := cr_Header req\<rparr>) = cr_Header req" by simp
  have "BasicAuth id [WithBasicAuthUsers [(''u'', ''p:q'')]] (\<lambda>r. Return) (get_request\<lparr>rq_Header := cr_Header req\<rparr>) = Return"
  proof (rule conjunct1 [OF credentials_accepted [OF h ok], THEN mp], intro conjI)
    show "?r = Inr req" by (rule r)
    show "CHR '':'' \<notin> set ''u''" by simp
    show "map_get [(''u'', ''p:q'')] ''u'' = Some ''p:q''" by (simp add: map_get_def)
  qed
  with r h show ?thesis unfolding append_Nil by blast
qed

end
