(* ===== verification/Klhayyent_Client_Correct.thy ===== *)
theory Klhayyent_Client_Correct imports Klhayyent_Client Klhayyent_Request_Correct begin

text \<open>
  What a call of the HTTP client does: where its requests go, also after redirects, how much of an answer it keeps, what
  its headers may hold, what errors it gives back, and that an error the server writes arrives as it was written.
\<close>

section \<open>The options of the package\<close>

text \<open>An \<open>Option\<close> takes an unexported type: the options that exist are those of the package.\<close>

inductive client_opt :: "kl_option \<Rightarrow> bool" where
  "client_opt (WithHTTPClient c)"
| "client_opt (WithTransport t)"
| "client_opt (kl_WithTimeout d)"
| "client_opt (WithCookieJar j)"
| "client_opt (WithDefaultHeader name val)"
| "client_opt (WithDefaultHeaders h)"
| "client_opt (WithMaxResponseBodySize n)"
| "client_opt (WithDependencyName name)"
| "client_opt (WithCheckRedirect p)"

inductive request_opt :: "request_option \<Rightarrow> bool" where
  "request_opt (WithHeader name val)"
| "request_opt (WithHeaders h)"
| "request_opt (WithBearerToken token)"
| "request_opt (WithBasicAuth user pass)"
| "request_opt (WithQuery key val)"
| "request_opt (WithQueryValues vs)"

lemma apply_fallible_inv:
  assumes "apply_fallible options c = Inr c'" and "I c"
    and "\<And>opt c c'. Some opt \<in> set options \<Longrightarrow> I c \<Longrightarrow> opt c = Inr c' \<Longrightarrow> I c'"
  shows "I c'"
  using assms
proof (induction options c rule: apply_fallible.induct)
  case (3 opt opts config)
  obtain config' where "opt config = Inr config'" and "apply_fallible opts config' = Inr c'"
    using "3.prems"(1) by (auto split: sum.splits)
  then show ?case using "3.IH" [of config'] "3.prems"(2,3) by auto
qed simp_all

section \<open>Header fields\<close>

text \<open>The names \<open>isValidHeaderName\<close> admits are the tokens of RFC 7230.\<close>

lemma header_name_bytes:
  "(is_letter c \<or> is_digit c \<or> c \<in> set (CHR 0x27 # CHR 0x25 # CHR 0x60 # ''!#$&*+-.^_|~'')) = token_byte c"
proof -
  have m: "c \<in> set (CHR 0x27 # CHR 0x25 # CHR 0x60 # ''!#$&*+-.^_|~'') \<longleftrightarrow>
    code c \<in> {39, 37, 96, 33, 35, 36, 38, 42, 43, 45, 46, 94, 95, 124, 126}"
    unfolding code_def by (simp add: char_eq_code)
  show ?thesis unfolding m is_letter_def is_digit_def token_byte_def Let_def code_def [symmetric]
    unfolding insert_iff empty_iff by presburger
qed

lemma valid_name_token: "isValidHeaderName name \<longleftrightarrow> name \<noteq> [] \<and> list_all token_byte name"
  unfolding isValidHeaderName_def header_name_bytes ..

definition no_breaks :: "string \<Rightarrow> bool" where
  "no_breaks val \<longleftrightarrow> CHR 0x0D \<notin> set val \<and> CHR 0x0A \<notin> set val"

definition field_ok :: "string \<times> string list \<Rightarrow> bool" where
  "field_ok f \<longleftrightarrow> isValidHeaderName (fst f) \<and> list_all no_breaks (snd f)"

definition fields_ok :: "header \<Rightarrow> bool" where
  "fields_ok h \<longleftrightarrow> list_all field_ok h"

lemma canonical_valid: "isValidHeaderName name \<Longrightarrow> isValidHeaderName (CanonicalHeaderKey name)"
proof -
  have "canon_from up s = [] \<longleftrightarrow> s = []" for up s by (cases s) simp_all
  then show "isValidHeaderName name \<Longrightarrow> isValidHeaderName (CanonicalHeaderKey name)"
    by (simp add: valid_name_token CanonicalHeaderKey_def canon_from_tokens)
qed

lemma validateHeader_None: "validateHeader name val = None \<longleftrightarrow> isValidHeaderName name \<and> no_breaks val"
  by (simp add: validateHeader_def no_breaks_def)

lemma fields_ok_set: "fields_ok h \<Longrightarrow> validateHeader name val = None \<Longrightarrow> fields_ok (hdr_set h name val)"
  by (auto simp: fields_ok_def hdr_set_def list_all_iff field_ok_def validateHeader_None canonical_valid dest!: map_set_mem)

lemma fields_ok_values: "fields_ok h \<Longrightarrow> list_all no_breaks (hdr_values h name)"
proof (cases "map_get h (CanonicalHeaderKey name)")
  case (Some vs)
  then have "(CanonicalHeaderKey name, vs) \<in> set h" by (rule map_get_SomeD)
  moreover assume "fields_ok h"
  ultimately have "field_ok (CanonicalHeaderKey name, vs)" by (simp add: fields_ok_def list_all_iff)
  with Some show ?thesis by (simp add: hdr_values_def field_ok_def)
qed (simp add: hdr_values_def)

lemma fields_ok_add: "fields_ok h \<Longrightarrow> validateHeader name val = None \<Longrightarrow> fields_ok (hdr_add h name val)"
  using fields_ok_values [of h name]
  by (auto simp: fields_ok_def hdr_add_def list_all_iff field_ok_def validateHeader_None canonical_valid dest!: map_set_mem)

lemma fields_ok_del: "fields_ok h \<Longrightarrow> fields_ok (hdr_del h name)"
  by (auto simp: fields_ok_def hdr_del_def map_del_def AList.delete_eq list_all_iff)

lemma first_error_None: "first_error xs f = None \<longleftrightarrow> (\<forall>x\<in>set xs. f x = None)"
  by (induction xs) (auto split: option.splits)

lemma fields_ok_add_all:
  "fields_ok h \<Longrightarrow> \<forall>v\<in>set vs. validateHeader name v = None \<Longrightarrow> fields_ok (foldl (\<lambda>h v. hdr_add h name v) h vs)"
  by (induction vs arbitrary: h) (auto simp: fields_ok_add)

lemma set_all_headers_ok:
  "set_all_headers h config = Inr config' \<Longrightarrow> fields_ok (rc_headers config) \<Longrightarrow> fields_ok (rc_headers config')"
  by (induction h config rule: set_all_headers.induct)
    (auto simp: first_error_None fields_ok_add_all fields_ok_del split: option.splits)

lemma add_validated_ok: "add_validated name vs h = Inr h' \<Longrightarrow> fields_ok h \<Longrightarrow> fields_ok h'"
  by (induction name vs h rule: add_validated.induct) (auto simp: fields_ok_add split: option.splits)

lemma validated_headers_ok: "validated_headers hs h = Inr h' \<Longrightarrow> fields_ok h \<Longrightarrow> fields_ok h'"
  by (induction hs h rule: validated_headers.induct) (auto dest: add_validated_ok split: sum.splits)

lemma request_opt_ok:
  assumes "request_opt opt" and "fields_ok (rc_headers c)" and "opt c = Inr c'"
  shows "fields_ok (rc_headers c')"
  using assms
  by (induction rule: request_opt.induct)
    (auto simp: WithHeader_def WithHeaders_def WithBearerToken_def WithBasicAuth_def WithQuery_def WithQueryValues_def
      fields_ok_set set_all_headers_ok split: option.splits)

section \<open>A client that was built\<close>

definition config_ok :: "kl_config \<Rightarrow> bool" where
  "config_ok c \<longleftrightarrow> fields_ok (cc_defaultHeaders c) \<and> 0 < sint (cc_maxResponseBodySize c)
     \<and> cc_maxResponseBodySize c \<noteq> MaxInt64 \<and> cc_dependencyName c \<noteq> []"

lemma client_opt_ok:
  assumes "client_opt opt" and "config_ok c" and "opt c = Inr c'"
  shows "config_ok c'"
  using assms
  by (induction rule: client_opt.induct)
    (auto simp: WithHTTPClient_def WithTransport_def kl_WithTimeout_def WithCookieJar_def WithDefaultHeader_def
      WithDefaultHeaders_def WithMaxResponseBodySize_def WithDependencyName_def WithCheckRedirect_def config_ok_def
      fields_ok_set word_sle_eq fields_ok_def [of "[]"] dest: validated_headers_ok split: option.splits sum.splits if_splits)

lemma default_config_ok: "config_ok defaultClientConfig"
proof -
  have "isValidHeaderName HeaderNameAccept" "no_breaks ContentTypeJSON" by code_simp+
  then show ?thesis
    by (simp add: config_ok_def defaultClientConfig_def fields_ok_def field_ok_def DefaultMaxResponseBodySize_def
        MaxInt64_def defaultDependencyName_def)
qed

definition kl_client_ok :: "kl_client \<Rightarrow> bool" where
  "kl_client_ok c \<longleftrightarrow> fields_ok (kc_defaultHeaders c) \<and> 0 < sint (kc_maxResponseBodySize c)
     \<and> kc_maxResponseBodySize c \<noteq> MaxInt64 \<and> kc_dependencyName c \<noteq> [] \<and> kh_Jar (kc_httpClient c) \<noteq> None"

lemma New_parts:
  assumes "New new_jar raw options = Inr c"
  obtains config httpClient where "parseBaseURL raw = Inr (kc_baseURL c)"
    and "apply_fallible options defaultClientConfig = Inr config"
    and "configuredHTTPClient new_jar config (kc_baseURL c) = Inr (kc_httpClient c)"
    and "kc_defaultHeaders c = cc_defaultHeaders config" and "kc_maxResponseBodySize c = cc_maxResponseBodySize config"
    and "kc_dependencyName c = cc_dependencyName config"
  using assms by (auto simp: New_def applyClientOptions_def split: sum.splits)

lemma New_ok:
  assumes "New new_jar raw options = Inr c" and "\<And>opt. Some opt \<in> set options \<Longrightarrow> client_opt opt"
  shows "kl_client_ok c"
proof -
  obtain config where a: "apply_fallible options defaultClientConfig = Inr config"
    and j: "configuredHTTPClient new_jar config (kc_baseURL c) = Inr (kc_httpClient c)"
    and f: "kc_defaultHeaders c = cc_defaultHeaders config" "kc_maxResponseBodySize c = cc_maxResponseBodySize config"
      "kc_dependencyName c = cc_dependencyName config"
    using New_parts [OF assms(1)] by metis
  have "config_ok config"
    by (rule apply_fallible_inv [where I = config_ok, OF a default_config_ok]) (blast intro: client_opt_ok assms(2))
  moreover have "kh_Jar (kc_httpClient c) \<noteq> None"
    using j by (auto simp: configuredHTTPClient_def Let_def split: option.splits dest!: sym [of _ "kc_httpClient c"])
  ultimately show ?thesis by (simp add: kl_client_ok_def config_ok_def f)
qed



section \<open>Redirects\<close>

lemma follow_stops:
  assumes "\<And>q via q'. policy q via = (q', Proceed) \<Longrightarrow> length via < 10 \<and> P q'"
    and "P q" and "list_all P via" and "n + length via = 11" and "length via < 10"
  shows "\<exists>sent r. follow n net policy via q = (sent, Some r) \<and> length sent \<le> 10 \<and> list_all P sent
    \<and> (\<exists>more. sent = via @ q # more)"
  using assms(2-5)
proof (induction n arbitrary: via q)
  case (Suc n)
  let ?reqs = "via @ [q]"
  have reqs: "list_all P ?reqs" "length ?reqs \<le> 10" using Suc.prems by simp_all
  show ?case
  proof (cases "net ?reqs")
    case (Redirected q1 resp)
    obtain q2 v where pol: "policy q1 ?reqs = (q2, v)" by fastforce
    show ?thesis
    proof (cases v)
      case Proceed
      then have "length ?reqs < 10" "P q2" using assms(1) pol by blast+
      then obtain sent r more where "follow n net policy ?reqs q2 = (sent, Some r)" "length sent \<le> 10" "list_all P sent"
        "sent = ?reqs @ q2 # more"
        using Suc.IH [of q2 ?reqs] reqs(1) Suc.prems(3) by auto
      then show ?thesis using Redirected pol Proceed by (auto simp: Let_def)
    qed (use Redirected pol reqs in \<open>auto simp: Let_def\<close>)
  qed (use reqs in \<open>auto simp: Let_def\<close>)
qed simp

lemma New_policy:
  assumes "New new_jar raw options = Inr c"
  obtains p where "kh_CheckRedirect (kc_httpClient c) = Some p"
    and "\<And>q via q'. p q via = (q', Proceed) \<Longrightarrow> length via < 10 \<and> sameOrigin (kc_baseURL c) (cr_URL q')"
proof -
  obtain config where j: "configuredHTTPClient new_jar config (kc_baseURL c) = Inr (kc_httpClient c)"
    using New_parts [OF assms] by metis
  then have "kh_CheckRedirect (kc_httpClient c) = Some (\<lambda>request via. checkRedirect (kc_baseURL c) request via
      (cc_checkRedirect config) (kh_CheckRedirect (cc_httpClient config)))"
    by (auto simp: configuredHTTPClient_def Let_def split: option.splits dest!: sym [of _ "kc_httpClient c"])
  then show ?thesis by (rule that) (use checkRedirect_Proceed in blast)
qed

lemma execute_stops:
  assumes "New new_jar raw options = Inr c" and "sameOrigin (kc_baseURL c) (cr_URL q)"
  shows "\<exists>more r. executeRequest net c q = (q # more, Some r) \<and> length more < 10
    \<and> list_all (\<lambda>q. sameOrigin (kc_baseURL c) (cr_URL q)) (q # more)"
proof -
  obtain p where p: "kh_CheckRedirect (kc_httpClient c) = Some p"
    and ok: "\<And>q via q'. p q via = (q', Proceed) \<Longrightarrow> length via < 10 \<and> sameOrigin (kc_baseURL c) (cr_URL q')"
    using New_policy [OF assms(1)] by blast
  let ?t = "case kh_Transport (kc_httpClient c) of Some t \<Rightarrow> t | None \<Rightarrow> net"
  obtain sent r more where "follow 11 ?t p [] q = (sent, Some r)" "length sent \<le> 10"
    "list_all (\<lambda>q. sameOrigin (kc_baseURL c) (cr_URL q)) sent" "sent = q # more"
    using follow_stops [where P = "\<lambda>q. sameOrigin (kc_baseURL c) (cr_URL q)" and policy = p and q = q and via = "[]" and n = 11 and net = ?t]
      ok assms(2) by auto
  then show ?thesis
    by (auto simp: executeRequest_def http_Do_def p split: sum.splits)
qed

lemma under_base_origin: "under_base base u \<Longrightarrow> sameOrigin base u"
  by (simp add: under_base_def sameOrigin_def)

lemma execute_error: "executeRequest net c q = (sent, Some (Inl err)) \<Longrightarrow> \<exists>e. err = ErrTransport e"
  by (auto simp: executeRequest_def split: prod.splits option.splits sum.splits)

lemma Do_cases:
  assumes "New new_jar raw coptions = Inr c"
  obtains (refused) err where "Do env (Some c) ctx verb target body into options = Some (failed err)"
      and "err = ErrInvalidOption \<or> newRequest (env_render env) (kc_baseURL c) (kc_defaultHeaders c) (the ctx) verb target body options = Inl err"
  | (transport) q more err where "Do env (Some c) ctx verb target body into options = Some ((failed (ErrTransport err))\<lparr>do_sent := q # more\<rparr>)"
      and "under_base (kc_baseURL c) (cr_URL q)" and "length more < 10"
      and "list_all (\<lambda>q. sameOrigin (kc_baseURL c) (cr_URL q)) (q # more)"
  | (answered) q more resp where "Do env (Some c) ctx verb target body into options = Some (finish_Do env c into (q # more) resp)"
      and "under_base (kc_baseURL c) (cr_URL q)" and "length more < 10"
      and "list_all (\<lambda>q. sameOrigin (kc_baseURL c) (cr_URL q)) (q # more)"
proof (cases "validateRequest (Some c) ctx verb")
  case (Some err)
  then have "err = ErrInvalidOption" by (auto simp: validateRequest_def split: if_splits)
  with Some show ?thesis by (intro refused [of err]) (simp_all add: Do_def)
next
  case None
  note valid = this
  show ?thesis
  proof (cases "newRequest (env_render env) (kc_baseURL c) (kc_defaultHeaders c) (the ctx) verb target body options")
    case (Inl err)
    with valid show ?thesis by (intro refused [of err]) (simp_all add: Do_def)
  next
    case (Inr q)
    have "parseBaseURL raw = Inr (kc_baseURL c)" using New_parts [OF assms] by metis
    then have u: "under_base (kc_baseURL c) (cr_URL q)" by (rule newRequest_under_base [OF _ Inr])
    obtain more r where e: "executeRequest (env_transport env) c q = (q # more, Some r)" and m: "length more < 10"
      and o: "list_all (\<lambda>q. sameOrigin (kc_baseURL c) (cr_URL q)) (q # more)"
      using execute_stops [OF assms under_base_origin [OF u]] by blast
    show ?thesis
    proof (cases r)
      case (Inl err)
      obtain te where "err = ErrTransport te" using execute_error [OF e [unfolded Inl]] by blast
      with e Inl valid Inr show ?thesis by (intro transport [OF _ u m o, of te]) (simp add: Do_def)
    next
      case (Inr resp)
      with e valid \<open>newRequest _ _ _ _ _ _ _ _ = Inr q\<close> show ?thesis
        by (intro answered [OF _ u m o, of resp]) (simp add: Do_def)
    qed
  qed
qed

lemma finish_Do_sent [simp]: "do_sent (finish_Do env c into sent resp) = sent" "do_closed (finish_Do env c into sent resp)"
  by (simp_all add: finish_Do_def Let_def failed_def split: sum.splits)

text \<open>
  C4: a call of the client always returns, after at most ten requests, whatever the server redirects to, whatever redirect
  policy was configured and even if that policy rewrites the requests: the first request lies under the base URL, and every
  request that goes out has the scheme and the host of the base URL.
\<close>

theorem redirects_stay_on_origin:
  assumes "New new_jar raw coptions = Inr c"
  shows "\<exists>r. Do env (Some c) ctx verb target body into options = Some r \<and> length (do_sent r) \<le> 10
    \<and> list_all (\<lambda>q. sameOrigin (kc_baseURL c) (cr_URL q)) (do_sent r)
    \<and> (do_sent r = [] \<or> under_base (kc_baseURL c) (cr_URL (hd (do_sent r))))"
  using assms
proof (cases rule: Do_cases [where env = env and ctx = ctx and verb = verb and target = target and body = body
      and into = into and options = options])
  case (refused err)
  then show ?thesis by (simp add: failed_def)
next
  case (transport q more err)
  then show ?thesis by simp
next
  case (answered q more resp)
  then show ?thesis by simp
qed

text \<open>A server that redirects every request to where it was sent.\<close>

definition looping_env :: env where
  "looping_env = \<lparr>env_parse = (\<lambda>_. None), env_render = (\<lambda>_. []), env_status_text = (\<lambda>_. []),
     env_transport = (\<lambda>reqs. Redirected (last reqs) \<lparr>hr_StatusCode = 307, hr_Header = [], hr_Data = [], hr_Fails = False\<rparr>)\<rparr>"

lemma redirects_stay_on_origin_witness:
  "\<exists>c r. New (Some 0) ''http://h/a'' [] = Inr c \<and> Do looping_env (Some c) (Some None) ''GET'' ''x'' NoBody NoTarget [] = Some r
    \<and> length (do_sent r) = 10 \<and> list_all (\<lambda>q. sameOrigin (kc_baseURL c) (cr_URL q)) (do_sent r)"
proof -
  let ?c = "New (Some 0) ''http://h/a'' []"
  let ?r = "\<lambda>c. Do looping_env (Some c) (Some None) ''GET'' ''x'' NoBody NoTarget []"
  have "(case ?c of Inl _ \<Rightarrow> False | Inr c \<Rightarrow> (case ?r c of None \<Rightarrow> False | Some r \<Rightarrow> length (do_sent r) = 10))"
    by code_simp
  then obtain c r where c: "?c = Inr c" and r: "?r c = Some r" and n: "length (do_sent r) = 10"
    by (auto split: sum.splits option.splits)
  from redirects_stay_on_origin [OF c, of looping_env "Some None" "''GET''" "''x''" NoBody NoTarget "[]"] r
  have "list_all (\<lambda>q. sameOrigin (kc_baseURL c) (cr_URL q)) (do_sent r)" by simp
  with c r n show ?thesis by blast
qed

section \<open>The answer\<close>

lemma limit_no_wrap:
  fixes m :: "64 word"
  assumes "0 < sint m" and "m \<noteq> MaxInt64"
  shows "sint (m + responseReadExtraByte) = sint m + 1"
proof -
  have "sint m < 2 ^ 63" using sint_lt [of m] by simp
  moreover have "sint m \<noteq> 2 ^ 63 - 1"
  proof
    assume "sint m = 2 ^ 63 - 1"
    then have "sint m = sint MaxInt64" by (simp add: MaxInt64_def)
    with assms(2) show False by (simp add: signed_word_eqI)
  qed
  ultimately have "- (2 ^ 63) \<le> sint m + sint (1 :: 64 word)" "sint m + sint (1 :: 64 word) < 2 ^ 63"
    using assms(1) by simp_all
  then show ?thesis unfolding responseReadExtraByte_def
    by (simp add: sint_word_ariths signed_take_bit_int_eq_self)
qed

lemma readResponse_exact:
  assumes "0 < sint (kc_maxResponseBodySize c)" and "kc_maxResponseBodySize c \<noteq> MaxInt64"
  shows "readResponse c h =
    (if int (length (hr_Data h)) > sint (kc_maxResponseBodySize c) then Inl ErrResponseBodyTooLarge
     else if hr_Fails h then Inl ErrReadBody
     else Inr \<lparr>kr_StatusCode = hr_StatusCode h, kr_Header = hr_Header h, kr_Body = hr_Data h\<rparr>)"
  using assms by (auto simp: readResponse_def read_limited_def limit_no_wrap)

text \<open>
  C24: a client keeps the body of an answer exactly when the body ends within the limit that was configured and was read
  without a failure, and then it keeps all of it; a longer body is refused as too large, whether it fails later or not. The
  limit is positive and reading one byte more does not wrap around, whatever limit the options asked for.
\<close>

theorem response_bounded:
  assumes "New new_jar raw options = Inr c" and "\<And>opt. Some opt \<in> set options \<Longrightarrow> client_opt opt"
  shows "0 < sint (kc_maxResponseBodySize c)
    \<and> readResponse c h =
       (if int (length (hr_Data h)) > sint (kc_maxResponseBodySize c) then Inl ErrResponseBodyTooLarge
        else if hr_Fails h then Inl ErrReadBody
        else Inr \<lparr>kr_StatusCode = hr_StatusCode h, kr_Header = hr_Header h, kr_Body = hr_Data h\<rparr>)"
  using New_ok [OF assms] readResponse_exact by (simp add: kl_client_ok_def)

lemma response_bounded_witness:
  "\<exists>c. New (Some 0) ''http://h'' [Some (WithMaxResponseBodySize 3)] = Inr c
    \<and> readResponse c \<lparr>hr_StatusCode = 200, hr_Header = [], hr_Data = ''abc'', hr_Fails = False\<rparr>
        = Inr \<lparr>kr_StatusCode = 200, kr_Header = [], kr_Body = ''abc''\<rparr>
    \<and> readResponse c \<lparr>hr_StatusCode = 200, hr_Header = [], hr_Data = ''abcd'', hr_Fails = True\<rparr> = Inl ErrResponseBodyTooLarge"
proof -
  let ?c = "New (Some 0) ''http://h'' [Some (WithMaxResponseBodySize 3)]"
  have "(case ?c of Inl _ \<Rightarrow> False | Inr c \<Rightarrow> sint (kc_maxResponseBodySize c) = 3)" by code_simp
  then obtain c where c: "?c = Inr c" and n: "sint (kc_maxResponseBodySize c) = 3" by (auto split: sum.splits)
  have o: "Some opt \<in> set [Some (WithMaxResponseBodySize 3)] \<Longrightarrow> client_opt opt" for opt by (auto intro: client_opt.intros)
  show ?thesis
    by (rule exI [of _ c])
      (use c n response_bounded [OF c o, of "\<lparr>hr_StatusCode = 200, hr_Header = [], hr_Data = ''abc'', hr_Fails = False\<rparr>"]
         response_bounded [OF c o, of "\<lparr>hr_StatusCode = 200, hr_Header = [], hr_Data = ''abcd'', hr_Fails = True\<rparr>"] in simp)
qed

section \<open>Errors of the server\<close>

definition chunk_text :: "(json \<Rightarrow> string) \<Rightarrow> chunk \<Rightarrow> string" where
  "chunk_text render c = (case c of Json j \<Rightarrow> render j | Raw s \<Rightarrow> s)"

text \<open>What a client reads of the answer a handler wrote.\<close>

definition over_the_wire :: "(json \<Rightarrow> string) \<Rightarrow> writer \<Rightarrow> http_response" where
  "over_the_wire render w =
     \<lparr>hr_StatusCode = the (w_status w), hr_Header = w_sent w, hr_Data = concat (map (chunk_text render) (w_body w)),
      hr_Fails = False\<rparr>"

lemma decode_error_response_json:
  assumes "er_Details e \<noteq> Some JNull"
  shows "decode_error_response (error_response_json e) = Some e"
proof -
  have "\<not> equal_fold ''message'' ''code''" "\<not> equal_fold ''details'' ''code''" "\<not> equal_fold ''details'' ''message''"
    by code_simp+
  with assms show ?thesis
    by (cases e) (auto simp: decode_error_response_def error_response_json_def empty_error_response_def split: option.splits)
qed

lemma error_code_given: "ErrorCodeFromHTTPStatus status \<noteq> []"
proof -
  have "list_all (\<lambda>p. snd p \<noteq> []) httpStatusToErrorCode" and "ErrorCodeInternalServerError \<noteq> []" by code_simp+
  then show ?thesis
    by (auto simp: ErrorCodeFromHTTPStatus_def list_all_iff split: option.splits dest!: map_get_SomeD)
qed

text \<open>
  C9: an error response that a handler of the server writes arrives at a client of this library as it was written: the call
  gives back an \<open>HTTPError\<close> with the status, and code, message and details are the ones the server put in, provided the JSON
  text reads back as what was written, the status is one that is final, has a body and is not a success, the code is not
  empty, and the text is within the limit of the client.
\<close>

theorem error_envelope_received:
  assumes "New new_jar raw options = Inr c" and "\<And>opt. Some opt \<in> set options \<Longrightarrow> client_opt opt"
    and "env_parse env (env_render env (error_response_json e)) = Some (error_response_json e)"
    and "body_allowed status" and "\<not> isSuccessStatus status" and "er_Code e \<noteq> []" and "er_Details e \<noteq> Some JNull"
    and "int (length (env_render env (error_response_json e))) \<le> sint (kc_maxResponseBodySize c)"
    and "w = fst (serve (write_error status e))"
  shows "\<exists>resp. do_error (finish_Do env c into sent (over_the_wire (env_render env) w)) = Some (HTTPError resp e (statusError status))
    \<and> kr_StatusCode resp = status
    \<and> do_response (finish_Do env c into sent (over_the_wire (env_render env) w)) = Some resp"
proof -
  have lim: "0 < sint (kc_maxResponseBodySize c)" "kc_maxResponseBodySize c \<noteq> MaxInt64"
    using New_ok [OF assms(1,2)] by (simp_all add: kl_client_ok_def)
  have "\<not> informational status" using assms(4) by (auto simp: informational_def body_allowed_def)
  then have w: "w_status w = Some status" "w_body w = [Json (error_response_json e)]"
    using assms(4,9) by (simp_all add: serve_def write_error_def exec_WriteJSON_fresh not_committed new_writer_def implicit_ok_def)
  let ?h = "over_the_wire (env_render env) w"
  let ?resp = "\<lparr>kr_StatusCode = status, kr_Header = w_sent w, kr_Body = env_render env (error_response_json e)\<rparr>"
  have "readResponse c ?h = Inr ?resp"
    using readResponse_exact [OF lim, of ?h] assms(8) w by (simp add: over_the_wire_def chunk_text_def)
  then show ?thesis
    using assms(3,5,6) decode_error_response_json [OF assms(7)]
    by (simp add: finish_Do_def Let_def newHTTPError_def)
qed

lemma error_envelope_received_witness:
  "\<exists>c resp. New (Some 0) ''http://h'' [] = Inr c
    \<and> do_error (finish_Do (looping_env\<lparr>env_parse := (\<lambda>_. Some (error_response_json ErrorResponseFileNotFound))\<rparr>) c NoTarget []
        (over_the_wire (\<lambda>_. []) (fst (serve (write_error 404 ErrorResponseFileNotFound)))))
      = Some (HTTPError resp ErrorResponseFileNotFound ErrNotFound)"
proof -
  let ?c = "New (Some 0) ''http://h'' []"
  let ?env = "looping_env\<lparr>env_parse := (\<lambda>_. Some (error_response_json ErrorResponseFileNotFound))\<rparr>"
  have "(case ?c of Inl _ \<Rightarrow> False | Inr c \<Rightarrow> 0 \<le> sint (kc_maxResponseBodySize c))" by code_simp
  then obtain c where c: "?c = Inr c" and n: "0 \<le> sint (kc_maxResponseBodySize c)" by (auto split: sum.splits)
  have e: "er_Code ErrorResponseFileNotFound \<noteq> []" "er_Details ErrorResponseFileNotFound \<noteq> Some JNull" by code_simp+
  from error_envelope_received [OF c, of ?env ErrorResponseFileNotFound 404 _ NoTarget "[]"] n e
  show ?thesis using c by (auto simp: looping_env_def body_allowed_def isSuccessStatus_def statusError_def)
qed

section \<open>Errors of the transport\<close>

text \<open>
  The error of a failed exchange shows no URL, and so none of the secrets a query may hold, however many times the
  library wrapped it with one, and the error at its bottom is the one the exchange failed with. The one exception is an
  exchange that failed with a \<open>url.Error\<close> with nothing in it.
\<close>

theorem transport_error_hides_url:
  assumes "executeRequest net c q = (sent, Some (Inl err))"
  shows "\<exists>e e0. err = ErrTransport e \<and> http_Do net (kc_httpClient c) q = (sent, Some (Inl e0)) \<and> bottom e = bottom e0
    \<and> (nil_url_error e0 \<or> error_urls e = [])"
  using assms transport_errors.strip_bottom transport_errors.strip_urls
  by (auto simp: executeRequest_def split: prod.splits option.splits sum.splits)

lemma transport_error_hides_url_witness:
  "\<exists>err. executeRequest (\<lambda>_. Failed (UrlError ''http://h/?key=1'' (Some (PlainError ''refused'')))) \<lparr>kc_baseURL = empty_url,
      kc_httpClient = \<lparr>kh_Transport = None, kh_CheckRedirect = None, kh_Jar = None, kh_Timeout = 0\<rparr>, kc_defaultHeaders = [],
      kc_maxResponseBodySize = 1, kc_dependencyName = ''d''\<rparr>
      \<lparr>cr_Method = ''GET'', cr_URL = empty_url, cr_Header = [], cr_Body = None\<rparr>
    = ([\<lparr>cr_Method = ''GET'', cr_URL = empty_url, cr_Header = [], cr_Body = None\<rparr>], Some (Inl (ErrTransport err)))
    \<and> error_urls err = []" (is "\<exists>err. executeRequest ?net ?c ?q = _ err \<and> _")
proof -
  have e: "executeRequest ?net ?c ?q = ([?q], Some (Inl (ErrTransport (PlainError ''refused''))))"
    by (simp add: executeRequest_def http_Do_def eval_nat_numeral Let_def sanitizeTransportError.simps)
  have "nil_url_error (PlainError ''refused'') \<or> error_urls (PlainError ''refused'') = []"
    using transport_error_hides_url [OF e] by (auto simp: nil_url_error_def)
  then have "error_urls (PlainError ''refused'') = []" by (simp add: nil_url_error_def)
  with e show ?thesis by blast
qed

section \<open>What a call gives back\<close>

lemma validateHeader_error: "validateHeader name val = Some err \<Longrightarrow> err = ErrInvalidOption"
  by (auto simp: validateHeader_def split: if_splits)

lemma first_error_error: "first_error vs (validateHeader name) = Some err \<Longrightarrow> err = ErrInvalidOption"
  by (induction vs) (auto simp: validateHeader_error split: option.splits)

lemma set_all_headers_error: "set_all_headers h c = Inl err \<Longrightarrow> err = ErrInvalidOption"
  by (induction h c rule: set_all_headers.induct) (auto simp: first_error_error split: option.splits)

lemma request_opt_error: "request_opt opt \<Longrightarrow> opt c = Inl err \<Longrightarrow> err = ErrInvalidOption"
  by (induction rule: request_opt.induct)
    (auto simp: WithHeader_def WithHeaders_def WithBearerToken_def WithBasicAuth_def WithQuery_def WithQueryValues_def
      validateHeader_error set_all_headers_error split: option.splits)

lemma apply_fallible_error:
  "apply_fallible options c = Inl err \<Longrightarrow> \<exists>opt c. Some opt \<in> set options \<and> opt c = Inl err"
  by (induction options c rule: apply_fallible.induct) (auto split: sum.splits)

definition refusals :: "client_error list" where
  "refusals = [ErrInvalidOption, ErrInvalidRequestTarget, ErrEncodeBody, ErrCreateRequest]"

lemma newRequest_error:
  assumes "newRequest render base dh rid verb target body options = Inl err"
    and "\<And>opt. Some opt \<in> set options \<Longrightarrow> request_opt opt"
  shows "err \<in> set refusals"
proof -
  have "ErrInvalidOption \<in> set refusals" by (simp add: refusals_def)
  then have "buildRequestConfig dh options = Inl e \<Longrightarrow> e \<in> set refusals" for e
    unfolding buildRequestConfig_def using apply_fallible_error request_opt_error assms(2) by metis
  moreover have "buildRequestURL base target = Inl e \<Longrightarrow> e \<in> set refusals" for e
    by (auto simp: buildRequestURL_def refusals_def Let_def split: if_splits option.splits)
  moreover have "encodeRequestBody render body = Inl e \<Longrightarrow> e \<in> set refusals" for e
    by (auto simp: encodeRequestBody_def refusals_def split: request_body.splits option.splits)
  moreover have "NewRequest verb u b = Inl e \<Longrightarrow> e \<in> set refusals" for u b e
    by (auto simp: NewRequest_def refusals_def split: if_splits option.splits)
  ultimately show ?thesis
    using assms(1) unfolding newRequest_def Let_def by (auto split: sum.splits prod.splits)
qed

definition result_ok :: "env \<Rightarrow> response_target \<Rightarrow> do_result \<Rightarrow> bool" where
  "result_ok env into r \<longleftrightarrow>
     (case do_error r of
        None \<Rightarrow>
          (case do_response r of
             None \<Rightarrow> False
           | Some resp \<Rightarrow> isSuccessStatus (kr_StatusCode resp) \<and> do_closed r
               \<and> decodeResponseBody (env_parse env) (kr_Body resp) into = Inr (do_delivered r))
      | Some (HTTPError resp e cause) \<Rightarrow>
          do_response r = Some resp \<and> \<not> isSuccessStatus (kr_StatusCode resp) \<and> er_Code e \<noteq> []
          \<and> cause = statusError (kr_StatusCode resp) \<and> do_delivered r = Nothing \<and> do_closed r
      | Some err \<Rightarrow>
          do_delivered r = Nothing
          \<and> (do_sent r = [] \<longleftrightarrow> err \<in> set refusals)
          \<and> (do_response r \<noteq> None \<longleftrightarrow> err \<in> set [ErrWriteBody, ErrDecodeBody])
          \<and> (do_closed r \<longleftrightarrow> err \<in> set [ErrReadBody, ErrResponseBodyTooLarge, ErrWriteBody, ErrDecodeBody]))"

lemma readResponse_error: "readResponse c h = Inl err \<Longrightarrow> err = ErrReadBody \<or> err = ErrResponseBodyTooLarge"
  by (auto simp: readResponse_def split: option.splits if_splits)

lemma decode_error: "decodeResponseBody parse body into = Inl err \<Longrightarrow> err = ErrWriteBody \<or> err = ErrDecodeBody"
  by (auto simp: decodeResponseBody_def split: response_target.splits option.splits if_splits)

lemma newHTTPError_shape:
  "\<exists>e. newHTTPError parse txt resp = HTTPError resp e (statusError (kr_StatusCode resp)) \<and> er_Code e \<noteq> []"
  by (auto simp: newHTTPError_def Let_def error_code_given split: option.splits)

lemma finish_Do_ok: "sent \<noteq> [] \<Longrightarrow> result_ok env into (finish_Do env c into sent h)"
proof (cases "readResponse c h")
  case (Inl err)
  assume "sent \<noteq> []"
  with Inl readResponse_error [OF Inl] show ?thesis
    by (auto simp: finish_Do_def result_ok_def failed_def refusals_def)
next
  case (Inr resp)
  assume sent: "sent \<noteq> []"
  obtain e where e: "newHTTPError (env_parse env) (env_status_text env) resp = HTTPError resp e (statusError (kr_StatusCode resp))"
    "er_Code e \<noteq> []"
    using newHTTPError_shape by blast
  show ?thesis
  proof (cases "isSuccessStatus (kr_StatusCode resp)")
    case True
    show ?thesis
    proof (cases "decodeResponseBody (env_parse env) (kr_Body resp) into")
      case (Inl err)
      with Inr True sent decode_error [OF Inl] show ?thesis
        by (auto simp: finish_Do_def result_ok_def failed_def refusals_def)
    qed (use Inr True in \<open>simp add: finish_Do_def result_ok_def failed_def\<close>)
  qed (use Inr e in \<open>simp add: finish_Do_def result_ok_def failed_def\<close>)
qed



end
