(* ===== verification/Spec2Isabelle.thy ===== *)
theory Spec2Isabelle imports Go_Path Request_Utils Proxy_Key Middleware_Headers Middleware_Auth Middleware_Writers
  Static_Files Server_Handlers Server_Lifecycle Ws_Connection Ws_Client_Order Ws_Client_Stop Ws_Hub_Ops Ws_Upgrade
  Ws_Bridge_Stop Response_Writer Server_Config Server_Run_Correct Klhayyent_Client_Correct begin

text \<open>
  A model of the Go library \<open>aichteeteapee\<close>: an HTTP server with middlewares (\<open>serbewr\<close>), a caching reverse proxy
  (\<open>serbewr/prawxxey\<close>), WebSocket hubs and a bridge to Unix sockets (\<open>serbewr/dabluvee-es\<close>), an HTTP client
  (\<open>klhayyent\<close>), and what they share (the files of the root package). Paths are those under \<open>src/\<close>.

  \<^bold>\<open>How the program works.\<close> A server is made from a configuration (\<open>config.go\<close>, \<open>server.go\<close>), its routes are set up
  from nested groups (\<open>group.go\<close>, \<open>router.go\<close>), and each handler is wrapped in the middlewares of its groups. Handlers
  and middlewares work on a request and a response writer; a middleware may answer itself, change headers, or put a writer of
  its own between the handler and the connection (logger, recovery, timeout). The proxy is a function on a request that a
  handler calls; it looks into a cache and otherwise into an upstream server through an HTTP client. A WebSocket hub is
  goroutines over shared maps and channels: a hub holds clients, a client holds connections, a connection has two pumps.
  The bridge has a goroutine for each WebSocket and for each client of its two sockets.

  \<^bold>\<open>The standard library.\<close> What the source uses of it is modelled from its documentation: strings and maps
  (\<open>Go_Prelude\<close>; a Go map is an association list with distinct keys), \<open>path\<close> (\<open>Go_Path\<close>), requests, headers and response
  writers (\<open>Go_Http\<close>; a handler is a program of writer operations, run by \<open>exec\<close>), \<open>net/url\<close> (\<open>Go_Url\<close>,
  \<open>Go_Url_String\<close>, \<open>Go_Query\<close>), JSON trees and base64 (\<open>Go_Json\<close>), errors and bodies on the client side (\<open>Go_Net\<close>), channels,
  wait groups and interleaved threads (\<open>Go_Sync\<close>).

  \<^bold>\<open>Which theory models what.\<close>
  \<^item> \<open>Header_Names\<close>, \<open>Error_Codes\<close>, \<open>Request_Utils\<close>: \<open>headers.go\<close>, \<open>error_codes.go\<close>, \<open>error_responses.go\<close>, \<open>response_utils.go\<close>,
    \<open>request_utils.go\<close>, \<open>content_types.go\<close>, \<open>defaults.go\<close>, \<open>errors.go\<close>, \<open>context_keys.go\<close>.
  \<^item> \<open>Middleware_Core\<close> (\<open>Chain\<close>, \<open>RequestID\<close>, \<open>EnforceRequestContentType\<close>), \<open>Middleware_Headers\<close> (\<open>CORS\<close>, \<open>SecurityHeaders\<close>),
    \<open>Middleware_Auth\<close> (\<open>BasicAuth\<close>, \<open>BearerAuth\<close>), \<open>Middleware_Writers\<close> (\<open>Logger\<close>, \<open>Recovery\<close>, \<open>Timeout\<close>), \<open>Response_Writer\<close> (what a
    wrapped writer passes on): \<open>serbewr/middleware\<close>. A middleware is a function on handlers.
  \<^item> \<open>Router_Group\<close>, \<open>Server_Handlers\<close>, \<open>Server_Lifecycle\<close>, \<open>Server_Config\<close>: groups and routes, the built-in handlers, start and
    stop as functions, configuration. \<open>Server_Run\<close> (with \<open>Server_Run_Invariant\<close>, \<open>Server_Run_Correct\<close>): start and stop as interleaved
    threads, a transition system in the style of the hub's below. \<open>File_Cache\<close> and \<open>Static_Files\<close>: the static file server, its cache and its listings.
  \<^item> \<open>Proxy_Request\<close>, \<open>Proxy_Key\<close> (\<open>request.go\<close>), \<open>Proxy_Headers\<close>, \<open>Proxy_Forward\<close>, \<open>Proxy_Cache\<close> (\<open>forward.go\<close>): the proxy;
    \<open>Memory_Cache\<close>: the in-memory cache of the vendored \<open>common-go\<close> it is documented with.
  \<^item> \<open>Klhayyent_Request\<close>, \<open>Klhayyent_Client\<close> (definitions) with \<open>Klhayyent_Request_Correct\<close>, \<open>Klhayyent_Client_Correct\<close>: the HTTP client.
  \<^item> \<open>Ws_Connection\<close>, \<open>Ws_Client\<close> (with \<open>Ws_Client_Safety\<close>, \<open>Ws_Client_Order\<close>, \<open>Ws_Client_Stop\<close>), \<open>Ws_Maps\<close>, \<open>Ws_Hub\<close> (with
    \<open>Ws_Hub_Correct\<close>, \<open>Ws_Hub_Ops\<close>), \<open>Ws_Event\<close>, \<open>Ws_Upgrade\<close>: the hub; \<open>Ws_Bridge\<close> (with \<open>Ws_Bridge_Safety\<close>, \<open>Ws_Bridge_Relay\<close>,
    \<open>Ws_Bridge_Stop\<close>): the bridge. Each is a transition system: a goroutine is a program counter in the record of the shared
    state, a step is one access to that state (or one section under a mutex), and a move names the thread and the choices
    of the environment; \<open>run\<close> and \<open>reaches\<close> of \<open>Go_Sync\<close> give the interleavings.

  \<^bold>\<open>The interfaces.\<close> Where one part relies on another, the laws it relies on are a locale, and the model of the other part
  is an instance of it: \<open>cache_store\<close> (what the proxy needs of a cache; instance \<open>mem\<close>), \<open>lookup_cache\<close> (a cache in front of a
  look-up; instance \<open>files\<close>), \<open>keyed_store\<close> and \<open>listed_store\<close> (the locked maps of the hub; instances \<open>conns\<close>,
  \<open>clients\<close>, \<open>event_handlers\<close>), \<open>url_stripper\<close> (errors without the URLs in them; instances \<open>upstream_errors\<close> of the proxy and
  \<open>transport_errors\<close> of the client), \<open>threads\<close> (an invariant of a transition system) and \<open>finishing\<close> (threads that end by their own
  steps, with a measure of the work left; instances for connection, client, bridge and server).

  \<^bold>\<open>What is shown.\<close> The main properties, each stated where it is proved:
  \<^item> proxy: with the in-memory cache it answers as without, over all histories (a cached answer only ever goes to a request
    that would have had it); bodies are bounded, cached values well-formed; which headers go upstream, name by name;
  \<^item> middlewares: authentication lets through exactly the accepted credentials; the header sets of CORS; the timeout shows
    the response or the timeout answer, never a mixture; no panic leaves recovery; the logger is transparent;
  \<^item> files: the path served stays in the directory, with links resolved; the file cache cannot be observed; uploads never
    overwrite; listings link back to their entries;
  \<^item> server: the routes registered, with their middlewares; under every interleaving of a start with stops all threads end
    once they are told to, no listener is left open, and nothing is accepted after a stop;
  \<^item> HTTP client: requests stay on the origin of the base URL, through all redirects; no header injection; the
    bound on the answer; what each call returns; round trips with the server (error envelopes, credentials, queries);
  \<^item> hub: which panics are possible under any interleaving and that there are no others, delivery in order, that stopping
    ends; the registry refines the model of one client; broadcasts; joining by upgrade; round trip of events;
  \<^item> bridge: relaying in order in both directions; that it ends by itself and leaves nothing but the WebSocket open.
  Other lemmas show where the code does not do what it means to, by a run that exhibits it, such as
  \<open>connection_reuse_panic\<close>, \<open>late_send_panics\<close>, \<open>second_run_panics\<close>, \<open>stale_run_removes_new_client\<close>, \<open>failed_setup_leaks\<close>,
  \<open>websocket_left_open\<close>, \<open>cancel_is_not_graceful\<close>, \<open>early_stop_leaks_listener\<close>, \<open>shutdown_error_lost\<close>, \<open>logger_wrong_after_upgrade\<close>.

  \<^bold>\<open>Arguments and hypotheses.\<close> Arguments of the definitions stand for what is not under \<open>src/\<close> or is outside of the program: SHA-256,
  the text of JSON (trees are modelled), the transport of an HTTP client (a function of the requests sent so far), the file
  system with its links and faults, the clock, UUIDs and their parser, \<open>gonfiguration\<close>, the HTML template, and the handshake of
  \<open>gorilla/websocket\<close>, of which one documented rule is used (a request the origin check refuses is not upgraded).

  \<^bold>\<open>Bounds.\<close> Following redirects has fuel 11: both redirect policies refuse after ten requests, and the fuel is proved never
  to run out. The three rounds of unescaping in \<open>hasTraversalSegment\<close> are the source's. All other recursion is structural or
  has a measure. That threads end is stated with the number of their own steps (\<open>stopping_work\<close>, \<open>bridge_work\<close>, \<open>server_run_work\<close> and the bound
  of \<open>connection_stop_terminates\<close>), and as the existence of a schedule that ends: a thread that is never scheduled does not. A write
  to a socket is a step that returns; one that the peer lets block for ever is outside these statements.
  Machine integers are words where they can wrap around (timestamps of events) and otherwise integers with the bound stated.

  \<^bold>\<open>Not modelled.\<close> Log lines except those of the logger middleware, deadlines on sockets, the running time of comparisons, the
  text of Go's \<open>html/template\<close> page, the matching of routes inside \<open>http.ServeMux\<close> (registrations are a list), the user's own
  handlers of hub and bridge, the log field names that no modelled code uses, and what a handler does to a connection it has taken over (in a handler's
  program \<open>Hijack\<close> only says whether it succeeded). Vendored code other than the in-memory cache, scripts and documentation
  are not code of this library.
\<close>

end
